(* ===== verification/Prelude.thy ===== *)
theory Prelude imports Main "HOL-Library.Char_ord" "HOL-Library.Sublist" begin

text \<open>
  Shared ground of the development: Python exceptions as values, Python's string and list
  primitives that the modelled code uses (slices, \<open>strip\<close>, \<open>lower\<close>, \<open>split\<close>, \<open>join\<close>, decimal
  rendering), the generic \<open>drop from the tail while\<close> loop, and the list lemmas the components
  share. A Python \<open>str\<close> is a \<open>string\<close>; a HOL character stands for the code point with its number
  (0 to 255), and the character classes below are exact on that range, except that the two
  letters whose upper case lies outside it are left unchanged by \<open>py_upper\<close>.
\<close>

named_theorems py_simps \<open>definitions of the small Python primitives\<close>
named_theorems frame_simps \<open>fields a component's operation leaves alone\<close>

section \<open>Results\<close>

type_synonym ('e, 'a) result = "'e + 'a"

definition bind_result :: "('e, 'a) result \<Rightarrow> ('a \<Rightarrow> ('e, 'b) result) \<Rightarrow> ('e, 'b) result" where
  "bind_result r f = (case r of Inl e \<Rightarrow> Inl e | Inr a \<Rightarrow> f a)"

lemma bind_result_simps [simp]:
  "bind_result (Inl e) f = Inl e"
  "bind_result (Inr a) f = f a"
  by (simp_all add: bind_result_def)

lemma bind_result_Inr_iff:
  "bind_result r f = Inr b \<longleftrightarrow> (\<exists>a. r = Inr a \<and> f a = Inr b)"
  by (cases r) simp_all

section \<open>Characters and strings\<close>

definition code_point :: "char \<Rightarrow> nat" where
  "code_point c = of_char c"

lemma code_point_less [simp]: "code_point c < 256"
  by (simp add: code_point_def)

lemma code_point_inject [simp]: "code_point c = code_point d \<longleftrightarrow> c = d"
  by (simp add: code_point_def)

definition py_space :: "char \<Rightarrow> bool" where
  "py_space c = (let n = code_point c in
     9 \<le> n \<and> n \<le> 13 \<or> 28 \<le> n \<and> n \<le> 32 \<or> n = 133 \<or> n = 160)"

definition lower_char :: "char \<Rightarrow> char" where
  "lower_char c = (let n = code_point c in
     if 65 \<le> n \<and> n \<le> 90 \<or> 192 \<le> n \<and> n \<le> 222 \<and> n \<noteq> 215 then char_of (n + 32) else c)"

definition upper_char :: "char \<Rightarrow> string" where
  "upper_char c = (let n = code_point c in
     if 97 \<le> n \<and> n \<le> 122 \<or> 224 \<le> n \<and> n \<le> 254 \<and> n \<noteq> 247 then [char_of (n - 32)]
     else if n = 223 then ''SS'' else [c])"

definition py_lower :: "string \<Rightarrow> string" where
  "py_lower s = map lower_char s"

definition py_upper :: "string \<Rightarrow> string" where
  "py_upper s = concat (map upper_char s)"

definition py_lstrip :: "string \<Rightarrow> string" where
  "py_lstrip s = dropWhile py_space s"

definition py_rstrip :: "string \<Rightarrow> string" where
  "py_rstrip s = rev (dropWhile py_space (rev s))"

definition py_strip :: "string \<Rightarrow> string" where
  "py_strip s = py_rstrip (py_lstrip s)"

definition py_startswith :: "string \<Rightarrow> string \<Rightarrow> bool" where
  "py_startswith s p = (take (length p) s = p)"

definition py_endswith :: "string \<Rightarrow> string \<Rightarrow> bool" where
  "py_endswith s p = (length p \<le> length s \<and> drop (length s - length p) s = p)"

definition remove_char :: "char \<Rightarrow> string \<Rightarrow> string" where
  "remove_char c s = filter (\<lambda>d. d \<noteq> c) s"

lemma lower_char_idem [simp]: "lower_char (lower_char c) = lower_char c"
proof -
  have range: "code_point (char_of n) = n mod 256" for n :: nat by (simp add: code_point_def)
  show ?thesis by (auto simp: lower_char_def range Let_def)
qed

lemma py_lower_idem [simp]: "py_lower (py_lower s) = py_lower s"
  by (simp add: py_lower_def)

lemma py_lstrip_shape: "py_lstrip s = [] \<or> \<not> py_space (hd (py_lstrip s))"
  using hd_dropWhile [of py_space s] by (auto simp: py_lstrip_def)

lemma py_rstrip_shape: "py_rstrip s = [] \<or> \<not> py_space (last (py_rstrip s))"
  using hd_dropWhile [of py_space "rev s"] by (auto simp: py_rstrip_def last_rev)

lemma py_rstrip_prefix: "prefix (py_rstrip s) s"
proof -
  have "suffix (dropWhile py_space (rev s)) (rev s)" by (rule suffix_dropWhile)
  then show ?thesis by (simp add: py_rstrip_def suffix_to_prefix)
qed

lemma py_strip_hd: "py_strip s \<noteq> [] \<Longrightarrow> \<not> py_space (hd (py_strip s))"
proof -
  assume ne: "py_strip s \<noteq> []"
  obtain t where t: "py_lstrip s = py_strip s @ t"
    using py_rstrip_prefix [of "py_lstrip s"] by (auto simp: py_strip_def elim: prefixE)
  with ne py_lstrip_shape [of s] show ?thesis by auto
qed

lemma py_strip_last: "py_strip s \<noteq> [] \<Longrightarrow> \<not> py_space (last (py_strip s))"
  using py_rstrip_shape [of "py_lstrip s"] by (simp add: py_strip_def)

lemma py_strip_id:
  assumes "s = [] \<or> \<not> py_space (hd s) \<and> \<not> py_space (last s)"
  shows "py_strip s = s"
proof (cases "s = []")
  case False
  with assms have h: "\<not> py_space (hd s)" and l: "\<not> py_space (last s)" by auto
  from False h have "dropWhile py_space s = s" by (cases s) auto
  moreover from False l have "dropWhile py_space (rev s) = rev s"
    by (cases s rule: rev_cases) auto
  ultimately show ?thesis by (simp add: py_strip_def py_lstrip_def py_rstrip_def)
qed (simp add: py_strip_def py_lstrip_def py_rstrip_def)

lemma py_strip_idem [simp]: "py_strip (py_strip s) = py_strip s"
  using py_strip_hd [of s] py_strip_last [of s] by (intro py_strip_id) auto

lemma length_py_strip: "length (py_strip s) \<le> length s"
  by (simp add: py_strip_def py_lstrip_def py_rstrip_def)
     (metis length_dropWhile_le length_rev order_trans)

lemma set_py_strip: "set (py_strip s) \<subseteq> set s"
  by (auto simp: py_strip_def py_lstrip_def py_rstrip_def dest!: set_dropWhileD)

section \<open>Splitting, joining, decimals\<close>

text \<open>\<open>s.split(c)\<close> for a one-character separator: never empty, keeps empty pieces.\<close>

fun py_split :: "char \<Rightarrow> string \<Rightarrow> string list" where
  "py_split c [] = [[]]"
| "py_split c (x # xs) =
     (if x = c then [] # py_split c xs
      else (case py_split c xs of [] \<Rightarrow> [[x]] | p # ps \<Rightarrow> (x # p) # ps))"

text \<open>\<open>sep.join(pieces)\<close>.\<close>

fun py_join :: "string \<Rightarrow> string list \<Rightarrow> string" where
  "py_join sep [] = []"
| "py_join sep [p] = p"
| "py_join sep (p # q # ps) = p @ sep @ py_join sep (q # ps)"

text \<open>\<open>s.split()\<close>: the maximal runs of non-blank characters.\<close>

function py_words :: "string \<Rightarrow> string list" where
  "py_words s = (case py_lstrip s of [] \<Rightarrow> []
     | c # cs \<Rightarrow> takeWhile (\<lambda>d. \<not> py_space d) (c # cs) # py_words (dropWhile (\<lambda>d. \<not> py_space d) cs))"
  by pat_completeness auto
termination
proof (relation "measure length")
  fix s c cs assume "py_lstrip s = c # cs"
  then have "length (c # cs) \<le> length s"
    by (metis py_lstrip_def length_dropWhile_le)
  then show "(dropWhile (\<lambda>d. \<not> py_space d) cs, s) \<in> measure length"
    using length_dropWhile_le [of "\<lambda>d. \<not> py_space d" cs] by simp
qed simp

declare py_words.simps [simp del]

lemma py_split_not_Nil [simp]: "py_split c s \<noteq> []"
  by (cases s) (auto split: list.splits)

lemma py_join_Cons: "py_join sep (p # ps) = p @ (if ps = [] then [] else sep @ py_join sep ps)"
  by (cases ps) simp_all

lemma py_join_split [simp]: "py_join [c] (py_split c s) = s"
proof (induction s)
  case (Cons x xs)
  obtain p ps where pp: "py_split c xs = p # ps"
    by (cases "py_split c xs") auto
  with Cons show ?case by (auto simp: py_join_Cons)
qed simp

lemma py_split_no_sep: "p \<in> set (py_split c s) \<Longrightarrow> c \<notin> set p"
  by (induction s arbitrary: p) (fastforce split: if_splits list.splits)+

lemma py_split_append_sep: "c \<notin> set p \<Longrightarrow> py_split c (p @ c # s) = p # py_split c s"
  by (induction p) auto

lemma py_split_no_occ: "c \<notin> set p \<Longrightarrow> py_split c p = [p]"
  by (induction p) auto

text \<open>Decimal rendering: \<open>str(n)\<close>.\<close>

definition digit_char :: "nat \<Rightarrow> char" where
  "digit_char d = char_of (48 + d)"

fun nat_dec :: "nat \<Rightarrow> string" where
  "nat_dec n = (if n < 10 then [digit_char n] else nat_dec (n div 10) @ [digit_char (n mod 10)])"

declare nat_dec.simps [simp del]

definition int_dec :: "int \<Rightarrow> string" where
  "int_dec i = (if i < 0 then CHR ''-'' # nat_dec (nat (- i)) else nat_dec (nat i))"

definition is_digit :: "char \<Rightarrow> bool" where
  "is_digit c = (48 \<le> code_point c \<and> code_point c \<le> 57)"

definition digit_val :: "char \<Rightarrow> nat" where
  "digit_val c = code_point c - 48"

definition dec_val :: "string \<Rightarrow> nat" where
  "dec_val ds = foldl (\<lambda>n c. 10 * n + digit_val c) 0 ds"

lemma code_point_digit_char: "d < 10 \<Longrightarrow> code_point (digit_char d) = 48 + d"
  by (simp add: code_point_def digit_char_def)

lemma digit_char_props [simp]:
  "d < 10 \<Longrightarrow> is_digit (digit_char d)" "d < 10 \<Longrightarrow> digit_val (digit_char d) = d"
  by (simp_all add: is_digit_def digit_val_def code_point_digit_char)

lemma nat_dec_not_Nil [simp]: "nat_dec n \<noteq> []"
  by (subst nat_dec.simps) simp

lemma nat_dec_digits: "c \<in> set (nat_dec n) \<Longrightarrow> is_digit c"
proof (induction n arbitrary: c rule: nat_dec.induct)
  case (1 n)
  then show ?case by (subst (asm) (2) nat_dec.simps) (auto split: if_splits)
qed

lemma dec_val_append: "dec_val (xs @ [c]) = 10 * dec_val xs + digit_val c"
  by (simp add: dec_val_def)

lemma dec_val_nat_dec [simp]: "dec_val (nat_dec n) = n"
proof (induction n rule: nat_dec.induct)
  case (1 n)
  show ?case
  proof (cases "n < 10")
    case True
    then show ?thesis by (subst nat_dec.simps) (simp add: dec_val_def)
  next
    case False
    with 1 show ?thesis by (subst nat_dec.simps) (simp add: dec_val_append)
  qed
qed

lemma nat_dec_inject [simp]: "nat_dec m = nat_dec n \<longleftrightarrow> m = n"
  by (metis dec_val_nat_dec)

lemma nat_dec_head: "\<exists>c cs. nat_dec n = c # cs \<and> is_digit c"
  using nat_dec_digits [of _ n] by (cases "nat_dec n") auto

section \<open>Loops over the tail of a list\<close>

text \<open>\<open>while p(xs) and xs: xs = xs[:-1]\<close>.\<close>

function drop_tail_while :: "('a list \<Rightarrow> bool) \<Rightarrow> 'a list \<Rightarrow> 'a list" where
  "drop_tail_while p xs = (if p xs \<and> xs \<noteq> [] then drop_tail_while p (butlast xs) else xs)"
  by pat_completeness auto
termination
  by (relation "measure (\<lambda>(p, xs). length xs)") auto

declare drop_tail_while.simps [simp del]

lemma drop_tail_while_stop: "\<not> p (drop_tail_while p xs) \<or> drop_tail_while p xs = []"
proof (induction p xs rule: drop_tail_while.induct)
  case (1 p xs)
  then show ?case by (cases "p xs \<and> xs \<noteq> []") (auto simp: drop_tail_while.simps [of p xs])
qed

lemma drop_tail_while_prefix: "prefix (drop_tail_while p xs) xs"
proof (induction p xs rule: drop_tail_while.induct)
  case (1 p xs)
  show ?case
  proof (cases "p xs \<and> xs \<noteq> []")
    case True
    with 1 have "prefix (drop_tail_while p (butlast xs)) (butlast xs)" by simp
    then have "prefix (drop_tail_while p (butlast xs)) xs"
      using prefixeq_butlast prefix_order.order_trans by blast
    with True show ?thesis by (simp add: drop_tail_while.simps [of p xs])
  next
    case False
    then have "drop_tail_while p xs = xs" by (auto simp: drop_tail_while.simps [of p xs])
    then show ?thesis by simp
  qed
qed

lemma drop_tail_while_id: "\<not> p xs \<Longrightarrow> drop_tail_while p xs = xs"
  by (simp add: drop_tail_while.simps [of p xs])

lemma drop_tail_while_Nil [simp]: "drop_tail_while p [] = []"
  by (simp add: drop_tail_while.simps [of p "[]"])

text \<open>The loop removes no more than it must: every longer prefix still satisfied the guard.\<close>

lemma drop_tail_while_maximal:
  assumes "prefix ys xs" "length (drop_tail_while p xs) < length ys"
  shows "p ys"
  using assms
proof (induction p xs rule: drop_tail_while.induct)
  case (1 p xs)
  show ?case
  proof (cases "p xs \<and> xs \<noteq> []")
    case True
    show ?thesis
    proof (cases "ys = xs")
      case False
      with "1.prems"(1) have "prefix ys (butlast xs)"
        by (metis prefix_snoc append_butlast_last_id True)
      with 1 True show ?thesis by (simp add: drop_tail_while.simps [of p xs])
    qed (use True in simp)
  next
    case False
    with "1.prems" show ?thesis
      by (auto simp: drop_tail_while.simps [of p xs] dest: prefix_length_le)
  qed
qed

section \<open>Lists\<close>

definition py_last_n :: "int \<Rightarrow> 'a list \<Rightarrow> 'a list" where
  \<comment> \<open>the slice \<open>xs[-n:]\<close>: with \<open>n = 0\<close> it is the whole list, with a negative \<open>n\<close> it drops\<close>
  "py_last_n n xs = (if n > 0 then drop (length xs - nat n) xs
     else drop (nat (- n)) xs)"

definition py_first_n :: "int \<Rightarrow> 'a list \<Rightarrow> 'a list" where
  \<comment> \<open>the slice \<open>xs[:n]\<close>: a negative \<open>n\<close> counts from the end\<close>
  "py_first_n n xs = (if n \<ge> 0 then take (nat n) xs else take (length xs - nat (- n)) xs)"

definition ilen :: "'a list \<Rightarrow> int" where
  "ilen xs = int (length xs)"

lemma ilen_simps [simp]:
  "ilen [] = 0" "ilen (x # xs) = 1 + ilen xs" "ilen (xs @ ys) = ilen xs + ilen ys"
  "ilen (map f xs) = ilen xs" "ilen (rev xs) = ilen xs" "0 \<le> ilen xs"
  by (simp_all add: ilen_def)

lemma ilen_eq_0 [simp]: "ilen xs = 0 \<longleftrightarrow> xs = []"
  by (simp add: ilen_def)

lemma py_first_n_prefix: "prefix (py_first_n n xs) xs"
  by (simp add: py_first_n_def take_is_prefix)

lemma py_last_n_suffix: "suffix (py_last_n n xs) xs"
  by (simp add: py_last_n_def suffix_drop)

lemma ilen_py_first_n: "0 \<le> n \<Longrightarrow> ilen (py_first_n n xs) = min n (ilen xs)"
  by (simp add: py_first_n_def ilen_def)

section \<open>Codecs\<close>

text \<open>
  The contract of a writer and its reader: what was written from a valid value is read back as
  that value. Identifiers, JSON texts and stored payloads each provide it.
\<close>

locale codec =
  fixes valid :: "'a \<Rightarrow> bool" and enc :: "'a \<Rightarrow> 'b" and dec :: "'b \<Rightarrow> 'a option"
  assumes dec_enc: "valid x \<Longrightarrow> dec (enc x) = Some x"
begin

lemma enc_inject: "valid x \<Longrightarrow> valid y \<Longrightarrow> enc x = enc y \<longleftrightarrow> x = y"
  by (metis dec_enc option.inject)

lemma dec_range: "valid x \<Longrightarrow> \<exists>t. dec t = Some x"
  using dec_enc by blast

end

end
