(* ===== verification/Domain_Types.thy ===== *)
theory Domain_Types imports Prelude begin

text \<open>
  The data of \<open>app/core/domain\<close> that every component shares: roles and chat messages
  (\<open>types.py\<close>), the provider request and result objects (\<open>provider.py\<close>), and the normalized
  provider failure (\<open>provider_errors.py\<close>, \<open>errors.py\<close>). A UUID is its 128-bit integer; its text
  form is in theory \<open>Uuid_Text\<close>.
\<close>

type_synonym uuid = nat

datatype role = System | User | Assistant

definition role_text :: "role \<Rightarrow> string" where
  "role_text r = (case r of System \<Rightarrow> ''system'' | User \<Rightarrow> ''user'' | Assistant \<Rightarrow> ''assistant'')"

lemma role_text_inject [simp]: "role_text a = role_text b \<longleftrightarrow> a = b"
  by (cases a; cases b) (simp_all add: role_text_def)

record chat_message =
  cm_role :: role
  cm_content :: string

abbreviation chat_message_of :: "role \<Rightarrow> string \<Rightarrow> chat_message" where
  "chat_message_of r c \<equiv> \<lparr>cm_role = r, cm_content = c\<rparr>"

definition content_chars :: "chat_message list \<Rightarrow> int" where
  "content_chars ms = sum_list (map (\<lambda>m. ilen (cm_content m)) ms)"

lemma content_chars_simps [simp]:
  "content_chars [] = 0"
  "content_chars (m # ms) = ilen (cm_content m) + content_chars ms"
  "content_chars (ms @ ns) = content_chars ms + content_chars ns"
  by (simp_all add: content_chars_def)

lemma content_chars_nonneg [simp]: "0 \<le> content_chars ms"
  by (induction ms) simp_all

section \<open>Provider requests, results and failures\<close>

datatype provider_error_kind =
  Kind_timeout | Kind_network | Kind_auth | Kind_rate_limit | Kind_bad_request
| Kind_upstream | Kind_unknown

definition kind_value :: "provider_error_kind \<Rightarrow> string" where
  "kind_value k = (case k of
     Kind_timeout \<Rightarrow> ''timeout'' | Kind_network \<Rightarrow> ''network'' | Kind_auth \<Rightarrow> ''auth''
   | Kind_rate_limit \<Rightarrow> ''rate_limit'' | Kind_bad_request \<Rightarrow> ''bad_request''
   | Kind_upstream \<Rightarrow> ''upstream'' | Kind_unknown \<Rightarrow> ''unknown'')"

record provider_error =
  pe_kind :: provider_error_kind
  pe_message :: string
  pe_provider :: string
  pe_http_status :: "int option"
  pe_retryable :: bool
  pe_error_code :: "string option"

definition mk_provider_error :: "provider_error_kind \<Rightarrow> string \<Rightarrow> provider_error" where
  \<comment> \<open>the constructor with the dataclass defaults\<close>
  "mk_provider_error k msg = \<lparr>pe_kind = k, pe_message = msg, pe_provider = ''unknown'',
     pe_http_status = None, pe_retryable = False, pe_error_code = None\<rparr>"

text \<open>
  What a call of a provider can raise: a normalized \<open>ProviderError\<close>, the timeout that
  \<open>asyncio.wait_for\<close> raises, or any other exception, of which the class name and the text are
  kept. Cancellation (\<open>BaseException\<close>) is outside: no handler modelled here catches it.
\<close>

datatype exn =
  Provider_Error provider_error
| Timeout_Error
| Other_Error string string

definition is_retryable :: "exn \<Rightarrow> bool" where
  "is_retryable e = (case e of Provider_Error p \<Rightarrow> pe_retryable p | _ \<Rightarrow> False)"

definition exn_text :: "exn \<Rightarrow> string" where
  \<comment> \<open>\<open>str(exc)\<close>: for a \<open>ProviderError\<close> its \<open>__str__\<close>, the message\<close>
  "exn_text e = (case e of Provider_Error p \<Rightarrow> pe_message p | Timeout_Error \<Rightarrow> []
     | Other_Error _ msg \<Rightarrow> msg)"

definition exn_name :: "exn \<Rightarrow> string" where
  "exn_name e = (case e of Provider_Error _ \<Rightarrow> ''ProviderError'' | Timeout_Error \<Rightarrow> ''TimeoutError''
     | Other_Error n _ \<Rightarrow> n)"

record provider_result =
  pr_content :: string
  pr_provider :: string
  pr_model_version :: string
  pr_prompt_version :: string
  pr_input_tokens :: "int option"
  pr_output_tokens :: "int option"
  pr_total_tokens :: "int option"
  pr_latency_ms :: "int option"

record provider_stream_result =
  psr_content :: string
  psr_provider_result :: provider_result

end
