(* ===== verification/Store.thy ===== *)
theory Store imports Domain_Types begin

text \<open>
  The relational store as the code sees it: rows of \<open>conversations\<close>, \<open>messages\<close> and
  \<open>usage_events\<close> (\<open>app/models\<close>) and the read-only queries of
  \<open>app/services/conversation_query_service.py\<close>, with \<open>WHERE\<close>, \<open>ORDER BY\<close> and \<open>LIMIT\<close> as
  \<open>filter\<close>, \<open>sort_key\<close> and \<open>take\<close>. The \<open>sequence\<close> column is a database identity: \<open>store_ok\<close> says
  that the values handed out so far are distinct and below the next one.
\<close>

record conversation_row =
  cv_id :: uuid
  cv_tenant :: string

record message_row =
  mr_id :: uuid
  mr_sequence :: int
  mr_conversation :: uuid
  mr_tenant :: string
  mr_role :: role
  mr_content :: string

record usage_row =
  ue_request :: uuid
  ue_provider :: string
  ue_model_version :: string
  ue_prompt_version :: string
  ue_status :: "string option"
  ue_error_message :: "string option"
  ue_conversation :: "uuid option"
  ue_message :: "uuid option"
  ue_input_tokens :: "int option"
  ue_output_tokens :: "int option"
  ue_total_tokens :: "int option"
  ue_latency_ms :: "int option"

record store =
  st_conversations :: "conversation_row list"
  st_messages :: "message_row list"
  st_usage :: "usage_row list"
  st_next_sequence :: int

definition store_ok :: "store \<Rightarrow> bool" where
  "store_ok s = (distinct (map mr_sequence (st_messages s)) \<and>
     (\<forall>r \<in> set (st_messages s). mr_sequence r < st_next_sequence s) \<and>
     distinct (map cv_id (st_conversations s)))"

section \<open>ConversationQueryService\<close>

definition get_conversation :: "store \<Rightarrow> uuid \<Rightarrow> string \<Rightarrow> conversation_row option" where
  "get_conversation s cid tenant =
     (case find (\<lambda>c. cv_id c = cid) (st_conversations s) of
        None \<Rightarrow> None
      | Some c \<Rightarrow> if cv_tenant c \<noteq> tenant then None else Some c)"

definition scoped_rows :: "store \<Rightarrow> uuid \<Rightarrow> string \<Rightarrow> message_row list" where
  "scoped_rows s cid tenant =
     filter (\<lambda>r. mr_conversation r = cid \<and> mr_tenant r = tenant) (st_messages s)"

definition list_messages_for_conversation :: "store \<Rightarrow> uuid \<Rightarrow> string \<Rightarrow> message_row list" where
  "list_messages_for_conversation s cid tenant = sort_key mr_sequence (scoped_rows s cid tenant)"

definition list_recent_messages_for_conversation ::
  "store \<Rightarrow> uuid \<Rightarrow> string \<Rightarrow> nat \<Rightarrow> message_row list" where
  "list_recent_messages_for_conversation s cid tenant max_rows =
     rev (take max_rows (sort_key (\<lambda>r. - mr_sequence r) (scoped_rows s cid tenant)))"

record conversation_list_row =
  clr_conversation :: uuid
  clr_message_count :: int

text \<open>
  \<open>list_conversations\<close>: the created-at column is not part of the store, so the order of the page is
  a parameter: \<open>order_rows\<close> sorts as \<open>ORDER BY created_at DESC, id DESC\<close> does.
\<close>

definition list_conversations ::
  "(conversation_row list \<Rightarrow> conversation_row list) \<Rightarrow> store \<Rightarrow> nat \<Rightarrow> nat \<Rightarrow> string
   \<Rightarrow> conversation_list_row list" where
  "list_conversations order_rows s lim off tenant =
     map (\<lambda>c. \<lparr>clr_conversation = cv_id c,
               clr_message_count = ilen (filter (\<lambda>r. mr_conversation r = cv_id c) (st_messages s))\<rparr>)
       (take lim (drop off (order_rows (filter (\<lambda>c. cv_tenant c = tenant) (st_conversations s)))))"

section \<open>Facts\<close>

lemma get_conversation_SomeD:
  assumes "get_conversation s cid tenant = Some c"
  shows "c \<in> set (st_conversations s)" "cv_id c = cid" "cv_tenant c = tenant"
  using assms by (auto simp: get_conversation_def find_Some_iff split: option.splits if_splits)

lemma sort_key_neg_rev:
  fixes f :: "'a \<Rightarrow> int"
  assumes "distinct (map f xs)"
  shows "sort_key (\<lambda>x. - f x) xs = rev (sort_key f xs)"
proof (rule map_sorted_distinct_set_unique [where f = "\<lambda>x. - f x"])
  have d: "distinct (map f (sort_key f xs))"
    by (metis assms distinct_map distinct_sort set_sort)
  show "inj_on (\<lambda>x. - f x) (set (sort_key (\<lambda>x. - f x) xs) \<union> set (rev (sort_key f xs)))"
    using assms by (auto simp: distinct_map inj_on_def)
  show "sorted (map (\<lambda>x. - f x) (sort_key (\<lambda>x. - f x) xs))" by simp
  show "distinct (map (\<lambda>x. - f x) (sort_key (\<lambda>x. - f x) xs))"
    using assms by (auto simp: distinct_map inj_on_def)
  have "sorted (map f (sort_key f xs))" by simp
  then have "sorted_wrt (\<lambda>a b. f a \<le> f b) (sort_key f xs)" by (simp add: sorted_map)
  then have "sorted_wrt (\<lambda>a b. - f a \<le> - f b) (rev (sort_key f xs))"
    by (simp add: sorted_wrt_rev)
  then show "sorted (map (\<lambda>x. - f x) (rev (sort_key f xs)))"
    by (simp only: sorted_map)
  show "distinct (map (\<lambda>x. - f x) (rev (sort_key f xs)))"
    using assms by (auto simp: distinct_map inj_on_def)
  show "set (sort_key (\<lambda>x. - f x) xs) = set (rev (sort_key f xs))" by simp
qed

lemma scoped_rows_distinct: "store_ok s \<Longrightarrow> distinct (map mr_sequence (scoped_rows s cid tenant))"
  by (simp add: store_ok_def scoped_rows_def distinct_map_filter)

lemma list_messages_strict:
  assumes "store_ok s"
  shows "sorted_wrt (<) (map mr_sequence (list_messages_for_conversation s cid tenant))"
proof -
  let ?xs = "sort_key mr_sequence (scoped_rows s cid tenant)"
  have "distinct (map mr_sequence ?xs)"
    using scoped_rows_distinct [OF assms, of cid tenant] by (auto simp: distinct_map)
  then show ?thesis
    by (simp add: list_messages_for_conversation_def strict_sorted_iff)
qed

text \<open>The bounded read is the tail of the full one: the most recent rows, in order.\<close>

lemma list_recent_is_tail:
  assumes "store_ok s"
  shows "list_recent_messages_for_conversation s cid tenant n =
     drop (length (list_messages_for_conversation s cid tenant) - n)
       (list_messages_for_conversation s cid tenant)"
  by (simp add: list_recent_messages_for_conversation_def list_messages_for_conversation_def
      sort_key_neg_rev scoped_rows_distinct assms take_rev)

lemma list_messages_tenant:
  "r \<in> set (list_messages_for_conversation s cid tenant) \<Longrightarrow>
     mr_conversation r = cid \<and> mr_tenant r = tenant"
  by (simp add: list_messages_for_conversation_def scoped_rows_def)

section \<open>An example store\<close>

text \<open>A store with two conversations of two tenants; the witnesses of several theories use it.\<close>

definition example_store :: store where
  "example_store = \<lparr>
     st_conversations = [\<lparr>cv_id = 1, cv_tenant = ''acme''\<rparr>, \<lparr>cv_id = 2, cv_tenant = ''globex''\<rparr>],
     st_messages = [
       \<lparr>mr_id = 10, mr_sequence = 2, mr_conversation = 1, mr_tenant = ''acme'', mr_role = Assistant, mr_content = ''hello''\<rparr>,
       \<lparr>mr_id = 11, mr_sequence = 1, mr_conversation = 1, mr_tenant = ''acme'', mr_role = User, mr_content = ''hi''\<rparr>,
       \<lparr>mr_id = 12, mr_sequence = 3, mr_conversation = 2, mr_tenant = ''globex'', mr_role = User, mr_content = ''x''\<rparr>],
     st_usage = [], st_next_sequence = 4\<rparr>"

lemma example_store_ok [simp]: "store_ok example_store"
  by (simp add: store_ok_def example_store_def)

end
