(* ===== verification/History.thy ===== *)
theory History imports Store begin

text \<open>
  Ordered conversation history: the \<open>ConversationHistoryPort\<close> contract and the assembler of
  \<open>app/core/domain/conversation_history.py\<close>, and the SQL adapter of
  \<open>app/services/conversation_history_adapter.py\<close>. The port is the locale \<open>history_port\<close>; the
  adapter over the store interprets it, so what the assembler promises for any port that keeps the
  contract holds for the shipped one.
\<close>

record history_message =
  hm_sequence :: int
  hm_role :: role
  hm_content :: string

record assembled_history =
  ah_messages :: "history_message list"
  ah_total_available :: int
  ah_truncated :: bool

text \<open>What fetching history can raise; the last two are the port's own failures.\<close>

datatype history_exn =
  Conversation_Not_Found uuid
| History_Integrity int int
| History_Timeout
| History_Failure string

definition history_chars :: "history_message list \<Rightarrow> int" where
  "history_chars ms = sum_list (map (\<lambda>m. ilen (hm_content m)) ms)"

lemma history_chars_simps [simp]:
  "history_chars [] = 0"
  "history_chars (m # ms) = ilen (hm_content m) + history_chars ms"
  "history_chars (ms @ ns) = history_chars ms + history_chars ns"
  by (simp_all add: history_chars_def)

lemma history_chars_nonneg [simp]: "0 \<le> history_chars ms"
  by (induction ms) simp_all

section \<open>The assembler\<close>

fun require_strictly_increasing :: "history_message list \<Rightarrow> (history_exn, unit) result" where
  "require_strictly_increasing (p # c # ms) =
     (if hm_sequence c \<le> hm_sequence p then Inl (History_Integrity (hm_sequence p) (hm_sequence c))
      else require_strictly_increasing (c # ms))"
| "require_strictly_increasing _ = Inr ()"

fun drop_over_chars :: "int \<Rightarrow> history_message list \<Rightarrow> history_message list" where
  "drop_over_chars max_chars (m # n # ms) =
     (if history_chars (m # n # ms) > max_chars then drop_over_chars max_chars (n # ms)
      else m # n # ms)"
| "drop_over_chars max_chars ms = ms"

definition apply_bounds :: "int \<Rightarrow> int \<Rightarrow> history_message list \<Rightarrow> history_message list" where
  "apply_bounds max_messages max_chars ms =
     (let kept = (if ms \<noteq> [] then py_last_n max_messages ms else ms)
      in drop_over_chars max_chars kept)"

definition assemble ::
  "int \<Rightarrow> int \<Rightarrow> (uuid \<Rightarrow> string \<Rightarrow> (history_exn, history_message list) result)
   \<Rightarrow> uuid \<Rightarrow> string \<Rightarrow> (history_exn, assembled_history) result" where
  "assemble max_messages max_chars fetch cid tenant =
     bind_result (fetch cid tenant) (\<lambda>ms.
     bind_result (require_strictly_increasing ms) (\<lambda>_.
       let kept = apply_bounds max_messages max_chars ms
       in Inr \<lparr>ah_messages = kept, ah_total_available = ilen ms,
               ah_truncated = (ilen ms > ilen kept)\<rparr>))"

section \<open>The SQL adapter\<close>

definition history_of_row :: "message_row \<Rightarrow> history_message" where
  "history_of_row r = \<lparr>hm_sequence = mr_sequence r, hm_role = mr_role r, hm_content = mr_content r\<rparr>"

definition fetch_ordered ::
  "nat option \<Rightarrow> store \<Rightarrow> uuid \<Rightarrow> string \<Rightarrow> (history_exn, history_message list) result" where
  "fetch_ordered max_rows s cid tenant =
     (case get_conversation s cid tenant of
        None \<Rightarrow> Inl (Conversation_Not_Found cid)
      | Some c \<Rightarrow>
          (let rows = (case max_rows of
              None \<Rightarrow> list_messages_for_conversation s cid tenant
            | Some n \<Rightarrow> list_recent_messages_for_conversation s cid tenant n)
           in Inr (map history_of_row rows)))"

section \<open>Facts about the assembler's loops\<close>

lemma require_strictly_increasing_iff:
  "require_strictly_increasing ms = Inr () \<longleftrightarrow> sorted_wrt (<) (map hm_sequence ms)"
proof (induction ms rule: require_strictly_increasing.induct)
  case (1 p c ms)
  then show ?case by (auto simp: not_le intro: less_trans)
qed auto

lemma drop_over_chars_suffix: "suffix (drop_over_chars k ms) ms"
  by (induction k ms rule: drop_over_chars.induct) (auto simp: suffix_ConsI)

lemma drop_over_chars_Nil [simp]: "drop_over_chars k ms = [] \<longleftrightarrow> ms = []"
  by (induction k ms rule: drop_over_chars.induct) auto

lemma drop_over_chars_bound:
  "history_chars (drop_over_chars k ms) \<le> k \<or> length (drop_over_chars k ms) \<le> 1"
  by (induction k ms rule: drop_over_chars.induct) auto

lemma history_chars_suffix: "suffix xs ys \<Longrightarrow> history_chars xs \<le> history_chars ys"
  by (auto simp: suffix_def)

lemma drop_over_chars_maximal:
  assumes "suffix ys ms" "length (drop_over_chars k ms) < length ys"
  shows "k < history_chars ys"
  using assms
proof (induction k ms rule: drop_over_chars.induct)
  case (1 k m n ms)
  show ?case
  proof (cases "ys = m # n # ms")
    case True
    with 1 show ?thesis by (auto split: if_splits)
  next
    case False
    with "1.prems"(1) have "suffix ys (n # ms)" by (auto simp: suffix_Cons)
    with 1 show ?thesis by (auto split: if_splits dest: suffix_length_le)
  qed
qed (auto dest: suffix_length_le)

lemma apply_bounds_suffix: "suffix (apply_bounds mm mc ms) ms"
  using suffix_order.order_trans [OF drop_over_chars_suffix py_last_n_suffix, of mc mm ms]
  by (auto simp: apply_bounds_def Let_def)

lemma apply_bounds_length:
  assumes "0 < mm"
  shows "ilen (apply_bounds mm mc ms) \<le> mm"
proof -
  have "length (apply_bounds mm mc ms) \<le> length (py_last_n mm ms)"
    by (auto simp: apply_bounds_def Let_def intro!: suffix_length_le drop_over_chars_suffix)
  with assms show ?thesis by (auto simp: py_last_n_def ilen_def)
qed

lemma apply_bounds_chars:
  "history_chars (apply_bounds mm mc ms) \<le> mc \<or> length (apply_bounds mm mc ms) \<le> 1"
  using drop_over_chars_bound by (simp add: apply_bounds_def Let_def)

lemma apply_bounds_Nil:
  assumes "0 < mm"
  shows "apply_bounds mm mc ms = [] \<longleftrightarrow> ms = []"
  using assms by (cases ms) (auto simp: apply_bounds_def Let_def py_last_n_def)

text \<open>A longer suffix than the one kept breaks one of the two bounds.\<close>

lemma apply_bounds_maximal:
  assumes "0 < mm" "suffix ys ms" "length (apply_bounds mm mc ms) < length ys"
  shows "mm < ilen ys \<or> mc < history_chars ys"
proof (cases "ilen ys \<le> mm")
  case True
  have ne: "ms \<noteq> []" using assms by auto
  have "length ys \<le> nat mm" using True by (auto simp: ilen_def)
  with assms(2) have "suffix ys (drop (length ms - nat mm) ms)"
    by (intro suffix_length_suffix [OF assms(2) suffix_drop]) (auto dest: suffix_length_le)
  with ne assms(1) have "suffix ys (py_last_n mm ms)" by (simp add: py_last_n_def)
  with assms ne drop_over_chars_maximal show ?thesis
    by (fastforce simp: apply_bounds_def Let_def)
qed auto

section \<open>The port contract\<close>

locale history_port =
  fixes store_inv :: "'s \<Rightarrow> bool"
    and fetch :: "'s \<Rightarrow> uuid \<Rightarrow> string \<Rightarrow> (history_exn, history_message list) result"
    and owns :: "'s \<Rightarrow> string \<Rightarrow> uuid \<Rightarrow> bool"
  assumes fetch_not_owned: "\<not> owns s t c \<Longrightarrow> fetch s c t = Inl (Conversation_Not_Found c)"
    and fetch_increasing:
      "store_inv s \<Longrightarrow> fetch s c t = Inr ms \<Longrightarrow> sorted_wrt (<) (map hm_sequence ms)"
begin

lemma assemble_isolated:
  "\<not> owns s t c \<Longrightarrow> assemble mm mc (fetch s) c t = Inl (Conversation_Not_Found c)"
  by (simp add: assemble_def fetch_not_owned)

lemma assemble_eq:
  assumes "store_inv s" "fetch s c t = Inr ms"
  shows "assemble mm mc (fetch s) c t =
    Inr \<lparr>ah_messages = apply_bounds mm mc ms, ah_total_available = ilen ms,
         ah_truncated = (ilen ms > ilen (apply_bounds mm mc ms))\<rparr>"
  using assms fetch_increasing [OF assms]
  by (simp add: assemble_def require_strictly_increasing_iff [THEN iffD2] Let_def)

lemma assemble_never_integrity_error:
  "store_inv s \<Longrightarrow> (\<And>p q. fetch s c t \<noteq> Inl (History_Integrity p q)) \<Longrightarrow>
     assemble mm mc (fetch s) c t \<noteq> Inl (History_Integrity a b)"
  by (cases "fetch s c t") (auto simp: assemble_eq, auto simp: assemble_def)

end

definition owned_by :: "store \<Rightarrow> string \<Rightarrow> uuid \<Rightarrow> bool" where
  "owned_by s t c = (get_conversation s c t \<noteq> None)"

lemma fetch_ordered_rows:
  "fetch_ordered k s c t = Inr ms \<Longrightarrow>
     ms = map history_of_row (case k of None \<Rightarrow> list_messages_for_conversation s c t
        | Some n \<Rightarrow> list_recent_messages_for_conversation s c t n)"
  by (auto simp: fetch_ordered_def Let_def split: option.splits)

lemma sorted_wrt_drop_int: "sorted_wrt P xs \<Longrightarrow> sorted_wrt P (drop n xs)"
  by (metis append_take_drop_id sorted_wrt_append)

interpretation sql_port: history_port store_ok "fetch_ordered k" owned_by
proof (unfold_locales, goal_cases)
  case (1 s t c)
  then show ?case by (simp add: fetch_ordered_def owned_by_def)
next
  case (2 s c t ms)
  have *: "map hm_sequence (map history_of_row rs) = map mr_sequence rs" for rs
    by (simp add: history_of_row_def)
  from 2 list_messages_strict [OF 2(1), of c t] show ?case
    by (cases k)
       (auto dest!: fetch_ordered_rows
         simp: * list_recent_is_tail drop_map [symmetric] sorted_wrt_drop_int simp del: map_map)
qed

section \<open>Properties\<close>



text \<open>A conversation of another tenant is not found: neither its messages nor an integrity error
  about them can reach the caller, whatever the bounds.\<close>

theorem history_of_other_tenant_not_found:
  assumes "\<forall>c \<in> set (st_conversations s). cv_id c = cid \<longrightarrow> cv_tenant c \<noteq> tenant"
  shows "assemble mm mc (fetch_ordered k s) cid tenant = Inl (Conversation_Not_Found cid)"
proof (rule sql_port.assemble_isolated)
  show "\<not> owned_by s tenant cid" using assms get_conversation_SomeD by (fastforce simp: owned_by_def)
qed

theorem history_of_other_tenant_witness:
  "assemble 10 100 (fetch_ordered None example_store) 2 ''acme'' = Inl (Conversation_Not_Found 2)"
  by (rule history_of_other_tenant_not_found) (simp add: example_store_def)

end
