(* ===== verification/Turns.thy ===== *)
theory Turns imports History begin

text \<open>
  Turn grouping, the snap to a turn boundary and the well-formedness filter of
  \<open>app/core/domain/conversation_turns.py\<close>. A \<open>TurnUnit\<close> is its list of messages (never empty).
  The lemmas show that grouping is total (concatenation gives the input back), that window and
  complement partition the grouped units, and that the window alternates user and assistant.
\<close>

type_synonym turn_unit = "history_message list"

datatype turn_exn = Index_Error

definition first_sequence :: "turn_unit \<Rightarrow> int" where
  "first_sequence u = hm_sequence (hd u)"

definition is_well_formed :: "turn_unit \<Rightarrow> bool" where
  "is_well_formed u = (length u = 2 \<and> hm_role (u ! 0) = User \<and> hm_role (u ! 1) = Assistant)"

definition document_text :: "turn_unit \<Rightarrow> string" where
  "document_text u = py_join [CHR 0x0A] (map hm_content u)"

record window_partition =
  wp_window :: "history_message list"
  wp_window_units :: "turn_unit list"
  wp_excluded_units :: "turn_unit list"
  wp_grouped :: "turn_unit list"
  wp_snapped_in_turns :: int

fun group_turns :: "history_message list \<Rightarrow> turn_unit list" where
  "group_turns [] = []"
| "group_turns [m] = [[m]]"
| "group_turns (m # n # ms) =
     (if hm_role m = User \<and> hm_role n = Assistant then [m, n] # group_turns ms
      else [m] # group_turns (n # ms))"

fun first_index :: "('a \<Rightarrow> bool) \<Rightarrow> 'a list \<Rightarrow> nat option" where
  "first_index p [] = None"
| "first_index p (x # xs) = (if p x then Some 0 else map_option Suc (first_index p xs))"

definition index_of_unit_covering :: "turn_unit list \<Rightarrow> int \<Rightarrow> nat" where
  "index_of_unit_covering grouped sq =
     (case first_index (\<lambda>u. \<exists>m \<in> set u. hm_sequence m = sq) grouped of
        Some i \<Rightarrow> i
      | None \<Rightarrow> (case first_index (\<lambda>u. sq \<le> first_sequence u) grouped of
                   Some i \<Rightarrow> i
                 | None \<Rightarrow> length grouped))"

text \<open>
  \<open>snapped_span[0]\<close> raises when the span is empty, which the index function allows (no unit covers
  or follows the bound); \<open>Inl Index_Error\<close> is that branch.
\<close>

definition build_materialized_window ::
  "history_message list \<Rightarrow> history_message list \<Rightarrow> (turn_exn, window_partition) result" where
  "build_materialized_window all_messages bounded =
     (let grouped = group_turns all_messages in
      if grouped = [] \<or> bounded = [] then
        Inr \<lparr>wp_window = [], wp_window_units = [], wp_excluded_units = grouped,
             wp_grouped = grouped, wp_snapped_in_turns = 0\<rparr>
      else
        (let bound_start = hm_sequence (hd bounded);
             snap_index = index_of_unit_covering grouped bound_start;
             span = drop snap_index grouped
         in case span of
              [] \<Rightarrow> Inl Index_Error
            | u # _ \<Rightarrow>
                (let snapped_in = (if first_sequence u < bound_start then 1 else 0);
                     window_units = filter is_well_formed span;
                     excluded = take snap_index grouped @ filter (\<lambda>v. \<not> is_well_formed v) span
                 in Inr \<lparr>wp_window = concat window_units, wp_window_units = window_units,
                         wp_excluded_units = excluded, wp_grouped = grouped,
                         wp_snapped_in_turns = snapped_in\<rparr>)))"

section \<open>Grouping\<close>

lemma concat_group_turns [simp]: "concat (group_turns ms) = ms"
  by (induction ms rule: group_turns.induct) auto

lemma group_turns_unit:
  "u \<in> set (group_turns ms) \<Longrightarrow> (\<exists>m. u = [m]) \<or> is_well_formed u"
  by (induction ms rule: group_turns.induct) (auto simp: is_well_formed_def split: if_splits)

lemma group_turns_nonempty: "u \<in> set (group_turns ms) \<Longrightarrow> u \<noteq> []"
  by (auto dest!: group_turns_unit simp: is_well_formed_def)

lemma group_turns_Nil [simp]: "group_turns ms = [] \<longleftrightarrow> ms = []"
  by (induction ms rule: group_turns.induct) auto

lemma is_well_formedE:
  assumes "is_well_formed u"
  obtains m n where "u = [m, n]" "hm_role m = User" "hm_role n = Assistant"
proof -
  from assms obtain m n where "u = [m, n]"
    by (auto simp: is_well_formed_def length_Suc_conv numeral_2_eq_2)
  with assms that show ?thesis by (auto simp: is_well_formed_def)
qed

section \<open>The covering index\<close>

lemma first_index_SomeD: "first_index p xs = Some i \<Longrightarrow> i < length xs \<and> p (xs ! i) \<and> (\<forall>j<i. \<not> p (xs ! j))"
  by (induction xs arbitrary: i) (auto simp: less_Suc_eq_0_disj split: if_splits)

lemma first_index_Some_ex: "x \<in> set xs \<Longrightarrow> p x \<Longrightarrow> \<exists>i. first_index p xs = Some i"
  by (induction xs) auto

lemma first_index_None_iff: "first_index p xs = None \<longleftrightarrow> (\<forall>x \<in> set xs. \<not> p x)"
  by (induction xs) auto

lemma covering_index:
  assumes "m \<in> set ms" "hm_sequence m = sq"
  shows "index_of_unit_covering (group_turns ms) sq < length (group_turns ms)"
    and "\<exists>k \<in> set (group_turns ms ! index_of_unit_covering (group_turns ms) sq). hm_sequence k = sq"
proof -
  let ?p = "\<lambda>u. \<exists>m \<in> set u. hm_sequence m = sq"
  have "m \<in> \<Union> (set ` set (group_turns ms))"
    using assms(1) by (metis concat_group_turns set_concat)
  then obtain u where "u \<in> set (group_turns ms)" "m \<in> set u" by blast
  with assms(2) obtain i where i: "first_index ?p (group_turns ms) = Some i"
    using first_index_Some_ex [of u "group_turns ms" ?p] by blast
  with first_index_SomeD [OF i]
  show "index_of_unit_covering (group_turns ms) sq < length (group_turns ms)"
    and "\<exists>k \<in> set (group_turns ms ! index_of_unit_covering (group_turns ms) sq). hm_sequence k = sq"
    by (simp_all add: index_of_unit_covering_def)
qed

section \<open>The window\<close>

lemma build_window_total:
  assumes "set bounded \<subseteq> set all_messages"
  shows "\<exists>p. build_materialized_window all_messages bounded = Inr p"
proof (cases "all_messages = [] \<or> bounded = []")
  case True
  then show ?thesis by (auto simp: build_materialized_window_def Let_def)
next
  case False
  with assms have "hd bounded \<in> set all_messages" by (cases bounded) auto
  from covering_index(1) [OF this refl] False show ?thesis
    by (auto simp: build_materialized_window_def Let_def split: list.split)
qed

lemma build_window_InrD:
  assumes "build_materialized_window ms bounded = Inr p"
  obtains i where "wp_grouped p = group_turns ms"
    and "wp_window_units p = filter is_well_formed (drop i (group_turns ms))"
    and "wp_excluded_units p =
      take i (group_turns ms) @ filter (\<lambda>v. \<not> is_well_formed v) (drop i (group_turns ms))"
    and "wp_window p = concat (wp_window_units p)"
    and "ms = [] \<or> bounded = [] \<Longrightarrow> i = length (group_turns ms)"
    and "ms \<noteq> [] \<Longrightarrow> bounded \<noteq> [] \<Longrightarrow>
      i = index_of_unit_covering (group_turns ms) (hm_sequence (hd bounded))"
proof (cases "ms = [] \<or> bounded = []")
  case True
  with assms show ?thesis
    by (intro that [of "length (group_turns ms)"])
       (auto simp: build_materialized_window_def Let_def)
next
  case False
  with assms show ?thesis
    by (intro that [of "index_of_unit_covering (group_turns ms) (hm_sequence (hd bounded))"])
       (auto simp: build_materialized_window_def Let_def split: list.splits)
qed

text \<open>
  Window and complement partition the grouped units, whatever the bound. Stated on multisets
  through counting, so that repeated units are counted too.
\<close>

lemma window_partition_total:
  assumes "build_materialized_window ms bounded = Inr p"
  shows "count_list (wp_window_units p) u + count_list (wp_excluded_units p) u
    = count_list (wp_grouped p) u"
proof -
  from assms obtain i where
    i: "wp_grouped p = group_turns ms"
    "wp_window_units p = filter is_well_formed (drop i (group_turns ms))"
    "wp_excluded_units p =
      take i (group_turns ms) @ filter (\<lambda>v. \<not> is_well_formed v) (drop i (group_turns ms))"
    by (rule build_window_InrD)
  have split: "count_list (filter is_well_formed us) u + count_list (filter (\<lambda>v. \<not> is_well_formed v) us) u
      = count_list us u" for us
    by (induction us) auto
  have "count_list (group_turns ms) u
      = count_list (take i (group_turns ms)) u + count_list (drop i (group_turns ms)) u"
    by (metis append_take_drop_id count_list_append)
  with split [of "drop i (group_turns ms)"] show ?thesis by (simp add: i count_list_append)
qed

lemma window_units_well_formed:
  "build_materialized_window ms bounded = Inr p \<Longrightarrow> u \<in> set (wp_window_units p) \<Longrightarrow> is_well_formed u"
  by (elim build_window_InrD) auto

text \<open>The roles of a window: user and assistant in turn.\<close>

fun alternates :: "role list \<Rightarrow> bool" where
  "alternates [] = True"
| "alternates (r # q # rs) = (r = User \<and> q = Assistant \<and> alternates rs)"
| "alternates [r] = False"

lemma alternates_append: "alternates rs \<Longrightarrow> alternates qs \<Longrightarrow> alternates (rs @ qs)"
  by (induction rs rule: alternates.induct) auto

lemma alternates_even: "alternates rs \<Longrightarrow> even (length rs)"
  by (induction rs rule: alternates.induct) auto

lemma alternates_drop2: "alternates rs \<Longrightarrow> alternates (drop 2 rs)"
  by (cases rs rule: alternates.cases) auto

lemma alternates_concat:
  "\<forall>u \<in> set us. is_well_formed u \<Longrightarrow> alternates (map hm_role (concat us))"
  by (induction us) (auto elim!: is_well_formedE)

lemma window_alternates:
  assumes "build_materialized_window ms bounded = Inr p"
  shows "alternates (map hm_role (wp_window p))"
proof -
  have "wp_window p = concat (wp_window_units p)"
    using assms by (elim build_window_InrD)
  then show ?thesis using window_units_well_formed [OF assms] by (simp add: alternates_concat)
qed

lemma subseq_concat_filter: "subseq (concat (filter P xss)) (concat xss)"
  by (induction xss) (auto intro: list_emb_append_mono list_emb_append2)

lemma window_subseq:
  assumes "build_materialized_window ms bounded = Inr p"
  shows "subseq (wp_window p) ms"
proof -
  from assms obtain i where
    i: "wp_window_units p = filter is_well_formed (drop i (group_turns ms))"
    "wp_window p = concat (wp_window_units p)"
    by (rule build_window_InrD)
  have "ms = concat (take i (group_turns ms)) @ concat (drop i (group_turns ms))"
    by (metis append_take_drop_id concat_append concat_group_turns)
  then show ?thesis
    using subseq_concat_filter [of is_well_formed "drop i (group_turns ms)"]
    by (metis i list_emb_append2)
qed

text \<open>
  The snap never splits a turn: with strictly increasing sequences, every well-formed turn that
  holds a message at or after the bound is in the window, whole.
\<close>

lemma turn_index_sequence:
  assumes "sorted_wrt (<) (map hm_sequence (concat us))" "i < j" "j < length us"
    "a \<in> set (us ! i)" "b \<in> set (us ! j)"
  shows "hm_sequence a < hm_sequence b"
proof -
  have split: "concat us = concat (take j us) @ concat (drop j us)"
    by (metis append_take_drop_id concat_append)
  have "us ! i \<in> set (take j us)" using assms(2,3) by (metis in_set_conv_nth length_take min.absorb4 nth_take)
  then have "a \<in> set (concat (take j us))" using assms(4) by auto
  moreover have "us ! j \<in> set (drop j us)" using assms(3) by (metis Cons_nth_drop_Suc list.set_intros(1))
  then have "b \<in> set (concat (drop j us))" using assms(5) by auto
  ultimately show ?thesis using assms(1) by (auto simp: split sorted_wrt_append)
qed

lemma window_covers_bounded:
  assumes inc: "sorted_wrt (<) (map hm_sequence ms)"
    and build: "build_materialized_window ms bounded = Inr p"
    and sub: "set bounded \<subseteq> set ms" "bounded \<noteq> []"
    and u: "u \<in> set (group_turns ms)" "is_well_formed u" "m \<in> set u"
    and after: "hm_sequence (hd bounded) \<le> hm_sequence m"
  shows "u \<in> set (wp_window_units p)"
proof -
  let ?gs = "group_turns ms" and ?sq = "hm_sequence (hd bounded)"
  let ?i = "index_of_unit_covering ?gs ?sq"
  have ne: "ms \<noteq> []" using sub by auto
  have hd: "hd bounded \<in> set ms" using sub by (cases bounded) auto
  note cov = covering_index [OF hd refl]
  then obtain k where k: "k \<in> set (?gs ! ?i)" "hm_sequence k = ?sq" by blast
  from u(1) obtain j where j: "j < length ?gs" "?gs ! j = u" by (auto simp: in_set_conv_nth)
  have "\<not> j < ?i"
  proof
    assume "j < ?i"
    from turn_index_sequence [OF _ this cov(1), of m k] inc u(3) j k
    have "hm_sequence m < ?sq" by simp
    with after show False by simp
  qed
  then have "u \<in> set (drop ?i ?gs)"
    using j by (auto simp: in_set_conv_nth intro!: exI [of _ "j - ?i"])
  moreover have "wp_window_units p = filter is_well_formed (drop ?i ?gs)"
    using build ne sub(2) by (elim build_window_InrD) simp
  ultimately show ?thesis using u(2) by simp
qed

section \<open>Properties\<close>

text \<open>C2: for a history in sequence order and a bounded read of it, the turn window always exists (the
  empty span that would raise is unreachable); every grouped turn is in exactly one of the window and the
  retrieval corpus; the window is a subsequence of the history whose roles alternate user, assistant;
  and it holds, whole, every complete turn that reaches into the bound.\<close>

theorem turn_window_partitions_history:
  assumes "sorted_wrt (<) (map hm_sequence ms)" "set bounded \<subseteq> set ms"
  shows "\<exists>p. build_materialized_window ms bounded = Inr p
    \<and> (\<forall>u. count_list (wp_window_units p) u + count_list (wp_excluded_units p) u
          = count_list (group_turns ms) u)
    \<and> concat (group_turns ms) = ms
    \<and> subseq (wp_window p) ms \<and> alternates (map hm_role (wp_window p))
    \<and> (bounded \<noteq> [] \<longrightarrow> (\<forall>u \<in> set (group_turns ms). is_well_formed u
          \<and> (\<exists>m \<in> set u. hm_sequence (hd bounded) \<le> hm_sequence m) \<longrightarrow> u \<in> set (wp_window_units p)))"
proof -
  obtain p where p: "build_materialized_window ms bounded = Inr p"
    using build_window_total [OF assms(2)] by blast
  have "wp_grouped p = group_turns ms" using p by (rule build_window_InrD)
  then have "\<forall>u. count_list (wp_window_units p) u + count_list (wp_excluded_units p) u
          = count_list (group_turns ms) u"
    using window_partition_total [OF p] by simp
  then show ?thesis
    using p window_subseq [OF p] window_alternates [OF p] window_covers_bounded [OF assms(1) p assms(2)]
    by auto
qed

definition example_history :: "history_message list" where
  "example_history = [
     \<lparr>hm_sequence = 1, hm_role = User, hm_content = ''alpha''\<rparr>,
     \<lparr>hm_sequence = 2, hm_role = User, hm_content = ''beta''\<rparr>,
     \<lparr>hm_sequence = 3, hm_role = Assistant, hm_content = ''gamma''\<rparr>,
     \<lparr>hm_sequence = 4, hm_role = User, hm_content = ''delta''\<rparr>,
     \<lparr>hm_sequence = 5, hm_role = Assistant, hm_content = ''eps''\<rparr>]"

theorem turn_window_partitions_witness:
  "\<exists>p. build_materialized_window example_history (drop 2 example_history) = Inr p
     \<and> alternates (map hm_role (wp_window p)) \<and> length (wp_excluded_units p) = 1"
proof -
  have "sorted_wrt (<) (map hm_sequence example_history)" by (simp add: example_history_def)
  moreover have "set (drop 2 example_history) \<subseteq> set example_history" by (rule set_drop_subset)
  ultimately obtain p where p: "build_materialized_window example_history (drop 2 example_history) = Inr p"
      "alternates (map hm_role (wp_window p))"
    using turn_window_partitions_history [of example_history "drop 2 example_history"] by blast
  have "case build_materialized_window example_history (drop 2 example_history) of
      Inr q \<Rightarrow> length (wp_excluded_units q) = 1 | Inl e \<Rightarrow> False" by code_simp
  with p show ?thesis by simp
qed

end
