(* ===== verification/Packer.thy ===== *)
theory Packer imports Turns begin

text \<open>
  The hard added-context packer of \<open>app/core/domain/context_packer.py\<close> and the truncation helpers
  of \<open>app/core/utils/limits.py\<close>: whole turns are dropped from the oldest end, then the last one is
  truncated in role order. The lemmas bound the result by the budget and show that the roles of
  what is kept are those of the newest turns.
\<close>

section \<open>limits.py\<close>

definition py_truncate :: "string \<Rightarrow> int \<Rightarrow> string" where
  "py_truncate s n = (if ilen s \<le> n then s else py_first_n n s)"

definition sanitize_error_message :: "string \<Rightarrow> int \<Rightarrow> string" where
  "sanitize_error_message msg max_len =
     (let s = py_strip msg in
      if s = [] then py_truncate ''unknown error'' max_len else py_truncate s max_len)"

lemma ilen_py_truncate: "0 \<le> n \<Longrightarrow> ilen (py_truncate s n) = min n (ilen s)"
  by (simp add: py_truncate_def ilen_py_first_n)

lemma py_truncate_prefix: "prefix (py_truncate s n) s"
  by (simp add: py_truncate_def py_first_n_prefix)

lemma sanitize_error_message_bound: "0 \<le> n \<Longrightarrow> ilen (sanitize_error_message msg n) \<le> n"
  by (simp add: sanitize_error_message_def Let_def ilen_py_truncate)

lemma sanitize_error_message_nonempty: "0 < n \<Longrightarrow> sanitize_error_message msg n \<noteq> []"
  by (auto simp: sanitize_error_message_def Let_def py_truncate_def py_first_n_def)

section \<open>context_packer.py\<close>

record packed_window =
  pw_messages :: "chat_message list"
  pw_truncated :: bool

fun pair_up :: "'a list \<Rightarrow> 'a list list" where
  \<comment> \<open>\<open>[messages[i : i + 2] for i in range(0, len(messages), 2)]\<close>\<close>
  "pair_up (x # y # zs) = [x, y] # pair_up zs"
| "pair_up [x] = [[x]]"
| "pair_up [] = []"

definition total_chars :: "chat_message list list \<Rightarrow> int" where
  "total_chars turns = content_chars (concat turns)"

fun truncate_turn :: "chat_message list \<Rightarrow> int \<Rightarrow> chat_message list" where
  "truncate_turn [] remaining = []"
| "truncate_turn (m # ms) remaining =
     (if remaining \<le> 0 then m\<lparr>cm_content := []\<rparr> # truncate_turn ms remaining
      else if ilen (cm_content m) \<le> remaining
      then m # truncate_turn ms (remaining - ilen (cm_content m))
      else m\<lparr>cm_content := py_truncate (cm_content m) remaining\<rparr> # truncate_turn ms 0)"

fun drop_oldest_turns :: "int \<Rightarrow> chat_message list list \<times> bool \<Rightarrow> chat_message list list \<times> bool" where
  "drop_oldest_turns budget (t # u # ts, truncated) =
     (if total_chars (t # u # ts) > budget then drop_oldest_turns budget (u # ts, True)
      else (t # u # ts, truncated))"
| "drop_oldest_turns budget (ts, truncated) = (ts, truncated)"

definition pack_recent_window :: "chat_message list \<Rightarrow> int \<Rightarrow> int \<Rightarrow> packed_window" where
  "pack_recent_window messages max_chars reserved_chars =
     (let budget = max_chars - reserved_chars in
      if budget \<le> 0 then \<lparr>pw_messages = [], pw_truncated = (messages \<noteq> [])\<rparr>
      else
        (case drop_oldest_turns budget (pair_up messages, False) of
           (turns, truncated) \<Rightarrow>
             (case turns of
                [] \<Rightarrow> \<lparr>pw_messages = [], pw_truncated = truncated\<rparr>
              | t # _ \<Rightarrow>
                  if total_chars turns > budget
                  then \<lparr>pw_messages = concat [truncate_turn t budget], pw_truncated = True\<rparr>
                  else \<lparr>pw_messages = concat turns, pw_truncated = truncated\<rparr>)))"

section \<open>Facts\<close>

lemma concat_pair_up [simp]: "concat (pair_up xs) = xs"
  by (induction xs rule: pair_up.induct) auto

lemma pair_up_Nil [simp]: "pair_up xs = [] \<longleftrightarrow> xs = []"
  by (induction xs rule: pair_up.induct) auto

lemma total_chars_Nil [simp]: "total_chars [] = 0"
  by (simp add: total_chars_def)

lemma truncate_turn_roles [simp]: "map cm_role (truncate_turn ms b) = map cm_role ms"
  by (induction ms b rule: truncate_turn.induct) auto

lemma truncate_turn_bound: "content_chars (truncate_turn ms b) \<le> max 0 b"
  by (induction ms b rule: truncate_turn.induct) (auto simp: ilen_py_truncate max_def split: if_splits)

lemma truncate_turn_exact:
  "0 \<le> b \<Longrightarrow> b \<le> content_chars ms \<Longrightarrow> content_chars (truncate_turn ms b) = b"
proof (induction ms b rule: truncate_turn.induct)
  case (2 m ms b)
  have zero: "content_chars (truncate_turn ks 0) = 0" for ks
    by (induction ks) auto
  from 2 show ?case by (auto simp: ilen_py_truncate zero)
qed simp

lemma drop_oldest_turns_suffix: "suffix (fst (drop_oldest_turns b (ts, f))) ts"
  by (induction b "(ts, f)" arbitrary: ts f rule: drop_oldest_turns.induct) (auto simp: suffix_ConsI)

lemma drop_oldest_turns_flag:
  "snd (drop_oldest_turns b (ts, f)) \<longleftrightarrow> f \<or> fst (drop_oldest_turns b (ts, f)) \<noteq> ts"
proof (induction b "(ts, f)" arbitrary: ts f rule: drop_oldest_turns.induct)
  case (1 b t u ts f)
  have "fst (drop_oldest_turns b (u # ts, True)) \<noteq> t # u # ts"
    using suffix_length_le [OF drop_oldest_turns_suffix [of b "u # ts" True]] by auto
  with 1 show ?case by auto
qed auto

lemma drop_oldest_turns_fits:
  "total_chars (fst (drop_oldest_turns b (ts, f))) \<le> b \<or> length (fst (drop_oldest_turns b (ts, f))) \<le> 1"
  by (induction b "(ts, f)" arbitrary: ts f rule: drop_oldest_turns.induct) auto

lemma drop_oldest_turns_id: "total_chars ts \<le> b \<Longrightarrow> drop_oldest_turns b (ts, f) = (ts, f)"
  by (cases "(b, ts, f)" rule: drop_oldest_turns.cases) auto

lemma drop_oldest_turns_Nil [simp]: "fst (drop_oldest_turns b (ts, f)) = [] \<longleftrightarrow> ts = []"
  by (induction b "(ts, f)" arbitrary: ts f rule: drop_oldest_turns.induct) auto

text \<open>The two ways a pack can end, once for all clients.\<close>

lemma pack_recent_window_cases:
  assumes "0 < max_chars - reserved_chars"
  obtains
    (fits) turns where "suffix turns (pair_up ms)" "total_chars turns \<le> max_chars - reserved_chars"
      "pack_recent_window ms max_chars reserved_chars =
         \<lparr>pw_messages = concat turns, pw_truncated = (turns \<noteq> pair_up ms)\<rparr>"
  | (cut) t where "suffix [t] (pair_up ms)" "content_chars t > max_chars - reserved_chars"
      "pack_recent_window ms max_chars reserved_chars =
         \<lparr>pw_messages = truncate_turn t (max_chars - reserved_chars), pw_truncated = True\<rparr>"
proof -
  let ?b = "max_chars - reserved_chars"
  obtain turns f where d: "drop_oldest_turns ?b (pair_up ms, False) = (turns, f)" by fastforce
  have suf: "suffix turns (pair_up ms)" and flag: "f \<longleftrightarrow> turns \<noteq> pair_up ms"
    and fit: "total_chars turns \<le> ?b \<or> length turns \<le> 1"
    using drop_oldest_turns_suffix [of ?b "pair_up ms" False]
      drop_oldest_turns_flag [of ?b "pair_up ms" False]
      drop_oldest_turns_fits [of ?b "pair_up ms" False] by (simp_all add: d)
  show ?thesis
  proof (cases "total_chars turns \<le> ?b")
    case True
    with assms d suf flag show ?thesis
      by (intro fits [of turns]) (auto simp: pack_recent_window_def Let_def split: list.splits)
  next
    case False
    with fit assms obtain t where t: "turns = [t]" by (cases turns) auto
    with False assms d suf show ?thesis
      by (intro cut [of t]) (auto simp: pack_recent_window_def Let_def total_chars_def)
  qed
qed

lemma pack_bound:
  "content_chars (pw_messages (pack_recent_window ms k r)) \<le> max 0 (k - r)"
proof (cases "0 < k - r")
  case True
  then show ?thesis
  proof (cases rule: pack_recent_window_cases [of k r ms])
    case (fits turns)
    then show ?thesis by (simp add: total_chars_def)
  next
    case (cut t)
    then show ?thesis using truncate_turn_bound [of t "k - r"] by simp
  qed
qed (simp add: pack_recent_window_def)

lemma pack_id:
  assumes "content_chars ms \<le> k - r" "0 < k - r"
  shows "pack_recent_window ms k r = \<lparr>pw_messages = ms, pw_truncated = False\<rparr>"
proof (cases "pair_up ms")
  case (Cons t ts)
  then have ms: "ms = concat (t # ts)" by (metis concat_pair_up)
  with assms have "total_chars (t # ts) \<le> k - r" by (simp add: total_chars_def)
  then show ?thesis
    using assms(2) ms [symmetric]
    by (simp add: pack_recent_window_def Let_def Cons drop_oldest_turns_id)
qed (use assms(2) in \<open>simp add: pack_recent_window_def\<close>)

lemma pack_starved: "k \<le> r \<Longrightarrow> pack_recent_window ms k r = \<lparr>pw_messages = [], pw_truncated = (ms \<noteq> [])\<rparr>"
  by (simp add: pack_recent_window_def)

lemma suffix_concat: "suffix xss yss \<Longrightarrow> suffix (concat xss) (concat yss)"
  by (auto simp: suffix_def)

lemma pack_roles: "suffix (map cm_role (pw_messages (pack_recent_window ms k r))) (map cm_role ms)"
proof (cases "0 < k - r")
  case True
  then show ?thesis
  proof (cases rule: pack_recent_window_cases [of k r ms])
    case (fits turns)
    then show ?thesis using suffix_concat [of turns "pair_up ms"] by (auto intro: map_mono_suffix)
  next
    case (cut t)
    then show ?thesis
      using map_mono_suffix [OF suffix_concat [of "[t]" "pair_up ms"], of cm_role] by simp
  qed
qed (simp add: pack_recent_window_def)

lemma pack_flag:
  assumes "0 < k - r"
  shows "pw_truncated (pack_recent_window ms k r) \<longleftrightarrow> pw_messages (pack_recent_window ms k r) \<noteq> ms"
  using assms
proof (cases rule: pack_recent_window_cases [of k r ms])
  case (fits turns)
  then obtain us where us: "pair_up ms = us @ turns" by (auto simp: suffix_def)
  have "[] \<notin> set (pair_up ms)" by (induction ms rule: pair_up.induct) auto
  with us have "concat us = [] \<longleftrightarrow> us = []" by (cases us) auto
  moreover have "ms = concat us @ concat turns" by (metis concat_append concat_pair_up us)
  ultimately show ?thesis using us fits by auto
next
  case (cut t)
  have "content_chars t \<le> content_chars ms"
    using suffix_concat [OF cut(1)] by (auto simp: suffix_def)
  with cut truncate_turn_bound [of t "k - r"] assms show ?thesis by auto
qed

text \<open>A window of complete pairs stays one: the alternation of roles survives.\<close>

lemma pair_up_alternates:
  "alternates (map cm_role ms) \<Longrightarrow> suffix turns (pair_up ms) \<Longrightarrow>
     alternates (map cm_role (concat turns))"
proof (induction ms rule: pair_up.induct)
  case (1 x y zs)
  then show ?case by (auto simp: suffix_Cons)
qed auto

lemma pack_alternates:
  assumes "alternates (map cm_role ms)"
  shows "alternates (map cm_role (pw_messages (pack_recent_window ms k r)))"
proof (cases "0 < k - r")
  case True
  then show ?thesis
  proof (cases rule: pack_recent_window_cases [of k r ms])
    case (fits turns)
    then show ?thesis using pair_up_alternates [OF assms] by simp
  next
    case (cut t)
    then show ?thesis using pair_up_alternates [OF assms, of "[t]"] by simp
  qed
qed (simp add: pack_recent_window_def)

section \<open>Properties\<close>

text \<open>C3: the packed window never exceeds the character budget left after the reservation; it is the
  input itself, unflagged, when that fits; its roles are a tail of the input's roles, so an alternating
  window stays alternating; and with a positive budget the flag says exactly whether anything was cut.\<close>

theorem packed_window_within_budget:
  fixes ms :: "chat_message list" and k r :: int
  defines "w \<equiv> pack_recent_window ms k r"
  shows "content_chars (pw_messages w) \<le> max 0 (k - r)
    \<and> (0 < k - r \<and> content_chars ms \<le> k - r \<longrightarrow> pw_messages w = ms \<and> \<not> pw_truncated w)
    \<and> suffix (map cm_role (pw_messages w)) (map cm_role ms)
    \<and> (alternates (map cm_role ms) \<longrightarrow> alternates (map cm_role (pw_messages w)))
    \<and> (0 < k - r \<longrightarrow> (pw_truncated w \<longleftrightarrow> pw_messages w \<noteq> ms))"
  using pack_bound [of ms k r] pack_id [of ms k r] pack_roles [of ms k r] pack_alternates [of ms k r]
    pack_flag [of k r ms]
  by (auto simp: w_def)

theorem packed_window_witness:
  "pack_recent_window [\<lparr>cm_role = User, cm_content = ''abcdef''\<rparr>, \<lparr>cm_role = Assistant, cm_content = ''ghij''\<rparr>] 12 2
     = \<lparr>pw_messages = [\<lparr>cm_role = User, cm_content = ''abcdef''\<rparr>, \<lparr>cm_role = Assistant, cm_content = ''ghij''\<rparr>],
        pw_truncated = False\<rparr>"
  using packed_window_within_budget
    [of "[\<lparr>cm_role = User, cm_content = ''abcdef''\<rparr>, \<lparr>cm_role = Assistant, cm_content = ''ghij''\<rparr>]" 12 2]
  by (simp add: packed_window.equality ilen_def content_chars_def)

end
