(* ===== verification/Json_Text.thy ===== *)
theory Json_Text imports Prelude "HOL-Library.List_Lexorder" begin

text \<open>
  JSON text as the code produces and reads it (Python's \<open>json.dumps\<close> with the separators
  \<open>(",", ":")\<close> and \<open>json.loads\<close>). \<open>json_dumps\<close> takes the \<open>ensure_ascii\<close> flag, \<open>json_sort\<close> is
  \<open>sort_keys=True\<close>; the reader is a recursive descent parser with fuel. \<open>loads_dumps\<close> shows that the
  fuel \<open>json_loads\<close> starts with is enough and that reading back what was written gives the value;
  injectivity of the writer follows. A number with a fraction or an exponent keeps its literal
  (\<open>JFloat\<close>); an escape of a code point above 255 is outside the alphabet and rejected.
\<close>

datatype json =
  JNull
| JBool bool
| JInt int
| JFloat string
| JStr string
| JArr "json list"
| JObj "(string \<times> json) list"

section \<open>Writing\<close>

definition hex_char :: "nat \<Rightarrow> char" where
  "hex_char d = (if d < 10 then char_of (48 + d) else char_of (87 + d))"

definition json_escape :: "bool \<Rightarrow> char \<Rightarrow> string" where
  "json_escape ensure_ascii c = (let n = code_point c in
     if n = 34 then [CHR 0x5C, CHR 0x22]
     else if n = 92 then [CHR 0x5C, CHR 0x5C]
     else if n = 10 then [CHR 0x5C, CHR ''n'']
     else if n = 13 then [CHR 0x5C, CHR ''r'']
     else if n = 9 then [CHR 0x5C, CHR ''t'']
     else if n = 8 then [CHR 0x5C, CHR ''b'']
     else if n = 12 then [CHR 0x5C, CHR ''f'']
     else if n < 32 \<or> ensure_ascii \<and> 126 < n
     then [CHR 0x5C, CHR ''u'', CHR ''0'', CHR ''0'', hex_char (n div 16), hex_char (n mod 16)]
     else [c])"

definition json_string :: "bool \<Rightarrow> string \<Rightarrow> string" where
  "json_string ea s = CHR 0x22 # concat (map (json_escape ea) s) @ [CHR 0x22]"

fun json_dumps :: "bool \<Rightarrow> json \<Rightarrow> string" where
  "json_dumps ea JNull = ''null''"
| "json_dumps ea (JBool b) = (if b then ''true'' else ''false'')"
| "json_dumps ea (JInt i) = int_dec i"
| "json_dumps ea (JFloat l) = l"
| "json_dumps ea (JStr s) = json_string ea s"
| "json_dumps ea (JArr xs) = CHR ''['' # py_join '','' (map (json_dumps ea) xs) @ '']''"
| "json_dumps ea (JObj kvs) =
     CHR ''{'' # py_join '','' (map (\<lambda>(k, v). json_string ea k @ '':'' @ json_dumps ea v) kvs) @ ''}''"

fun json_sort :: "json \<Rightarrow> json" where
  "json_sort (JArr xs) = JArr (map json_sort xs)"
| "json_sort (JObj kvs) = JObj (sort_key fst (map (\<lambda>(k, v). (k, json_sort v)) kvs))"
| "json_sort j = j"

section \<open>Reading\<close>

definition json_ws :: "char \<Rightarrow> bool" where
  "json_ws c = (let n = code_point c in n = 32 \<or> n = 9 \<or> n = 10 \<or> n = 13)"

abbreviation skip_ws :: "string \<Rightarrow> string" where
  "skip_ws s \<equiv> dropWhile json_ws s"

definition hex_digit_val :: "char \<Rightarrow> nat option" where
  "hex_digit_val c = (let n = code_point c in
     if 48 \<le> n \<and> n \<le> 57 then Some (n - 48)
     else if 97 \<le> n \<and> n \<le> 102 then Some (n - 87)
     else if 65 \<le> n \<and> n \<le> 70 then Some (n - 55)
     else None)"

definition hex4 :: "char \<Rightarrow> char \<Rightarrow> char \<Rightarrow> char \<Rightarrow> nat option" where
  "hex4 a b c d = (case (hex_digit_val a, hex_digit_val b, hex_digit_val c, hex_digit_val d) of
     (Some i, Some j, Some k, Some l) \<Rightarrow> Some (((i * 16 + j) * 16 + k) * 16 + l)
   | _ \<Rightarrow> None)"

definition simple_escape :: "char \<Rightarrow> char option" where
  "simple_escape c =
     (if c = CHR 0x22 then Some (CHR 0x22) else if c = CHR 0x5C then Some (CHR 0x5C)
      else if c = CHR ''/'' then Some (CHR ''/'') else if c = CHR ''b'' then Some (CHR 0x08)
      else if c = CHR ''f'' then Some (CHR 0x0C) else if c = CHR ''n'' then Some (CHR 0x0A)
      else if c = CHR ''r'' then Some (CHR 0x0D) else if c = CHR ''t'' then Some (CHR 0x09)
      else None)"

text \<open>The characters of a string after its opening quote, and what follows the closing one.\<close>

fun parse_string :: "string \<Rightarrow> (string \<times> string) option" where
  "parse_string [] = None"
| "parse_string (c # cs) =
     (if c = CHR 0x22 then Some ([], cs)
      else if c = CHR 0x5C then
        (case cs of
           [] \<Rightarrow> None
         | e # es \<Rightarrow>
             if e = CHR ''u'' then
               (case es of
                  h1 # h2 # h3 # h4 # rest \<Rightarrow>
                    (case hex4 h1 h2 h3 h4 of
                       None \<Rightarrow> None
                     | Some n \<Rightarrow> if n < 256
                         then map_option (\<lambda>(t, r). (char_of n # t, r)) (parse_string rest) else None)
                | _ \<Rightarrow> None)
             else (case simple_escape e of
                     None \<Rightarrow> None
                   | Some d \<Rightarrow> map_option (\<lambda>(t, r). (d # t, r)) (parse_string es)))
      else if code_point c < 32 then None
      else map_option (\<lambda>(t, r). (c # t, r)) (parse_string cs))"

definition read_digits :: "string \<Rightarrow> string \<times> string" where
  "read_digits s = (takeWhile is_digit s, dropWhile is_digit s)"

definition read_fraction :: "string \<Rightarrow> string \<times> string" where
  "read_fraction s = (case s of
     c # cs \<Rightarrow> (case read_digits cs of
       (ds, r) \<Rightarrow> if c = CHR ''.'' \<and> ds \<noteq> [] then (c # ds, r) else ([], s))
   | [] \<Rightarrow> ([], s))"

definition read_exponent :: "string \<Rightarrow> string \<times> string" where
  "read_exponent s = (case s of
     c # cs \<Rightarrow>
       (let sgn = takeWhile (\<lambda>d. d = CHR ''-'' \<or> d = CHR ''+'') (take 1 cs);
            body = drop (length sgn) cs
        in case read_digits body of
          (ds, r) \<Rightarrow> if (c = CHR ''e'' \<or> c = CHR ''E'') \<and> ds \<noteq> [] then (c # sgn @ ds, r) else ([], s))
   | [] \<Rightarrow> ([], s))"

definition parse_number :: "string \<Rightarrow> (json \<times> string) option" where
  "parse_number s =
     (let neg = (case s of c # _ \<Rightarrow> c = CHR ''-'' | [] \<Rightarrow> False);
          body = (if neg then tl s else s);
          (all_ds, _) = read_digits body;
          ds = (if take 1 all_ds = ''0'' then ''0'' else all_ds);
          rest = drop (length ds) body;
          (frac, rest1) = read_fraction rest;
          (ex, rest2) = read_exponent rest1
      in if ds = [] then None
         else if frac = [] \<and> ex = []
         then Some (JInt (if neg then - int (dec_val ds) else int (dec_val ds)), rest2)
         else Some (JFloat ((if neg then ''-'' else []) @ ds @ frac @ ex), rest2))"

definition parse_word :: "string \<Rightarrow> json \<Rightarrow> string \<Rightarrow> (json \<times> string) option" where
  "parse_word w j s = (if py_startswith s w then Some (j, drop (length w) s) else None)"

definition dict_put :: "'k \<Rightarrow> 'v \<Rightarrow> ('k \<times> 'v) list \<Rightarrow> ('k \<times> 'v) list" where
  "dict_put k v kvs = (if k \<in> fst ` set kvs then map (\<lambda>(l, w). if l = k then (l, v) else (l, w)) kvs
     else kvs @ [(k, v)])"

fun parse_value :: "nat \<Rightarrow> string \<Rightarrow> (json \<times> string) option"
  and parse_elems :: "nat \<Rightarrow> json list \<Rightarrow> string \<Rightarrow> (json list \<times> string) option"
  and parse_members :: "nat \<Rightarrow> (string \<times> json) list \<Rightarrow> string
        \<Rightarrow> ((string \<times> json) list \<times> string) option" where
  "parse_value 0 s = None"
| "parse_value (Suc f) s =
     (case s of
        [] \<Rightarrow> None
      | c # cs \<Rightarrow>
          if c = CHR 0x22 then map_option (\<lambda>(t, r). (JStr t, r)) (parse_string cs)
          else if c = CHR ''['' then
            (let t = skip_ws cs in
             if take 1 t = '']'' then Some (JArr [], tl t)
             else map_option (\<lambda>(xs, r). (JArr xs, r)) (parse_elems f [] t))
          else if c = CHR ''{'' then
            (let t = skip_ws cs in
             if take 1 t = ''}'' then Some (JObj [], tl t)
             else map_option (\<lambda>(kvs, r). (JObj kvs, r)) (parse_members f [] t))
          else if c = CHR ''n'' then parse_word ''null'' JNull s
          else if c = CHR ''t'' then parse_word ''true'' (JBool True) s
          else if c = CHR ''f'' then parse_word ''false'' (JBool False) s
          else if c = CHR ''N'' then parse_word ''NaN'' (JFloat ''NaN'') s
          else if c = CHR ''I'' then parse_word ''Infinity'' (JFloat ''Infinity'') s
          else if py_startswith s ''-Infinity'' then parse_word ''-Infinity'' (JFloat ''-Infinity'') s
          else parse_number s)"
| "parse_elems 0 acc s = None"
| "parse_elems (Suc f) acc s =
     (case parse_value f s of
        None \<Rightarrow> None
      | Some (x, r) \<Rightarrow>
          (case skip_ws r of
             [] \<Rightarrow> None
           | c # cs \<Rightarrow> if c = CHR '']'' then Some (acc @ [x], cs)
                       else if c = CHR '','' then parse_elems f (acc @ [x]) (skip_ws cs)
                       else None))"
| "parse_members 0 acc s = None"
| "parse_members (Suc f) acc s =
     (case s of
        [] \<Rightarrow> None
      | q # qs \<Rightarrow>
          if q \<noteq> CHR 0x22 then None
          else (case parse_string qs of
             None \<Rightarrow> None
           | Some (k, r) \<Rightarrow>
               (case skip_ws r of
                  [] \<Rightarrow> None
                | c # cs \<Rightarrow>
                    if c \<noteq> CHR '':'' then None
                    else (case parse_value f (skip_ws cs) of
                       None \<Rightarrow> None
                     | Some (v, r2) \<Rightarrow>
                         (case skip_ws r2 of
                            [] \<Rightarrow> None
                          | d # ds \<Rightarrow> if d = CHR ''}'' then Some (dict_put k v acc, ds)
                              else if d = CHR '','' then parse_members f (dict_put k v acc) (skip_ws ds)
                              else None)))))"

definition json_loads :: "string \<Rightarrow> json option" where
  "json_loads s = (case parse_value (Suc (length s)) (skip_ws s) of
     Some (v, r) \<Rightarrow> if skip_ws r = [] then Some v else None
   | None \<Rightarrow> None)"

section \<open>Reading back what was written\<close>

text \<open>The values the writer and the reader agree on: no kept number literal, no key twice.\<close>

fun json_plain :: "json \<Rightarrow> bool" where
  "json_plain (JFloat l) = False"
| "json_plain (JArr xs) = list_all json_plain xs"
| "json_plain (JObj kvs) = (distinct (map fst kvs) \<and> list_all (\<lambda>(k, v). json_plain v) kvs)"
| "json_plain j = True"

lemma hex_digit_val_hex_char [simp]: "d < 16 \<Longrightarrow> hex_digit_val (hex_char d) = Some d"
  by (auto simp: hex_digit_val_def hex_char_def code_point_def Let_def)

lemma hex4_byte [simp]:
  "n < 256 \<Longrightarrow> hex4 (CHR ''0'') (CHR ''0'') (hex_char (n div 16)) (hex_char (n mod 16)) = Some n"
proof -
  assume "n < 256"
  moreover have "hex_digit_val (CHR ''0'') = Some 0" by (simp add: hex_digit_val_def code_point_def)
  ultimately show ?thesis by (simp add: hex4_def)
qed

lemma code_point_eq_char: "code_point c = n \<longleftrightarrow> n < 256 \<and> c = char_of n"
  by (auto simp: code_point_def)

lemma char_of_numerals:
  "char_of (34 :: nat) = CHR 0x22" "char_of (92 :: nat) = CHR 0x5C" "char_of (10 :: nat) = CHR 0x0A"
  "char_of (13 :: nat) = CHR 0x0D" "char_of (9 :: nat) = CHR 0x09" "char_of (8 :: nat) = CHR 0x08"
  "char_of (12 :: nat) = CHR 0x0C" "char_of (48 :: nat) = CHR 0x30"
  by code_simp+

lemma parse_string_escape:
  "parse_string (json_escape ea c @ r) = map_option (\<lambda>(t, q). (c # t, q)) (parse_string r)"
proof -
  consider "code_point c = 34" | "code_point c = 92" | "code_point c = 10" | "code_point c = 13"
    | "code_point c = 9" | "code_point c = 8" | "code_point c = 12"
    | (plain) "code_point c \<notin> {34, 92, 10, 13, 9, 8, 12}" by blast
  then show ?thesis
  proof cases
    case plain
    then have "c \<noteq> CHR 0x22" "c \<noteq> CHR 0x5C" by (auto simp: code_point_def)
    moreover have "char_of (code_point c) = c" by (simp add: code_point_def)
    ultimately show ?thesis using plain by (simp add: json_escape_def Let_def)
  qed (simp_all add: json_escape_def simple_escape_def code_point_eq_char char_of_numerals)
qed

lemma parse_string_body:
  "parse_string (concat (map (json_escape ea) s) @ CHR 0x22 # r) = Some (s, r)"
  by (induction s) (simp_all add: parse_string_escape del: parse_string.simps(2), simp)

lemma nat_dec_leading_zero: "take 1 (nat_dec n) = ''0'' \<Longrightarrow> nat_dec n = ''0''"
proof (induction n rule: nat_dec.induct)
  case (1 n)
  show ?case
  proof (cases "n < 10")
    case True
    with "1.prems" show ?thesis by (simp add: nat_dec.simps [of n])
  next
    case False
    then have "take 1 (nat_dec n) = take 1 (nat_dec (n div 10))"
      using nat_dec_head [of "n div 10"] by (auto simp: nat_dec.simps [of n])
    with 1 False have "nat_dec (n div 10) = ''0''" by simp
    also have "''0'' = nat_dec 0" by (simp add: nat_dec.simps [of 0] digit_char_def char_of_numerals)
    finally show ?thesis using False by simp
  qed
qed

definition number_stop :: "string \<Rightarrow> bool" where
  "number_stop r = (r = [] \<or> \<not> is_digit (hd r) \<and> hd r \<noteq> CHR ''.'' \<and> hd r \<noteq> CHR ''e'' \<and> hd r \<noteq> CHR ''E'')"

lemma number_stop_Cons [simp]:
  "number_stop []" "number_stop (CHR '','' # r)" "number_stop (CHR '']'' # r)" "number_stop (CHR ''}'' # r)"
  by (simp_all add: number_stop_def is_digit_def code_point_def)

lemma read_digits_nat_dec: "number_stop r \<Longrightarrow> read_digits (nat_dec n @ r) = (nat_dec n, r)"
proof -
  assume r: "number_stop r"
  have all: "\<forall>c\<in>set (nat_dec n). is_digit c" using nat_dec_digits by blast
  from r have "takeWhile is_digit r = [] \<and> dropWhile is_digit r = r"
    by (cases r) (auto simp: number_stop_def)
  with all show ?thesis by (simp add: read_digits_def takeWhile_append dropWhile_append)
qed

lemma read_stop:
  assumes "number_stop r"
  shows "read_fraction r = ([], r)" "read_exponent r = ([], r)"
  using assms by (cases r; simp add: read_fraction_def read_exponent_def number_stop_def
      Let_def split: prod.splits)+

lemma parse_number_int:
  assumes "number_stop r"
  shows "parse_number (int_dec i @ r) = Some (JInt i, r)"
proof -
  have digit_not_minus: "\<not> is_digit (CHR ''-'')" by (simp add: is_digit_def code_point_def)
  have ds: "(if take 1 (nat_dec n) = ''0'' then ''0'' else nat_dec n) = nat_dec n" for n
    by (metis nat_dec_leading_zero)
  show ?thesis
  proof (cases "i < 0")
    case True
    with assms show ?thesis
      unfolding parse_number_def int_dec_def
      by (simp add: Let_def read_digits_nat_dec ds read_stop
          del: One_nat_def)
  next
    case False
    obtain c cs where c: "nat_dec (nat i) = c # cs" "is_digit c" using nat_dec_head by blast
    with digit_not_minus have "c \<noteq> CHR ''-''" by metis
    then have neg: "(case nat_dec (nat i) @ r of [] \<Rightarrow> False | c # _ \<Rightarrow> c = CHR ''-'') = False"
      using c by simp
    from False assms show ?thesis
      unfolding parse_number_def int_dec_def
      by (simp add: neg Let_def read_digits_nat_dec ds read_stop del: One_nat_def)
  qed
qed

text \<open>No text of a value begins with a blank or a closing bracket, so the reader's look-ahead is safe.\<close>

definition value_head :: "char \<Rightarrow> bool" where
  "value_head c = (\<not> json_ws c \<and> c \<noteq> CHR '']'' \<and> c \<noteq> CHR ''}'')"

lemma digit_value_head: "is_digit c \<Longrightarrow> value_head c"
  by (auto simp: value_head_def json_ws_def is_digit_def code_point_def Let_def)

lemma int_dec_head: "\<exists>c cs. int_dec i = c # cs \<and> (is_digit c \<or> c = CHR ''-'')"
  using nat_dec_head [of "nat i"] nat_dec_head [of "nat (- i)"] by (auto simp: int_dec_def)

lemma value_head_simps [simp]:
  "value_head (CHR 0x22)" "value_head (CHR ''['')" "value_head (CHR ''{'')" "value_head (CHR ''-'')"
  "value_head (CHR ''n'')" "value_head (CHR ''t'')" "value_head (CHR ''f'')"
  by (simp_all add: value_head_def json_ws_def code_point_def Let_def)

lemma json_dumps_head:
  "json_plain v \<Longrightarrow> \<exists>c cs. json_dumps ea v = c # cs \<and> value_head c"
  using int_dec_head digit_value_head
  by (cases v) (auto simp: json_string_def, (metis value_head_simps(4))+)

lemma skip_ws_dumps [simp]:
  "json_plain v \<Longrightarrow> skip_ws (json_dumps ea v @ r) = json_dumps ea v @ r"
  using json_dumps_head [of v ea] by (auto simp: value_head_def)

lemma json_punct [simp]:
  "\<not> json_ws (CHR '','')" "\<not> json_ws (CHR '']'')" "\<not> json_ws (CHR ''}'')" "\<not> json_ws (CHR '':'')"
  "\<not> json_ws (CHR 0x22)"
  by (simp_all add: json_ws_def code_point_def Let_def)

lemma parse_value_int:
  assumes "number_stop r"
  shows "parse_value (Suc f) (int_dec i @ r) = Some (JInt i, r)"
proof -
  obtain c cs where c: "int_dec i = c # cs" "is_digit c \<or> c = CHR ''-''"
    using int_dec_head by blast
  have "c \<noteq> CHR 0x22 \<and> c \<noteq> CHR ''['' \<and> c \<noteq> CHR ''{'' \<and> c \<noteq> CHR ''n'' \<and> c \<noteq> CHR ''t'' \<and> c \<noteq> CHR ''f''
      \<and> c \<noteq> CHR ''N'' \<and> c \<noteq> CHR ''I''"
    using c(2) by (auto simp: is_digit_def code_point_def)
  moreover have "\<not> py_startswith (int_dec i @ r) ''-Infinity''"
  proof (cases "i < 0")
    case True
    obtain d ds where "nat_dec (nat (- i)) = d # ds" "is_digit d" using nat_dec_head by blast
    with True show ?thesis
      by (auto simp: py_startswith_def int_dec_def is_digit_def code_point_def)
  next
    case False
    obtain d ds where "nat_dec (nat i) = d # ds" "is_digit d" using nat_dec_head by blast
    with False show ?thesis
      by (auto simp: py_startswith_def int_dec_def is_digit_def code_point_def)
  qed
  ultimately show ?thesis
    using parse_number_int [OF assms, of i] c(1) by simp
qed

text \<open>Elements and members, given that each value is read back.\<close>

lemma parse_elems_dumps:
  assumes "\<And>v f r. v \<in> set xs \<Longrightarrow> length (json_dumps ea v) \<le> f \<Longrightarrow> number_stop r \<Longrightarrow>
      parse_value f (json_dumps ea v @ r) = Some (v, r)"
    and "list_all json_plain xs" "xs \<noteq> []"
    and "length (py_join '','' (map (json_dumps ea) xs)) < f"
  shows "parse_elems f acc (py_join '','' (map (json_dumps ea) xs) @ CHR '']'' # r) = Some (acc @ xs, r)"
  using assms
proof (induction xs arbitrary: f acc)
  case (Cons v vs)
  then obtain g where f: "f = Suc g" by (cases f) auto
  show ?case
  proof (cases vs)
    case Nil
    with Cons.prems f show ?thesis by simp
  next
    case (Cons w ws)
    let ?rest = "py_join '','' (map (json_dumps ea) vs)"
    have len: "length (json_dumps ea v) \<le> g" "length ?rest < g"
      using Cons.prems(4) f Cons by (auto simp: py_join_Cons)
    have first: "parse_value g (json_dumps ea v @ CHR '','' # ?rest @ CHR '']'' # r)
        = Some (v, CHR '','' # ?rest @ CHR '']'' # r)"
      by (intro Cons.prems(1)) (simp_all add: len)
    have "json_plain w" using Cons.prems(2) Cons by simp
    from json_dumps_head [OF this, of ea] obtain c cs where "json_dumps ea w = c # cs" "value_head c"
      by blast
    then have ws: "skip_ws (?rest @ CHR '']'' # r) = ?rest @ CHR '']'' # r"
      using Cons by (auto simp: py_join_Cons value_head_def)
    have "parse_elems g (acc @ [v]) (?rest @ CHR '']'' # r) = Some ((acc @ [v]) @ vs, r)"
      using Cons.prems Cons len(2) by (intro Cons.IH) auto
    then show ?thesis using f first ws Cons by (simp add: py_join_Cons)
  qed
qed simp

lemma dict_put_fresh: "k \<notin> fst ` set kvs \<Longrightarrow> dict_put k v kvs = kvs @ [(k, v)]"
  by (simp add: dict_put_def)

abbreviation member_text :: "bool \<Rightarrow> string \<times> json \<Rightarrow> string" where
  "member_text ea \<equiv> \<lambda>(k, v). json_string ea k @ '':'' @ json_dumps ea v"

lemma parse_members_dumps:
  assumes "\<And>k v f r. (k, v) \<in> set kvs \<Longrightarrow> length (json_dumps ea v) \<le> f \<Longrightarrow> number_stop r \<Longrightarrow>
      parse_value f (json_dumps ea v @ r) = Some (v, r)"
    and "list_all (\<lambda>(k, v). json_plain v) kvs" "kvs \<noteq> []"
    and "distinct (map fst (acc @ kvs))"
    and "length (py_join '','' (map (member_text ea) kvs)) < f"
  shows "parse_members f acc (py_join '','' (map (member_text ea) kvs) @ CHR ''}'' # r)
      = Some (acc @ kvs, r)"
  using assms
proof (induction kvs arbitrary: f acc)
  case (Cons kv kvs)
  obtain k v where kv: "kv = (k, v)" by (cases kv)
  from Cons.prems obtain g where f: "f = Suc g" by (cases f) auto
  have str: "parse_string (concat (map (json_escape ea) k) @ CHR 0x22 # s) = Some (k, s)" for s
    by (rule parse_string_body)
  have plain: "json_plain v" using Cons.prems(2) kv by simp
  have put: "dict_put k v acc = acc @ [(k, v)]"
    using Cons.prems(4) kv by (intro dict_put_fresh) auto
  show ?case
  proof (cases kvs)
    case Nil
    have "length (json_dumps ea v) \<le> g" using Cons.prems(5) f Nil kv by simp
    then have "parse_value g (json_dumps ea v @ CHR ''}'' # r) = Some (v, CHR ''}'' # r)"
      by (intro Cons.prems(1) [of k]) (simp_all add: kv)
    then show ?thesis using f Nil kv put plain by (simp add: json_string_def str)
  next
    case (Cons w ws)
    let ?rest = "py_join '','' (map (member_text ea) kvs)"
    have len: "length (json_dumps ea v) \<le> g" "length ?rest < g"
      using Cons.prems(5) f Cons kv by (auto simp: py_join_Cons)
    have first: "parse_value g (json_dumps ea v @ CHR '','' # ?rest @ CHR ''}'' # r)
        = Some (v, CHR '','' # ?rest @ CHR ''}'' # r)"
      by (intro Cons.prems(1) [of k]) (simp_all add: kv len)
    have ws: "skip_ws (?rest @ CHR ''}'' # r) = ?rest @ CHR ''}'' # r"
      using Cons by (cases w) (auto simp: py_join_Cons json_string_def)
    have "parse_members g (acc @ [(k, v)]) (?rest @ CHR ''}'' # r) = Some ((acc @ [(k, v)]) @ kvs, r)"
      using Cons.prems Cons len(2) kv by (intro Cons.IH) auto
    then show ?thesis using f first ws Cons kv put plain by (simp add: py_join_Cons json_string_def str)
  qed
qed simp

lemma parse_value_dumps:
  "json_plain v \<Longrightarrow> length (json_dumps ea v) \<le> f \<Longrightarrow> number_stop r \<Longrightarrow>
    parse_value f (json_dumps ea v @ r) = Some (v, r)"
proof (induction v arbitrary: f r)
  case (JInt i)
  then show ?case using parse_value_int [of r] int_dec_head [of i] by (cases f) auto
next
  case (JStr s)
  then show ?case using parse_string_body by (cases f) (auto simp: json_string_def)
next
  case (JArr xs)
  then obtain g where f: "f = Suc g" by (cases f) auto
  show ?case
  proof (cases xs)
    case (Cons w ws)
    have "json_plain w" using JArr.prems(1) Cons by simp
    from json_dumps_head [OF this, of ea] obtain c cs where c: "json_dumps ea w = c # cs" "value_head c"
      by blast
    have "parse_elems g [] (py_join '','' (map (json_dumps ea) xs) @ CHR '']'' # r) = Some ([] @ xs, r)"
      using JArr f Cons by (intro parse_elems_dumps) (auto simp: list_all_iff)
    with f c Cons show ?thesis by (auto simp: py_join_Cons value_head_def)
  qed (use f in simp)
next
  case (JObj kvs)
  then obtain g where f: "f = Suc g" by (cases f) auto
  show ?case
  proof (cases kvs)
    case (Cons w ws)
    have "parse_members g [] (py_join '','' (map (member_text ea) kvs) @ CHR ''}'' # r) = Some ([] @ kvs, r)"
    proof (rule parse_members_dumps)
      fix k v h q assume kv: "(k, v) \<in> set kvs"
        and "length (json_dumps ea v) \<le> h" "number_stop q"
      moreover have "json_plain v" using JObj.prems(1) kv by (auto simp: list_all_iff)
      ultimately show "parse_value h (json_dumps ea v @ q) = Some (v, q)"
        using JObj.IH [of "(k, v)" v] by simp
    qed (use JObj.prems f Cons in auto)
    with f Cons show ?thesis by (auto simp: py_join_Cons json_string_def split: prod.splits)
  qed (use f in simp)
qed (auto simp: parse_word_def py_startswith_def split: nat.splits dest!: Suc_le_D)

lemma loads_dumps: "json_plain v \<Longrightarrow> json_loads (json_dumps ea v) = Some v"
  using parse_value_dumps [of v ea "Suc (length (json_dumps ea v))" "[]"] skip_ws_dumps [of v ea "[]"]
  by (simp add: json_loads_def)

interpretation json_codec: codec json_plain "json_dumps ea" json_loads for ea
  by unfold_locales (rule loads_dumps)

text \<open>The text has no line break and no other control character.\<close>

lemma hex_char_clean: "n < 16 \<Longrightarrow> 32 \<le> code_point (hex_char n)"
  by (auto simp: hex_char_def code_point_def)

lemma json_escape_clean: "c \<in> set (json_escape ea d) \<Longrightarrow> 32 \<le> code_point c"
proof -
  have "code_point d div 16 < 16" using code_point_less [of d] by (intro less_mult_imp_div_less) simp
  then have hex: "32 \<le> code_point (hex_char (code_point d div 16))" "32 \<le> code_point (hex_char (code_point d mod 16))"
    by (simp_all add: hex_char_clean)
  have lits: "32 \<le> code_point (CHR 0x5C)" "32 \<le> code_point (CHR 0x22)" "32 \<le> code_point (CHR ''n'')"
    "32 \<le> code_point (CHR ''r'')" "32 \<le> code_point (CHR ''t'')" "32 \<le> code_point (CHR ''b'')"
    "32 \<le> code_point (CHR ''f'')" "32 \<le> code_point (CHR ''u'')" "32 \<le> code_point (CHR ''0'')"
    by (simp_all add: code_point_def)
  show "c \<in> set (json_escape ea d) \<Longrightarrow> 32 \<le> code_point c"
    using hex lits by (auto simp: json_escape_def Let_def not_less split: if_splits)
qed

lemma json_string_clean: "c \<in> set (json_string ea s) \<Longrightarrow> 32 \<le> code_point c"
  by (auto simp: json_string_def code_point_def dest: json_escape_clean [unfolded code_point_def])

lemma set_py_join: "set (py_join sep ps) \<subseteq> set sep \<union> \<Union> (set ` set ps)"
  by (induction ps) (auto simp: py_join_Cons)

lemma int_dec_clean: "c \<in> set (int_dec i) \<Longrightarrow> 32 \<le> code_point c"
  by (auto simp: int_dec_def is_digit_def code_point_def dest!: nat_dec_digits split: if_splits)

lemma json_dumps_clean: "json_plain v \<Longrightarrow> c \<in> set (json_dumps ea v) \<Longrightarrow> 32 \<le> code_point c"
proof (induction v arbitrary: c)
  case (JStr s)
  then show ?case by (auto dest: json_string_clean)
next
  case (JInt i)
  then show ?case by (auto dest: int_dec_clean)
next
  case (JArr xs)
  then show ?case using set_py_join [of "'',''" "map (json_dumps ea) xs"]
    by (fastforce simp: list_all_iff code_point_def)
next
  case (JObj kvs)
  have "32 \<le> code_point d" if "(k, v) \<in> set kvs" "d \<in> set (json_string ea k @ '':'' @ json_dumps ea v)" for d k v
    using that JObj by (auto simp: list_all_iff code_point_def dest: json_string_clean [unfolded code_point_def] split: prod.splits)
  then show ?case
    using JObj.prems set_py_join [of "'',''" "map (\<lambda>(k, v). json_string ea k @ '':'' @ json_dumps ea v) kvs"]
    by (fastforce simp: code_point_def)
qed (auto simp: code_point_def split: if_splits)

section \<open>Sorting keys keeps an object's members\<close>

lemma map_of_sort_key:
  fixes kvs :: "(string \<times> 'b) list"
  assumes "distinct (map fst kvs)"
  shows "map_of (sort_key fst kvs) = map_of kvs"
proof -
  have "distinct (map fst (sort_key fst kvs))"
    using assms by (auto simp: distinct_map)
  then show ?thesis using assms map_of_inject_set [of "sort_key fst kvs" kvs] by simp
qed

fun members_of :: "json \<Rightarrow> string \<Rightarrow> json option" where
  "members_of (JObj kvs) = map_of kvs"
| "members_of _ = (\<lambda>_. None)"

lemma map_fst_map_members: "map fst (map (\<lambda>(k, v). (k, f v)) kvs) = map fst kvs"
  by (simp add: comp_def case_prod_beta')

lemma distinct_sort_members:
  fixes kvs :: "(string \<times> 'b) list"
  assumes "distinct (map fst kvs)"
  shows "distinct (map fst (sort_key fst kvs))"
  using assms by (auto simp: distinct_map)

lemma map_of_json_sort:
  assumes "distinct (map fst kvs)"
  shows "members_of (json_sort (JObj kvs)) k = map_option json_sort (map_of kvs k)"
proof -
  have "distinct (map fst (map (\<lambda>(k, v). (k, json_sort v)) kvs))"
    using assms by (simp only: map_fst_map_members)
  then show ?thesis by (simp only: json_sort.simps members_of.simps map_of_sort_key map_of_map comp_def)
qed

lemma json_plain_sort: "json_plain j \<Longrightarrow> json_plain (json_sort j)"
proof (induction j rule: json_sort.induct)
  case (2 kvs)
  have "distinct (map fst (map (\<lambda>(k, v). (k, json_sort v)) kvs))"
    using 2(2) by (simp only: map_fst_map_members json_plain.simps)
  then have "distinct (map fst (sort_key fst (map (\<lambda>(k, v). (k, json_sort v)) kvs)))"
    by (rule distinct_sort_members)
  with 2 show ?case by (fastforce simp: list_all_iff)
qed (auto simp: list_all_iff)

lemma json_sort_eqD:
  assumes "json_sort (JObj kvs) = json_sort (JObj lws)" "distinct (map fst kvs)" "distinct (map fst lws)"
    and "map_of kvs k = Some v" "map_of lws k = Some w"
  shows "json_sort v = json_sort w"
  using map_of_json_sort [OF assms(2), of k] map_of_json_sort [OF assms(3), of k] assms(1,4,5) by simp

end
