(* ===== verification/Uuid_Text.thy ===== *)
theory Uuid_Text imports Json_Text begin

text \<open>
  Identifiers as text: \<open>str(uuid)\<close>, \<open>uuid.UUID(text)\<close> with everything that constructor accepts
  (\<open>urn:\<close> and \<open>uuid:\<close> prefixes, braces, missing hyphens, what \<open>int(_, 16)\<close> reads), and the two
  places of \<open>app/http/request_context.py\<close> that meet client text: \<open>validate_correlation_id\<close> and
  \<open>request_uuid\<close>. An identifier is its 128-bit number.
\<close>

section \<open>Canonical text\<close>

fun hex_pad :: "nat \<Rightarrow> nat \<Rightarrow> string" where
  "hex_pad 0 n = []"
| "hex_pad (Suc k) n = hex_pad k (n div 16) @ [hex_char (n mod 16)]"

definition uuid_str :: "nat \<Rightarrow> string" where
  "uuid_str n = (let h = hex_pad 32 n in
     take 8 h @ ''-'' @ take 4 (drop 8 h) @ ''-'' @ take 4 (drop 12 h) @ ''-''
       @ take 4 (drop 16 h) @ ''-'' @ drop 20 h)"

definition uuid_valid :: "nat \<Rightarrow> bool" where
  "uuid_valid n = (n < 2 ^ 128)"

section \<open>Reading\<close>

definition int_space :: "char \<Rightarrow> bool" where
  "int_space c = (let n = code_point c in 9 \<le> n \<and> n \<le> 13 \<or> n = 32 \<or> n = 133 \<or> n = 160)"

fun hex_run :: "bool \<Rightarrow> nat \<Rightarrow> string \<Rightarrow> nat option" where
  "hex_run after_digit acc [] = (if after_digit then Some acc else None)"
| "hex_run after_digit acc (c # cs) =
     (if c = CHR ''_'' then (if after_digit then hex_run False acc cs else None)
      else (case hex_digit_val c of
              None \<Rightarrow> None
            | Some d \<Rightarrow> hex_run True (16 * acc + d) cs))"

definition hex_body :: "string \<Rightarrow> nat option" where
  "hex_body s =
     (if take 2 s = ''0x'' \<or> take 2 s = ''0X''
      then hex_run False 0 (if take 1 (drop 2 s) = ''_'' then drop 3 s else drop 2 s)
      else hex_run False 0 s)"

definition py_int16 :: "string \<Rightarrow> int option" where
  "py_int16 s =
     (let t = rev (dropWhile int_space (rev (dropWhile int_space s))) in
      if take 1 t = ''-'' then map_option (\<lambda>n. - int n) (hex_body (tl t))
      else if take 1 t = ''+'' then map_option int (hex_body (tl t))
      else map_option int (hex_body t))"

text \<open>\<open>int(s)\<close> in base ten.\<close>

fun dec_run :: "bool \<Rightarrow> nat \<Rightarrow> string \<Rightarrow> nat option" where
  "dec_run after_digit acc [] = (if after_digit then Some acc else None)"
| "dec_run after_digit acc (c # cs) =
     (if c = CHR ''_'' then (if after_digit then dec_run False acc cs else None)
      else if is_digit c then dec_run True (10 * acc + digit_val c) cs else None)"

definition py_int10 :: "string \<Rightarrow> int option" where
  "py_int10 s =
     (let t = rev (dropWhile int_space (rev (dropWhile int_space s))) in
      if take 1 t = ''-'' then map_option (\<lambda>n. - int n) (dec_run False 0 (tl t))
      else if take 1 t = ''+'' then map_option int (dec_run False 0 (tl t))
      else map_option int (dec_run False 0 t))"

text \<open>\<open>s.replace(sub, '')\<close> for a non-empty \<open>sub\<close>; the first argument bounds the passes.\<close>

fun remove_sub :: "nat \<Rightarrow> string \<Rightarrow> string \<Rightarrow> string" where
  "remove_sub 0 sub s = s"
| "remove_sub (Suc f) sub [] = []"
| "remove_sub (Suc f) sub (c # cs) =
     (if py_startswith (c # cs) sub then remove_sub f sub (drop (length sub) (c # cs))
      else c # remove_sub f sub cs)"

definition strip_braces :: "string \<Rightarrow> string" where
  "strip_braces s = (let brace = (\<lambda>c. c = CHR ''{'' \<or> c = CHR ''}'') in
     rev (dropWhile brace (rev (dropWhile brace s))))"

definition uuid_parse :: "string \<Rightarrow> nat option" where
  "uuid_parse text =
     (let a = remove_sub (length text) ''urn:'' text;
          b = remove_sub (length a) ''uuid:'' a;
          h = remove_char (CHR ''-'') (strip_braces b)
      in if length h \<noteq> 32 then None
         else (case py_int16 h of
                 None \<Rightarrow> None
               | Some i \<Rightarrow> if 0 \<le> i \<and> i < 2 ^ 128 then Some (nat i) else None))"

lemma uuid_parse_valid: "uuid_parse s = Some n \<Longrightarrow> uuid_valid n"
  by (auto simp: uuid_parse_def uuid_valid_def Let_def split: if_splits option.splits)

section \<open>Round trip\<close>

definition lower_hex :: "char \<Rightarrow> bool" where
  "lower_hex c = (c \<in> hex_char ` {..<16})"

lemma length_hex_pad [simp]: "length (hex_pad k n) = k"
  by (induction k arbitrary: n) simp_all

lemma hex_pad_lower: "c \<in> set (hex_pad k n) \<Longrightarrow> lower_hex c"
  by (induction k arbitrary: n) (auto simp: lower_hex_def)

lemma hex_run_append:
  "\<forall>c\<in>set s. hex_digit_val c \<noteq> None \<and> c \<noteq> CHR ''_'' \<Longrightarrow> s \<noteq> [] \<Longrightarrow>
    hex_run b acc (s @ t) = hex_run True (foldl (\<lambda>n c. 16 * n + the (hex_digit_val c)) acc s) t"
proof (induction s arbitrary: b acc)
  case (Cons c s)
  then show ?case by (cases "s = []") auto
qed simp

lemma hex_val_pad:
  "foldl (\<lambda>n c. 16 * n + the (hex_digit_val c)) acc (hex_pad k n) = acc * 16 ^ k + n mod 16 ^ k"
proof (induction k arbitrary: n)
  case (Suc k)
  have "n mod 16 ^ Suc k = 16 * (n div 16 mod 16 ^ k) + n mod 16"
    by (simp add: mod_mult2_eq)
  with Suc show ?case by (simp add: algebra_simps)
qed simp

lemma hex_char_not:
  "d < 16 \<Longrightarrow> hex_char d \<noteq> CHR ''-''" "d < 16 \<Longrightarrow> hex_char d \<noteq> CHR ''_''"
  "d < 16 \<Longrightarrow> hex_char d \<noteq> CHR ''u''" "d < 16 \<Longrightarrow> hex_char d \<noteq> CHR ''{''"
  "d < 16 \<Longrightarrow> hex_char d \<noteq> CHR ''}''" "d < 16 \<Longrightarrow> hex_char d \<noteq> CHR ''x''"
  "d < 16 \<Longrightarrow> hex_char d \<noteq> CHR ''X''" "d < 16 \<Longrightarrow> hex_char d \<noteq> CHR ''+''"
  "d < 16 \<Longrightarrow> \<not> int_space (hex_char d)"
proof -
  assume "d < 16"
  then have "code_point (hex_char d) = (if d < 10 then 48 + d else 87 + d)"
    by (simp add: hex_char_def code_point_def)
  moreover from \<open>d < 16\<close> have "code_point (hex_char d) \<in> {48..57} \<union> {97..102}"
    using calculation by auto
  ultimately show "hex_char d \<noteq> CHR ''-''" "hex_char d \<noteq> CHR ''_''" "hex_char d \<noteq> CHR ''u''"
    "hex_char d \<noteq> CHR ''{''" "hex_char d \<noteq> CHR ''}''" "hex_char d \<noteq> CHR ''x''"
    "hex_char d \<noteq> CHR ''X''" "hex_char d \<noteq> CHR ''+''" "\<not> int_space (hex_char d)"
    by (auto simp: code_point_def int_space_def Let_def)
qed

lemma lower_hex_not:
  "lower_hex c \<Longrightarrow> c \<noteq> CHR ''-'' \<and> c \<noteq> CHR ''_'' \<and> c \<noteq> CHR ''u'' \<and> c \<noteq> CHR ''{'' \<and> c \<noteq> CHR ''}''
    \<and> c \<noteq> CHR ''x'' \<and> c \<noteq> CHR ''X'' \<and> c \<noteq> CHR ''+'' \<and> \<not> int_space c \<and> hex_digit_val c \<noteq> None"
  by (auto simp: lower_hex_def hex_char_not)

lemma remove_sub_absent: "a \<notin> set s \<Longrightarrow> remove_sub f (a # sub) s = s"
proof (induction f arbitrary: s)
  case (Suc f)
  then show ?case by (cases s) (auto simp: py_startswith_def)
qed simp

lemma dropWhile_none: "s = [] \<or> \<not> p (hd s) \<Longrightarrow> dropWhile p s = s"
  by (cases s) auto

lemma py_int16_pad:
  assumes "0 < k" shows "py_int16 (hex_pad k n) = Some (int (n mod 16 ^ k))"
proof -
  have all: "\<forall>c\<in>set (hex_pad k n). lower_hex c" using hex_pad_lower by blast
  have ne: "hex_pad k n \<noteq> []" using assms by (metis length_hex_pad list.size(3) less_numeral_extra(3))
  then have hd: "lower_hex (hd (hex_pad k n))" and la: "lower_hex (last (hex_pad k n))"
    using all by auto
  have strip: "rev (dropWhile int_space (rev (dropWhile int_space (hex_pad k n)))) = hex_pad k n"
    using hd la ne lower_hex_not by (simp add: dropWhile_none hd_rev)
  have sign: "take 1 (hex_pad k n) \<noteq> ''-'' \<and> take 1 (hex_pad k n) \<noteq> ''+''"
    using hd ne lower_hex_not [of "hd (hex_pad k n)"] by (cases "hex_pad k n") auto
  have pre: "take 2 (hex_pad k n) \<noteq> ''0x'' \<and> take 2 (hex_pad k n) \<noteq> ''0X''"
    using all lower_hex_not by (metis in_set_takeD list.set_intros(1,2))
  have "hex_run False 0 (hex_pad k n @ []) = Some (n mod 16 ^ k)"
    using all ne lower_hex_not by (subst hex_run_append) (auto simp: hex_val_pad)
  then show ?thesis using strip sign pre by (simp add: py_int16_def hex_body_def Let_def)
qed

lemma uuid_str_chars: "c \<in> set (uuid_str n) \<Longrightarrow> lower_hex c \<or> c = CHR ''-''"
  using hex_pad_lower by (fastforce simp: uuid_str_def Let_def dest: in_set_takeD in_set_dropD)

lemma length_uuid_str [simp]: "length (uuid_str n) = 36"
  by (simp add: uuid_str_def Let_def)

lemma uuid_str_not_Nil [simp]: "uuid_str n \<noteq> []"
  by (metis length_uuid_str list.size(3) zero_neq_numeral)

lemma uuid_pieces:
  "take 8 h @ take 4 (drop 8 h) @ take 4 (drop 12 h) @ take 4 (drop 16 h) @ drop 20 h = (h :: string)"
proof -
  have step: "take 4 (drop a h) @ drop (4 + a) h = drop a h" for a
    using append_take_drop_id [of 4 "drop a h"] by simp
  from step [of 16] step [of 12] step [of 8] show ?thesis by simp
qed

lemma remove_char_uuid_str: "remove_char (CHR ''-'') (uuid_str n) = hex_pad 32 n"
proof -
  define h where "h = hex_pad 32 n"
  have h: "\<forall>c\<in>set h. c \<noteq> CHR ''-''" using hex_pad_lower lower_hex_not by (simp add: h_def)
  have keep: "filter (\<lambda>c. c \<noteq> CHR ''-'') s = s" if "set s \<subseteq> set h" for s
    using that h by (simp add: filter_id_conv subset_iff)
  have sub: "set (take a h) \<subseteq> set h" "set (drop a h) \<subseteq> set h" "set (take a (drop b h)) \<subseteq> set h"
    for a b by (auto dest: in_set_takeD in_set_dropD)
  have hyphen: "filter (\<lambda>c. c \<noteq> CHR ''-'') ''-'' = []" by simp
  show ?thesis
    unfolding uuid_str_def remove_char_def h_def [symmetric] Let_def filter_append hyphen
    by (simp only: keep [OF sub(1)] keep [OF sub(2)] keep [OF sub(3)] append_Nil uuid_pieces)
qed

lemma uuid_parse_str: "uuid_valid n \<Longrightarrow> uuid_parse (uuid_str n) = Some n"
proof -
  assume n: "uuid_valid n"
  have "CHR ''u'' \<notin> set (uuid_str n)" using uuid_str_chars lower_hex_not by blast
  then have pre: "remove_sub f ''urn:'' (uuid_str n) = uuid_str n"
    "remove_sub f ''uuid:'' (uuid_str n) = uuid_str n" for f
    by (simp_all add: remove_sub_absent)
  have ends: "hd (uuid_str n) \<in> set (uuid_str n)" "last (uuid_str n) \<in> set (uuid_str n)" by simp_all
  have "strip_braces (uuid_str n) = uuid_str n"
    using uuid_str_chars [OF ends(1)] uuid_str_chars [OF ends(2)] lower_hex_not
    by (auto simp: strip_braces_def Let_def dropWhile_none hd_rev)
  with n pre show ?thesis
    by (simp add: uuid_parse_def Let_def remove_char_uuid_str py_int16_pad uuid_valid_def)
qed

interpretation uuid_codec: codec uuid_valid uuid_str uuid_parse
  by unfold_locales (rule uuid_parse_str)

section \<open>Client text\<close>

definition validate_correlation_id :: "string option \<Rightarrow> string option" where
  "validate_correlation_id raw = (case raw of
     None \<Rightarrow> None
   | Some r \<Rightarrow>
       (let candidate = py_strip r in
        if candidate = [] \<or> length candidate > 36 then None
        else map_option uuid_str (uuid_parse candidate)))"

text \<open>\<open>fresh\<close> is what \<open>uuid.uuid4()\<close> would answer.\<close>

definition request_uuid :: "string option \<Rightarrow> nat \<Rightarrow> nat" where
  "request_uuid rid fresh = (case rid of
     None \<Rightarrow> fresh
   | Some r \<Rightarrow> if r = [] then fresh
       else (case uuid_parse r of Some u \<Rightarrow> u | None \<Rightarrow> fresh))"

lemma validate_correlation_idD:
  "validate_correlation_id raw = Some t \<Longrightarrow> \<exists>n. uuid_valid n \<and> t = uuid_str n"
  by (auto simp: validate_correlation_id_def Let_def dest: uuid_parse_valid split: option.splits if_splits)

lemma uuid_str_strip [simp]: "py_strip (uuid_str n) = uuid_str n"
proof -
  have "\<not> py_space c" if "lower_hex c \<or> c = CHR ''-''" for c
    using that by (auto simp: lower_hex_def py_space_def Let_def hex_char_def code_point_def split: if_splits)
  then show ?thesis
    using uuid_str_chars [of "hd (uuid_str n)"] uuid_str_chars [of "last (uuid_str n)"]
    by (intro py_strip_id) (metis uuid_str_not_Nil hd_in_set last_in_set)
qed

lemma validate_canonical: "uuid_valid n \<Longrightarrow> validate_correlation_id (Some (uuid_str n)) = Some (uuid_str n)"
  by (simp add: validate_correlation_id_def Let_def uuid_parse_str)

lemma request_uuid_valid: "uuid_valid fresh \<Longrightarrow> uuid_valid (request_uuid rid fresh)"
  by (auto simp: request_uuid_def uuid_parse_valid split: option.splits)

section \<open>Properties\<close>

text \<open>The telemetry correlation id is the canonical text of a 128-bit identifier or absent, never the
  client's own spelling; a canonical text is passed on unchanged; a text longer than 36 characters once
  stripped is dropped whole; and every identifier is read back from its canonical text.\<close>

theorem correlation_id_is_canonical:
  shows "(\<forall>t. validate_correlation_id raw = Some t \<longrightarrow>
            (\<exists>n. uuid_valid n \<and> t = uuid_str n \<and> raw \<noteq> None \<and> uuid_parse (py_strip (the raw)) = Some n))
    \<and> (\<forall>n. uuid_valid n \<longrightarrow> validate_correlation_id (Some (uuid_str n)) = Some (uuid_str n)
            \<and> uuid_parse (uuid_str n) = Some n \<and> length (uuid_str n) = 36)
    \<and> (\<forall>t. length (py_strip t) > 36 \<longrightarrow> validate_correlation_id (Some t) = None)"
  using validate_canonical uuid_codec.dec_enc
  by (auto simp: validate_correlation_id_def Let_def dest: uuid_parse_valid split: option.splits if_splits)

theorem correlation_id_witness:
  "validate_correlation_id (Some (uuid_str 1)) = Some (uuid_str 1) \<and> validate_correlation_id (Some (replicate 40 (CHR ''a''))) = None"
proof -
  have "uuid_valid 1" by (simp add: uuid_valid_def)
  moreover have "length (py_strip (replicate 40 (CHR ''a''))) > 36" by code_simp
  ultimately show ?thesis using correlation_id_is_canonical [of None] by blast
qed

end
