(* ===== verification/Http_Context.thy ===== *)
theory Http_Context imports Uuid_Text Domain_Types "HOL-Library.AList" begin

text \<open>
  The HTTP edge of the service (\<open>app/http\<close>): the tenant a request runs under
  (\<open>middleware/tenant.py\<close>), the staging guard, the request and telemetry identities of
  \<open>RequestContextMiddleware\<close>, the payload limit and the per-request metrics collector.
  A context variable is an option that the middleware sets and restores. Base64 and UTF-8
  decoding, which the model's alphabet cannot express, are parameters.
\<close>

section \<open>Requests\<close>

record http_request =
  rq_scope :: string
  rq_method :: string
  rq_path :: string
  rq_headers :: "(string \<times> string) list"
  rq_body :: string

text \<open>\<open>request.headers.get(name)\<close>: names compare without case, the first occurrence answers.\<close>

definition header_get :: "(string \<times> string) list \<Rightarrow> string \<Rightarrow> string option" where
  "header_get hs name = map_of (map (\<lambda>(k, v). (py_lower k, v)) hs) (py_lower name)"

section \<open>Tenants\<close>

definition tenant_char :: "char \<Rightarrow> bool" where
  "tenant_char c = (let n = code_point c in
     97 \<le> n \<and> n \<le> 122 \<or> 65 \<le> n \<and> n \<le> 90 \<or> 48 \<le> n \<and> n \<le> 57 \<or> n = 95 \<or> n = 45)"

text \<open>\<open>^[a-zA-Z0-9_-]{1,64}$\<close>; the dollar also matches before one final newline.\<close>

definition tenant_id_pattern :: "string \<Rightarrow> bool" where
  "tenant_id_pattern s =
     (let t = (if s \<noteq> [] \<and> last s = CHR 0x0A then butlast s else s)
      in t \<noteq> [] \<and> length t \<le> 64 \<and> list_all tenant_char t)"

definition default_tenant :: string where
  "default_tenant = ''default''"

definition validate_tenant :: "json \<Rightarrow> string" where
  "validate_tenant v = (case v of
     JStr s \<Rightarrow> (let stripped = py_strip s in
       if stripped \<noteq> [] \<and> tenant_id_pattern stripped then stripped else default_tenant)
   | _ \<Rightarrow> default_tenant)"

text \<open>
  \<open>decode\<close> is \<open>base64.urlsafe_b64decode(_).decode("utf-8")\<close>, \<open>None\<close> where either raises. A payload
  that is not an object has no \<open>get\<close>; every exception of the block answers \<open>None\<close>.
\<close>

definition tenant_from_jwt :: "(string \<Rightarrow> string option) \<Rightarrow> http_request \<Rightarrow> json option" where
  "tenant_from_jwt decode rq =
     (let auth = (case header_get (rq_headers rq) ''Authorization'' of None \<Rightarrow> [] | Some a \<Rightarrow> a) in
      if \<not> py_startswith (py_lower auth) ''bearer '' then None
      else (case py_split (CHR ''.'') (drop 7 auth) of
              [_, payload_b64, _] \<Rightarrow>
                (let padding = 4 - length payload_b64 mod 4;
                     padded = (if padding \<noteq> 4 then payload_b64 @ replicate padding (CHR ''='')
                       else payload_b64)
                 in case Option.bind (decode padded) json_loads of
                      Some (JObj kvs) \<Rightarrow>
                        (case map_of kvs ''tenant_id'' of Some JNull \<Rightarrow> None | r \<Rightarrow> r)
                    | _ \<Rightarrow> None)
            | _ \<Rightarrow> None))"

definition extract_tenant_id :: "(string \<Rightarrow> string option) \<Rightarrow> http_request \<Rightarrow> string" where
  "extract_tenant_id decode rq = (case header_get (rq_headers rq) ''X-Tenant-ID'' of
     Some v \<Rightarrow> validate_tenant (JStr v)
   | None \<Rightarrow> (case tenant_from_jwt decode rq of
       Some raw \<Rightarrow> validate_tenant raw
     | None \<Rightarrow> default_tenant))"

definition get_tenant_id :: "string option \<Rightarrow> string" where
  "get_tenant_id ctx = (case ctx of Some v \<Rightarrow> v | None \<Rightarrow> default_tenant)"

definition get_tenant_id_strict :: "string option \<Rightarrow> (exn, string) result" where
  "get_tenant_id_strict ctx = (case ctx of
     Some v \<Rightarrow> Inr v
   | None \<Rightarrow> Inl (Other_Error ''TenantContextError'' ''tenant_id context not set''))"

text \<open>
  A body run under a tenant receives the context variable and leaves it in some state; the scope
  restores the value it found, whether the body returned or raised.
\<close>

type_synonym 'a scoped_body = "string option \<Rightarrow> (exn, 'a) result \<times> string option"

definition tenant_scope :: "string \<Rightarrow> 'a scoped_body \<Rightarrow> 'a scoped_body" where
  "tenant_scope tenant_id body ctx =
     (let validated = validate_tenant (JStr tenant_id) in
      if validated \<noteq> tenant_id then (Inl (Other_Error ''ValueError'' ''invalid tenant_id''), ctx)
      else (fst (body (Some validated)), ctx))"

definition tenant_middleware ::
    "(string \<Rightarrow> string option) \<Rightarrow> (http_request \<Rightarrow> 'a scoped_body) \<Rightarrow> http_request \<Rightarrow> 'a scoped_body" where
  "tenant_middleware decode app rq ctx =
     (if rq_scope rq \<noteq> ''http'' then app rq ctx
      else (fst (app rq (Some (extract_tenant_id decode rq))), ctx))"

section \<open>Staging guard\<close>

datatype guard_verdict =
  Forward
| Unauthorized "(string \<times> string) list"

definition bypass_paths :: "string list" where
  "bypass_paths = [''/health'', ''/healthz'', ''/readyz'']"

definition staging_guard :: "string \<Rightarrow> string list \<Rightarrow> http_request \<Rightarrow> guard_verdict" where
  "staging_guard key allowed_origins rq =
     (if rq_scope rq \<noteq> ''http'' \<or> key = [] \<or> rq_method rq = ''OPTIONS'' then Forward
      else if rq_path rq \<in> set bypass_paths then Forward
      else if header_get (rq_headers rq) ''X-Staging-Key'' \<noteq> Some key
      then Unauthorized (case header_get (rq_headers rq) ''origin'' of
             Some origin \<Rightarrow>
               if origin \<noteq> [] \<and> origin \<in> set allowed_origins
               then [(''Access-Control-Allow-Origin'', origin), (''Vary'', ''Origin'')] else []
           | None \<Rightarrow> [])
      else Forward)"

section \<open>Request identities\<close>

definition headers_to_dict :: "(string \<times> string) list \<Rightarrow> (string \<times> string) list" where
  "headers_to_dict hs = foldl (\<lambda>d (k, v). AList.update (py_lower k) v d) [] hs"

definition upsert_header :: "(string \<times> string) list \<Rightarrow> string \<Rightarrow> string \<Rightarrow> (string \<times> string) list" where
  "upsert_header headers key value =
     (let key_l = py_lower key in filter (\<lambda>(k, v). py_lower k \<noteq> key_l) headers @ [(key_l, value)])"

record request_identity =
  ri_request_id :: string
  ri_correlation_id :: string
  ri_instance_id :: string
  ri_telemetry_correlation_id :: "string option"

text \<open>
  \<open>decode\<close> is \<open>bytes.decode("utf-8", errors="replace")\<close>; \<open>fresh\<close> and \<open>instance\<close> are the two
  identifiers the middleware may mint. A header whose bytes are blank counts as absent.
\<close>

definition bytes_blank :: "string \<Rightarrow> bool" where
  "bytes_blank b = list_all (\<lambda>c. let n = code_point c in 9 \<le> n \<and> n \<le> 13 \<or> n = 32) b"

definition request_context :: "(string \<Rightarrow> string) \<Rightarrow> nat \<Rightarrow> nat \<Rightarrow> (string \<times> string) list \<Rightarrow> request_identity" where
  "request_context decode fresh instance_id hs =
     (let headers = headers_to_dict hs;
          request_id = map_of headers ''x-request-id'';
          correlation_id = map_of headers ''x-correlation-id'';
          request_id_s = (case request_id of
             Some r \<Rightarrow> if bytes_blank r then uuid_str fresh else py_strip (decode r)
           | None \<Rightarrow> uuid_str fresh);
          correlation_id_s = (case correlation_id of
             Some c \<Rightarrow> if bytes_blank c then request_id_s else py_strip (decode c)
           | None \<Rightarrow> request_id_s)
      in \<lparr>ri_request_id = request_id_s, ri_correlation_id = correlation_id_s,
          ri_instance_id = uuid_str instance_id,
          ri_telemetry_correlation_id = validate_correlation_id
            (case request_id of Some r \<Rightarrow> if r = [] then None else Some (decode r) | None \<Rightarrow> None)\<rparr>)"

definition response_headers :: "(string \<Rightarrow> string) \<Rightarrow> request_identity \<Rightarrow> (string \<times> string) list \<Rightarrow> (string \<times> string) list" where
  "response_headers encode ri raw =
     upsert_header (upsert_header raw ''x-request-id'' (encode (ri_request_id ri)))
       ''x-correlation-id'' (encode (ri_correlation_id ri))"

definition request_span_attributes :: "request_identity \<Rightarrow> (string \<times> string) list" where
  "request_span_attributes ri =
     (''request.instance_id'', ri_instance_id ri) #
     (case ri_telemetry_correlation_id ri of None \<Rightarrow> [] | Some c \<Rightarrow> [(''request.correlation_id'', c)])"

section \<open>Payload limit\<close>

definition request_size_ok :: "int \<Rightarrow> http_request \<Rightarrow> bool" where
  "request_size_ok max_bytes rq =
     (if (case header_get (rq_headers rq) ''content-length'' of
            Some cl \<Rightarrow> (case py_int10 cl of Some n \<Rightarrow> n > max_bytes | None \<Rightarrow> False)
          | None \<Rightarrow> False) then False
      else \<not> ilen (rq_body rq) > max_bytes)"

section \<open>Metrics collector\<close>

record 'v collector =
  mc_instance_id :: string
  mc_correlation_id :: "string option"
  mc_fields :: "(string \<times> 'v) list"

definition init_collector :: "request_identity \<Rightarrow> 'v collector" where
  "init_collector ri = \<lparr>mc_instance_id = ri_instance_id ri,
     mc_correlation_id = ri_telemetry_correlation_id ri, mc_fields = []\<rparr>"

definition collector_record :: "(string \<times> 'v option) list \<Rightarrow> 'v collector \<Rightarrow> 'v collector" where
  "collector_record kvs c =
     c\<lparr>mc_fields := foldl (\<lambda>d (k, v). case v of None \<Rightarrow> d | Some x \<Rightarrow> dict_put k x d) (mc_fields c) kvs\<rparr>"

text \<open>The row the collector hands out: the recorded fields come last and win over the identity.\<close>

definition collector_snapshot :: "(string \<Rightarrow> 'v) \<Rightarrow> 'v \<Rightarrow> 'v collector \<Rightarrow> (string \<times> 'v) list" where
  "collector_snapshot text_value none_value c =
     foldl (\<lambda>d (k, v). dict_put k v d)
       [(''request_instance_id'', text_value (mc_instance_id c)),
        (''request_id'', case mc_correlation_id c of None \<Rightarrow> none_value | Some t \<Rightarrow> text_value t)]
       (mc_fields c)"

section \<open>Lemmas\<close>

lemma tenant_char_not_space: "tenant_char c \<Longrightarrow> \<not> py_space c"
  by (auto simp: tenant_char_def py_space_def Let_def)

definition tenant_ok :: "string \<Rightarrow> bool" where
  "tenant_ok t = (t \<noteq> [] \<and> length t \<le> 64 \<and> list_all tenant_char t)"

lemma default_tenant_ok [simp]: "tenant_ok default_tenant"
  by (simp add: tenant_ok_def default_tenant_def tenant_char_def code_point_def Let_def)

lemma validate_tenant_ok: "tenant_ok (validate_tenant v)"
proof -
  have "tenant_ok (py_strip s)" if "py_strip s \<noteq> []" "tenant_id_pattern (py_strip s)" for s
  proof -
    have "\<not> py_space (last (py_strip s))" using py_strip_last that(1) by blast
    then have "last (py_strip s) \<noteq> CHR 0x0A" by (auto simp: py_space_def code_point_def Let_def)
    with that show ?thesis by (simp add: tenant_id_pattern_def tenant_ok_def Let_def)
  qed
  then show ?thesis by (auto simp: validate_tenant_def Let_def split: json.splits)
qed

lemma validate_tenant_id: "tenant_ok t \<Longrightarrow> validate_tenant (JStr t) = t"
proof -
  assume t: "tenant_ok t"
  then have all: "\<forall>c\<in>set t. tenant_char c" and ne: "t \<noteq> []"
    by (auto simp: tenant_ok_def list_all_iff)
  then have "\<not> py_space (hd t)" "\<not> py_space (last t)" using tenant_char_not_space by auto
  then have strip: "py_strip t = t" by (intro py_strip_id) simp
  have "tenant_char (last t)" using all ne by simp
  then have "last t \<noteq> CHR 0x0A" by (auto simp: tenant_char_def code_point_def Let_def)
  with t ne strip show ?thesis by (simp add: validate_tenant_def tenant_id_pattern_def tenant_ok_def)
qed

lemma extract_tenant_ok: "tenant_ok (extract_tenant_id decode rq)"
  by (auto simp: extract_tenant_id_def validate_tenant_ok split: option.splits)

lemma map_of_filter_key:
  "q \<noteq> k \<Longrightarrow> map_of (map (\<lambda>(j, v). (f j, v)) (filter (\<lambda>(j, v). f j \<noteq> k) hs)) q
    = map_of (map (\<lambda>(j, v). (f j, v)) hs) q"
  by (induction hs) auto

lemma map_of_filter_absent:
  "map_of (map (\<lambda>(j, v). (f j, v)) (filter (\<lambda>(j, v). f j \<noteq> k) hs)) k = None"
  by (induction hs) auto

lemma header_get_upsert:
  "header_get (upsert_header hs k v) q =
     (if py_lower q = py_lower k then Some v else header_get hs q)"
  by (simp add: header_get_def upsert_header_def Let_def map_add_def map_of_filter_key
      map_of_filter_absent split: option.splits)

lemma tenant_scope_restores: "snd (tenant_scope t body ctx) = ctx"
  by (simp add: tenant_scope_def Let_def)

lemma tenant_scope_ok: "tenant_ok t \<Longrightarrow> fst (tenant_scope t body ctx) = fst (body (Some t))"
  by (simp add: tenant_scope_def Let_def validate_tenant_id)

lemma tenant_scope_rejects: "\<not> tenant_ok t \<Longrightarrow> \<exists>m. fst (tenant_scope t body ctx) = Inl (Other_Error ''ValueError'' m)"
  using validate_tenant_ok [of "JStr t"] by (auto simp: tenant_scope_def Let_def)

lemma request_context_ids:
  "uuid_valid i \<Longrightarrow> \<exists>n. uuid_valid n \<and> ri_instance_id (request_context d f i hs) = uuid_str n"
  "ri_telemetry_correlation_id (request_context d f i hs) = Some t \<Longrightarrow>
    \<exists>n. uuid_valid n \<and> t = uuid_str n"
  by (auto simp: request_context_def Let_def dest: validate_correlation_idD)

lemma map_of_replace:
  "map_of (map (\<lambda>(l, w). if l = k then (l, v) else (l, w)) kvs) q =
     (if q = k then map_option (\<lambda>_. v) (map_of kvs k) else map_of kvs q)"
  by (induction kvs) auto

lemma map_of_dict_put: "map_of (dict_put k v kvs) q = (if q = k then Some v else map_of kvs q)"
proof (cases "map_of kvs k")
  case None
  then have "k \<notin> fst ` set kvs" by (simp add: map_of_eq_None_iff)
  with None show ?thesis by (simp add: dict_put_def map_add_def) (simp split: option.splits)
next
  case (Some w)
  then have "k \<in> fst ` set kvs" by (metis map_of_eq_None_iff option.distinct(1))
  with Some show ?thesis by (simp add: dict_put_def map_of_replace)
qed

lemma collector_record_get:
  "map_of (mc_fields (collector_record [(k, v)] c)) q =
     (if q = k \<and> v \<noteq> None then v else map_of (mc_fields c) q)"
  by (auto simp: collector_record_def map_of_dict_put split: option.splits)

section \<open>Properties\<close>

text \<open>C4: every HTTP request runs under a well-formed tenant: 1 to 64 characters of letters, digits,
  underscore and hyphen. A well-formed \<open>X-Tenant-ID\<close> decides whatever the bearer token says, a malformed
  one means the default tenant, and the context variable is restored when the request ends, also after
  an exception. Offline code may only enter a scope with a well-formed tenant and is refused otherwise.\<close>

theorem requests_run_under_wellformed_tenant:
  fixes app :: "http_request \<Rightarrow> 'a scoped_body" and body :: "'a scoped_body"
  shows "(rq_scope rq = ''http'' \<longrightarrow>
            (\<exists>t. tenant_ok t \<and> tenant_middleware decode app rq ctx = (fst (app rq (Some t)), ctx)
              \<and> (\<forall>h. header_get (rq_headers rq) ''X-Tenant-ID'' = Some h \<longrightarrow>
                    t = (if tenant_ok (py_strip h) then py_strip h else default_tenant))))
    \<and> (tenant_ok q \<longrightarrow> tenant_scope q body ctx = (fst (body (Some q)), ctx))
    \<and> (\<not> tenant_ok q \<longrightarrow> (\<exists>m. tenant_scope q body ctx = (Inl (Other_Error ''ValueError'' m), ctx)))"
proof (intro conjI impI)
  assume http: "rq_scope rq = ''http''"
  have "validate_tenant (JStr h) = (if tenant_ok (py_strip h) then py_strip h else default_tenant)" for h
    using validate_tenant_ok [of "JStr h"] validate_tenant_id [of "py_strip h"]
    by (auto simp: validate_tenant_def Let_def split: if_splits)
  with http extract_tenant_ok [of decode rq]
  show "\<exists>t. tenant_ok t \<and> tenant_middleware decode app rq ctx = (fst (app rq (Some t)), ctx)
      \<and> (\<forall>h. header_get (rq_headers rq) ''X-Tenant-ID'' = Some h \<longrightarrow>
            t = (if tenant_ok (py_strip h) then py_strip h else default_tenant))"
    by (intro exI [of _ "extract_tenant_id decode rq"]) (auto simp: tenant_middleware_def extract_tenant_id_def)
next
  assume "tenant_ok q"
  then show "tenant_scope q body ctx = (fst (body (Some q)), ctx)"
    by (simp add: prod_eq_iff tenant_scope_ok tenant_scope_restores)
next
  assume "\<not> tenant_ok q"
  then show "\<exists>m. tenant_scope q body ctx = (Inl (Other_Error ''ValueError'' m), ctx)"
    by (simp add: prod_eq_iff tenant_scope_rejects tenant_scope_restores)
qed

definition example_request :: http_request where
  "example_request = \<lparr>rq_scope = ''http'', rq_method = ''POST'', rq_path = ''/chat'',
     rq_headers = [(''x-tenant-id'', '' acme ''), (''X-Request-ID'', ''abc'')], rq_body = ''{}''\<rparr>"

theorem requests_run_under_wellformed_tenant_witness:
  "\<exists>t. tenant_ok t \<and> tenant_middleware (\<lambda>_. None) (\<lambda>rq ctx. (Inr ctx, None)) example_request (Some ''old'') = (Inr (Some t), Some ''old'')
     \<and> t = ''acme''"
proof -
  have "rq_scope example_request = ''http''" "header_get (rq_headers example_request) ''X-Tenant-ID'' = Some '' acme ''"
    "tenant_ok (py_strip '' acme '')" "py_strip '' acme '' = ''acme''"
    by code_simp+
  note facts = this
  from requests_run_under_wellformed_tenant
    [of example_request "\<lambda>_. None" "\<lambda>rq ctx. (Inr ctx, None)" "Some ''old''" "[]" "\<lambda>ctx. (Inr ctx, ctx)"] facts(1)
  obtain t where t: "tenant_ok t"
    "tenant_middleware (\<lambda>_. None) (\<lambda>rq ctx. (Inr ctx, None)) example_request (Some ''old'') = (Inr (Some t), Some ''old'')"
    "\<forall>h. header_get (rq_headers example_request) ''X-Tenant-ID'' = Some h \<longrightarrow>
       t = (if tenant_ok (py_strip h) then py_strip h else default_tenant)"
    by (auto simp: fst_conv)
  from t(3) facts(2-4) have "t = ''acme''" by simp
  with t(1,2) show ?thesis by blast
qed

end
