(* ===== verification/Rerankers.thy ===== *)
theory Rerankers imports Uuid_Text Domain_Types Packer begin

text \<open>
  The reranking port (\<open>app/core/domain/reranker.py\<close>) and its adapters: the Google ranking API with
  its credential refresh, AWS Bedrock Rerank, the local model and the availability cascade. The
  services themselves are parameters that answer a request; a JSON number with a fraction keeps its
  literal, and \<open>trunc\<close>, the integer part of such a literal, is a parameter. The contract of the
  port (indices in range, ranks 1 to n) is a locale; numbers beyond the range of a double are outside the model; the adapters interpret it, and the cascade of
  two rerankers that keep it keeps it.
\<close>

section \<open>Port\<close>

record rerank_request =
  rrq_query :: string
  rrq_documents :: "string list"
  rrq_top_n :: "int option"

record ranked_document =
  rd_index :: int
  rd_rank :: int
  rd_score :: "json option"

record reranker_error =
  re_message :: string
  re_backend :: string
  re_code :: "string option"

datatype rerank_exn =
  Transient_Rerank reranker_error
| Terminal_Rerank reranker_error
| Unnormalized exn

definition reranker_retryable :: "rerank_exn \<Rightarrow> bool" where
  "reranker_retryable e = (case e of Transient_Rerank _ \<Rightarrow> True | _ \<Rightarrow> False)"

type_synonym reranker = "rerank_request \<Rightarrow> (rerank_exn, ranked_document list) result"

definition transient :: "string \<Rightarrow> string \<Rightarrow> string option \<Rightarrow> rerank_exn" where
  "transient backend msg code = Transient_Rerank \<lparr>re_message = msg, re_backend = backend, re_code = code\<rparr>"

definition terminal :: "string \<Rightarrow> string \<Rightarrow> string option \<Rightarrow> rerank_exn" where
  "terminal backend msg code = Terminal_Rerank \<lparr>re_message = msg, re_backend = backend, re_code = code\<rparr>"

section \<open>Requests\<close>

definition top_n_of :: "string \<Rightarrow> rerank_request \<Rightarrow> (rerank_exn, int) result" where
  "top_n_of backend q =
     (let top_n = (case rrq_top_n q of None \<Rightarrow> ilen (rrq_documents q) | Some n \<Rightarrow> n) in
      if top_n < 0 \<or> top_n > ilen (rrq_documents q)
      then Inl (terminal backend ''top_n is outside the document range'' None) else Inr top_n)"

definition gcp_validate_request :: "rerank_request \<Rightarrow> (rerank_exn, int) result" where
  "gcp_validate_request q =
     (if py_strip (rrq_query q) = [] then Inl (terminal ''gcp'' ''rerank query must not be empty'' None)
      else if length (rrq_documents q) > 200
      then Inl (terminal ''gcp'' ''rerank request exceeds 200 documents'' None)
      else if list_ex (\<lambda>d. py_strip d = []) (rrq_documents q)
      then Inl (terminal ''gcp'' ''rerank documents must not be empty'' None)
      else top_n_of ''gcp'' q)"

definition plain_validate_request :: "string \<Rightarrow> rerank_request \<Rightarrow> (rerank_exn, int) result" where
  \<comment> \<open>the AWS and the local adapter each have a copy of this function\<close>
  "plain_validate_request backend q =
     (if py_strip (rrq_query q) = [] then Inl (terminal backend ''rerank query must not be empty'' None)
      else if list_ex (\<lambda>d. py_strip d = []) (rrq_documents q)
      then Inl (terminal backend ''rerank documents must not be empty'' None)
      else top_n_of backend q)"

section \<open>Numbers of a response\<close>

text \<open>\<open>int(value)\<close>: \<open>None\<close> is the \<open>TypeError\<close> or \<open>ValueError\<close> the adapters catch.\<close>

fun py_int_of :: "(string \<Rightarrow> int option) \<Rightarrow> json \<Rightarrow> int option" where
  "py_int_of trunc (JInt i) = Some i"
| "py_int_of trunc (JBool b) = Some (if b then 1 else 0)"
| "py_int_of trunc (JFloat l) = trunc l"
| "py_int_of trunc (JStr s) = py_int10 s"
| "py_int_of trunc _ = None"

text \<open>The text grammar of \<open>float(s)\<close>: a sign, then \<open>inf\<close>, \<open>nan\<close> or a decimal with optional
  fraction and exponent, underscores between digits.\<close>

definition digit_group :: "string \<Rightarrow> bool" where
  "digit_group s = (dec_run False 0 s \<noteq> None)"

definition float_mantissa :: "string \<Rightarrow> bool" where
  "float_mantissa s = (case py_split (CHR ''.'') s of
     [w] \<Rightarrow> digit_group w
   | [w, f] \<Rightarrow> (w \<noteq> [] \<or> f \<noteq> []) \<and> (w = [] \<or> digit_group w) \<and> (f = [] \<or> digit_group f)
   | _ \<Rightarrow> False)"

definition unsigned_part :: "string \<Rightarrow> string" where
  "unsigned_part s = (if take 1 s = ''-'' \<or> take 1 s = ''+'' then drop 1 s else s)"

definition py_float_text :: "string \<Rightarrow> bool" where
  "py_float_text s =
     (let t = unsigned_part (py_lower (rev (dropWhile int_space (rev (dropWhile int_space s))))) in
      t = ''inf'' \<or> t = ''infinity'' \<or> t = ''nan''
      \<or> (case py_split (CHR ''e'') t of
           [m] \<Rightarrow> float_mantissa m
         | [m, e] \<Rightarrow> float_mantissa m \<and> digit_group (unsigned_part e)
         | _ \<Rightarrow> False))"

text \<open>\<open>float(value)\<close>: the value it was made from stands for the number.\<close>

fun py_float_of :: "json \<Rightarrow> json option" where
  "py_float_of (JStr s) = (if py_float_text s then Some (JStr s) else None)"
| "py_float_of JNull = None"
| "py_float_of (JArr xs) = None"
| "py_float_of (JObj kvs) = None"
| "py_float_of j = Some j"

section \<open>Reading the ranked records\<close>

text \<open>
  One record of a response: \<open>index=int(record[key])\<close> and the optional score. A record that is not
  an object has no subscript by name or no \<open>get\<close>.
\<close>

definition read_record ::
    "(string \<Rightarrow> int option) \<Rightarrow> string \<Rightarrow> string \<Rightarrow> int \<Rightarrow> json \<Rightarrow> ranked_document option" where
  "read_record trunc id_key score_key rank rec = (case rec of
     JObj kvs \<Rightarrow>
       (case Option.bind (map_of kvs id_key) (py_int_of trunc) of
          None \<Rightarrow> None
        | Some i \<Rightarrow>
            (case map_of kvs score_key of
               None \<Rightarrow> Some \<lparr>rd_index = i, rd_rank = rank, rd_score = None\<rparr>
             | Some JNull \<Rightarrow> Some \<lparr>rd_index = i, rd_rank = rank, rd_score = None\<rparr>
             | Some v \<Rightarrow> map_option (\<lambda>f. \<lparr>rd_index = i, rd_rank = rank, rd_score = Some f\<rparr>) (py_float_of v)))
   | _ \<Rightarrow> None)"

fun read_records ::
    "(string \<Rightarrow> int option) \<Rightarrow> string \<Rightarrow> string \<Rightarrow> int \<Rightarrow> json list \<Rightarrow> ranked_document list option" where
  "read_records trunc id_key score_key rank [] = Some []"
| "read_records trunc id_key score_key rank (r # rs) =
     (case read_record trunc id_key score_key rank r of
        None \<Rightarrow> None
      | Some d \<Rightarrow> map_option ((#) d) (read_records trunc id_key score_key (rank + 1) rs))"

text \<open>\<open>for record in records\<close>: an object iterates over its keys, a text over its characters.\<close>

fun json_iter :: "json \<Rightarrow> json list option" where
  "json_iter (JArr xs) = Some xs"
| "json_iter (JObj kvs) = Some (map (\<lambda>(k, v). JStr k) kvs)"
| "json_iter (JStr s) = Some (map (\<lambda>c. JStr [c]) s)"
| "json_iter _ = None"

definition ranked_of_response ::
    "(string \<Rightarrow> int option) \<Rightarrow> string \<Rightarrow> string \<Rightarrow> string \<Rightarrow> json option \<Rightarrow> ranked_document list option" where
  "ranked_of_response trunc list_key id_key score_key body = (case body of
     Some (JObj kvs) \<Rightarrow>
       Option.bind (Option.bind (map_of kvs list_key) json_iter) (read_records trunc id_key score_key 1)
   | _ \<Rightarrow> None)"

definition check_indices ::
    "string \<Rightarrow> string \<Rightarrow> rerank_request \<Rightarrow> ranked_document list \<Rightarrow> (rerank_exn, ranked_document list) result" where
  "check_indices backend msg q ds =
     (if list_ex (\<lambda>d. rd_index d < 0 \<or> rd_index d \<ge> ilen (rrq_documents q)) ds
      then Inl (terminal backend msg None) else Inr ds)"

section \<open>HTTP\<close>

record http_response =
  hr_status :: int
  hr_body :: "json option"

text \<open>\<open>urllib.parse.quote(s, safe="")\<close>, over the UTF-8 bytes of the text.\<close>

definition upper_hex :: "nat \<Rightarrow> char" where
  "upper_hex d = (if d < 10 then char_of (48 + d) else char_of (55 + d))"

definition percent_byte :: "nat \<Rightarrow> string" where
  "percent_byte n = [CHR ''%'', upper_hex (n div 16), upper_hex (n mod 16)]"

definition quote_char :: "char \<Rightarrow> string" where
  "quote_char c = (let n = code_point c in
     if 48 \<le> n \<and> n \<le> 57 \<or> 65 \<le> n \<and> n \<le> 90 \<or> 97 \<le> n \<and> n \<le> 122 \<or> n = 95 \<or> n = 46 \<or> n = 45 \<or> n = 126
     then [c]
     else if n < 128 then percent_byte n
     else percent_byte (192 + n div 64) @ percent_byte (128 + n mod 64))"

definition url_quote :: "string \<Rightarrow> string" where
  "url_quote s = concat (map quote_char s)"

section \<open>Google\<close>

record 'n adc_state =
  adc_token :: "string option"
  adc_expires_at :: 'n

definition json_falsy :: "json \<Rightarrow> bool" where
  "json_falsy j = (j = JNull \<or> j = JBool False \<or> j = JInt 0 \<or> j = JStr [] \<or> j = JArr [] \<or> j = JObj []
     \<or> j = JFloat ''0.0'')"

definition member :: "(string \<times> json) list \<Rightarrow> string \<Rightarrow> json" where
  "member kvs k = (case map_of kvs k of Some v \<Rightarrow> v | None \<Rightarrow> JNull)"

text \<open>
  The refresh: \<open>file\<close> is the parsed credential file (\<open>None\<close>: unreadable or not JSON), \<open>post\<close> the
  token endpoint (\<open>None\<close>: no transport), \<open>str_of\<close> Python's \<open>str\<close> of a JSON value, \<open>now\<close> the clock.
\<close>

definition adc_refresh ::
  "(string \<Rightarrow> int option) \<Rightarrow> (json \<Rightarrow> string) \<Rightarrow> (string \<times> json) list option
   \<Rightarrow> (json \<Rightarrow> (string \<times> json) list \<Rightarrow> http_response option) \<Rightarrow> 'n::linordered_idom
   \<Rightarrow> 'n adc_state \<Rightarrow> (rerank_exn, string) result \<times> 'n adc_state" where
  "adc_refresh trunc str_of file post now st = (case file of
     None \<Rightarrow> (Inl (terminal ''gcp'' ''GCP ADC credentials are unavailable'' None), st)
   | Some credentials \<Rightarrow>
       if member credentials ''type'' \<noteq> JStr ''authorized_user''
       then (Inl (terminal ''gcp'' ''GCP ADC must use host-level authorized-user credentials'' None), st)
       else if list_ex (\<lambda>name. json_falsy (member credentials name))
                 [''client_id'', ''client_secret'', ''refresh_token'']
       then (Inl (terminal ''gcp'' ''GCP ADC credentials are incomplete'' None), st)
       else
         (let token_uri = (case map_of credentials ''token_uri'' of Some u \<Rightarrow> u
              | None \<Rightarrow> JStr ''https://oauth2.googleapis.com/token'');
              data = [(''client_id'', member credentials ''client_id''),
                      (''client_secret'', member credentials ''client_secret''),
                      (''refresh_token'', member credentials ''refresh_token''),
                      (''grant_type'', JStr ''refresh_token'')]
          in case post token_uri data of
               None \<Rightarrow> (Inl (transient ''gcp'' ''GCP ADC token exchange failed'' None), st)
             | Some r \<Rightarrow>
                 if hr_status r \<ge> 500 \<or> hr_status r = 429
                 then (Inl (transient ''gcp'' ''GCP ADC token service is unavailable'' (Some (int_dec (hr_status r)))), st)
                 else if hr_status r \<ge> 400
                 then (Inl (terminal ''gcp'' ''GCP ADC token exchange was rejected'' (Some (int_dec (hr_status r)))), st)
                 else (case hr_body r of
                     Some (JObj body) \<Rightarrow>
                       (case (map_of body ''access_token'',
                              py_int_of trunc (case map_of body ''expires_in'' of Some v \<Rightarrow> v | None \<Rightarrow> JInt 3600)) of
                          (Some tok, Some expires_in) \<Rightarrow>
                            (Inr (str_of tok), st\<lparr>adc_token := Some (str_of tok), adc_expires_at := now + of_int expires_in\<rparr>)
                        | _ \<Rightarrow> (Inl (terminal ''gcp'' ''GCP ADC token response is invalid'' None), st))
                   | _ \<Rightarrow> (Inl (terminal ''gcp'' ''GCP ADC token response is invalid'' None), st))))"

definition adc_access_token ::
  "(string \<Rightarrow> int option) \<Rightarrow> (json \<Rightarrow> string) \<Rightarrow> (string \<times> json) list option
   \<Rightarrow> (json \<Rightarrow> (string \<times> json) list \<Rightarrow> http_response option) \<Rightarrow> 'n::linordered_idom
   \<Rightarrow> 'n adc_state \<Rightarrow> (rerank_exn, string) result \<times> 'n adc_state" where
  "adc_access_token trunc str_of file post now st =
     (if (case adc_token st of Some tok \<Rightarrow> tok \<noteq> [] | None \<Rightarrow> False) \<and> now < adc_expires_at st - 60
      then (Inr (the (adc_token st)), st)
      else adc_refresh trunc str_of file post now st)"

definition gcp_url :: "string \<Rightarrow> string \<Rightarrow> string" where
  "gcp_url project_id location = ''https://discoveryengine.googleapis.com/v1/projects/'' @ url_quote project_id
     @ ''/locations/'' @ url_quote location @ ''/rankingConfigs/default_ranking_config:rank''"

definition gcp_payload :: "string \<Rightarrow> rerank_request \<Rightarrow> int \<Rightarrow> json" where
  "gcp_payload model q top_n = JObj [
     (''model'', JStr model), (''query'', JStr (rrq_query q)),
     (''records'', JArr (map (\<lambda>(i, d). JObj [(''id'', JStr (nat_dec i)), (''content'', JStr d)])
        (zip [0..<length (rrq_documents q)] (rrq_documents q)))),
     (''topN'', JInt top_n), (''ignoreRecordDetailsInResponse'', JBool True)]"

text \<open>
  \<open>token\<close> is what the token provider answers for this call, \<open>post\<close> the ranking endpoint.
\<close>

definition gcp_read_response ::
  "(string \<Rightarrow> int option) \<Rightarrow> rerank_request \<Rightarrow> http_response \<Rightarrow> (rerank_exn, ranked_document list) result" where
  "gcp_read_response trunc q r =
     (if hr_status r = 429 \<or> hr_status r \<ge> 500
      then Inl (transient ''gcp'' ''GCP reranker is temporarily unavailable'' (Some (int_dec (hr_status r))))
      else if hr_status r \<ge> 400
      then Inl (terminal ''gcp'' ''GCP reranker request was rejected'' (Some (int_dec (hr_status r))))
      else (case ranked_of_response trunc ''records'' ''id'' ''score'' (hr_body r) of
          None \<Rightarrow> Inl (terminal ''gcp'' ''GCP reranker response is invalid'' None)
        | Some ds \<Rightarrow> check_indices ''gcp'' ''GCP reranker returned an invalid document index'' q ds))"

definition gcp_rerank ::
  "(string \<Rightarrow> int option) \<Rightarrow> string \<Rightarrow> string \<Rightarrow> string \<Rightarrow> (rerank_exn, string) result
   \<Rightarrow> (string \<Rightarrow> json \<Rightarrow> (string \<times> string) list \<Rightarrow> http_response option) \<Rightarrow> reranker" where
  "gcp_rerank trunc project_id location model token post q =
     bind_result (gcp_validate_request q) (\<lambda>top_n.
       if rrq_documents q = [] then Inr []
       else if project_id = [] then Inl (terminal ''gcp'' ''GCP project is required'' None)
       else bind_result token (\<lambda>tok.
         case post (gcp_url project_id location) (gcp_payload model q top_n)
                [(''Authorization'', ''Bearer '' @ tok), (''X-Goog-User-Project'', project_id)] of
           None \<Rightarrow> Inl (transient ''gcp'' ''GCP reranker transport failed'' None)
         | Some r \<Rightarrow> gcp_read_response trunc q r))"

section \<open>AWS\<close>

datatype aws_failure =
  Client_Error string
| Boto_Core_Error
| Other_Aws_Failure

definition aws_transient_codes :: "string list" where
  "aws_transient_codes = [''InternalServerException'', ''ModelNotReadyException'',
     ''ServiceQuotaExceededException'', ''ServiceUnavailableException'', ''ThrottlingException'',
     ''TooManyRequestsException'']"

definition normalize_aws_error :: "aws_failure \<Rightarrow> rerank_exn" where
  "normalize_aws_error e = (case e of
     Client_Error code \<Rightarrow>
       if code \<in> set aws_transient_codes
       then transient ''aws'' ''AWS reranker request failed'' (Some code)
       else terminal ''aws'' ''AWS reranker request failed'' (Some code)
   | Boto_Core_Error \<Rightarrow> transient ''aws'' ''AWS reranker transport failed'' None
   | Other_Aws_Failure \<Rightarrow> terminal ''aws'' ''AWS reranker failed'' None)"

definition aws_model_arn :: "string \<Rightarrow> string \<Rightarrow> string" where
  "aws_model_arn region model = (if py_startswith model ''arn:'' then model
     else ''arn:aws:bedrock:'' @ region @ ''::foundation-model/'' @ model)"

text \<open>\<open>call\<close> is \<open>client.rerank\<close> with query, documents, model and number of results.\<close>

definition aws_read_response ::
  "(string \<Rightarrow> int option) \<Rightarrow> rerank_request \<Rightarrow> json \<Rightarrow> (rerank_exn, ranked_document list) result" where
  "aws_read_response trunc q response =
     (case ranked_of_response trunc ''results'' ''index'' ''relevanceScore'' (Some response) of
        None \<Rightarrow> Inl (terminal ''aws'' ''AWS reranker response is invalid'' None)
      | Some ds \<Rightarrow> check_indices ''aws'' ''AWS reranker returned an invalid document index'' q ds)"

definition aws_rerank ::
  "(string \<Rightarrow> int option) \<Rightarrow> string \<Rightarrow> string
   \<Rightarrow> (string \<Rightarrow> string list \<Rightarrow> string \<Rightarrow> int \<Rightarrow> aws_failure + json) \<Rightarrow> reranker" where
  "aws_rerank trunc region model call q =
     bind_result (plain_validate_request ''aws'' q) (\<lambda>top_n.
       if rrq_documents q = [] then Inr []
       else (case call (rrq_query q) (rrq_documents q) (aws_model_arn region model) top_n of
           Inl e \<Rightarrow> Inl (normalize_aws_error e)
         | Inr response \<Rightarrow> aws_read_response trunc q response))"

section \<open>Local model\<close>

text \<open>
  \<open>score\<close> is the model; scores are of an ordered type and \<open>show_score\<close> is the number they stand for.
  \<open>sorted\<close> is stable, so ties keep the document order.
\<close>

definition rank_scores :: "('f::{linorder,uminus} \<Rightarrow> json) \<Rightarrow> int \<Rightarrow> 'f list \<Rightarrow> ranked_document list" where
  "rank_scores show_score top_n scores =
     (let ordered = py_first_n top_n (sort_key (\<lambda>(i, s). - s) (zip [0..<length scores] scores))
      in map (\<lambda>(rank, (i, s)). \<lparr>rd_index = int i, rd_rank = int rank, rd_score = Some (show_score s)\<rparr>)
           (zip [1..<Suc (length ordered)] ordered))"

definition qwen_rerank ::
  "('f::{linorder,uminus} \<Rightarrow> json) \<Rightarrow> (string \<Rightarrow> string list \<Rightarrow> (rerank_exn, 'f list) result) \<Rightarrow> reranker" where
  "qwen_rerank show_score score q =
     bind_result (plain_validate_request ''qwen_local'' q) (\<lambda>top_n.
       if rrq_documents q = [] then Inr []
       else (case score (rrq_query q) (rrq_documents q) of
           Inl (Terminal_Rerank e) \<Rightarrow> Inl (Terminal_Rerank e)
         | Inl _ \<Rightarrow> Inl (terminal ''qwen_local'' ''Qwen reranker inference failed'' None)
         | Inr scores \<Rightarrow>
             if length scores \<noteq> length (rrq_documents q)
             then Inl (terminal ''qwen_local'' ''Qwen reranker returned the wrong score count'' None)
             else Inr (rank_scores show_score top_n scores)))"

section \<open>Cascade\<close>

record cascade_log =
  cl_primary_ok :: bool
  cl_fallback_attempted :: bool
  cl_error_code :: "string option"

text \<open>The outcome and the log record of one call.\<close>

definition cascading_rerank ::
  "reranker \<Rightarrow> reranker \<Rightarrow> rerank_request \<Rightarrow> (rerank_exn, ranked_document list) result \<times> cascade_log" where
  "cascading_rerank primary fallback q = (case primary q of
     Inl (Terminal_Rerank e) \<Rightarrow>
       (Inl (Terminal_Rerank e), \<lparr>cl_primary_ok = False, cl_fallback_attempted = False, cl_error_code = None\<rparr>)
   | Inl (Transient_Rerank e) \<Rightarrow>
       (fallback q, \<lparr>cl_primary_ok = False, cl_fallback_attempted = True,
          cl_error_code = Some (case re_code e of Some c \<Rightarrow> if c = [] then ''transient'' else c | None \<Rightarrow> ''transient'')\<rparr>)
   | Inl (Unnormalized e) \<Rightarrow>
       (fallback q, \<lparr>cl_primary_ok = False, cl_fallback_attempted = True, cl_error_code = Some ''unnormalized''\<rparr>)
   | Inr ds \<Rightarrow> (Inr ds, \<lparr>cl_primary_ok = True, cl_fallback_attempted = False, cl_error_code = None\<rparr>))"

definition cascade :: "reranker \<Rightarrow> reranker \<Rightarrow> reranker" where
  "cascade primary fallback q = fst (cascading_rerank primary fallback q)"

section \<open>The contract of the port\<close>

definition one_based :: "ranked_document list \<Rightarrow> bool" where
  "one_based ds = (\<forall>i < length ds. rd_rank (ds ! i) = int i + 1)"

locale reranker_contract =
  fixes rerank :: reranker
  assumes index_range: "rerank q = Inr ds \<Longrightarrow> d \<in> set ds \<Longrightarrow> 0 \<le> rd_index d \<and> rd_index d < ilen (rrq_documents q)"
    and ranks: "rerank q = Inr ds \<Longrightarrow> one_based ds"
    and top_n_range: "rrq_top_n q = Some n \<Longrightarrow> ilen (rrq_documents q) < n \<Longrightarrow>
      \<exists>e. rerank q = Inl (Terminal_Rerank e)"
begin

lemma rank_positive: "rerank q = Inr ds \<Longrightarrow> d \<in> set ds \<Longrightarrow> 1 \<le> rd_rank d"
  using ranks by (fastforce simp: one_based_def in_set_conv_nth)

lemma ranks_strict: "rerank q = Inr ds \<Longrightarrow> sorted_wrt (<) (map rd_rank ds)"
  using ranks by (auto simp: one_based_def sorted_wrt_iff_nth_less)

end

locale reranker_pair = primary: reranker_contract primary + fallback: reranker_contract fallback
  for primary and fallback
begin

lemma cascade_Inr: "cascade primary fallback q = Inr ds \<Longrightarrow> primary q = Inr ds \<or> fallback q = Inr ds"
  by (auto simp: cascade_def cascading_rerank_def split: sum.splits rerank_exn.splits)

end

sublocale reranker_pair \<subseteq> both: reranker_contract "cascade primary fallback"
proof (unfold_locales, goal_cases)
  case (1 q ds d)
  then show ?case using cascade_Inr primary.index_range fallback.index_range by blast
next
  case (2 q ds)
  then show ?case using cascade_Inr primary.ranks fallback.ranks by blast
next
  case (3 q n)
  then obtain e where "primary q = Inl (Terminal_Rerank e)" using primary.top_n_range by blast
  then show ?case by (simp add: cascade_def cascading_rerank_def)
qed

section \<open>The adapters keep it\<close>

lemma top_n_of_reject:
  "rrq_top_n q = Some n \<Longrightarrow> ilen (rrq_documents q) < n \<Longrightarrow> \<exists>e. top_n_of b q = Inl (Terminal_Rerank e)"
  by (auto simp: top_n_of_def terminal_def)

lemma validate_reject:
  assumes "rrq_top_n q = Some n" "ilen (rrq_documents q) < n"
  shows "\<exists>e. gcp_validate_request q = Inl (Terminal_Rerank e)"
    and "\<exists>e. plain_validate_request b q = Inl (Terminal_Rerank e)"
  using top_n_of_reject [OF assms] by (auto simp: gcp_validate_request_def plain_validate_request_def terminal_def)

lemma check_indices_Inr:
  "check_indices b m q ds = Inr es \<Longrightarrow> es = ds \<and> (\<forall>d \<in> set ds. 0 \<le> rd_index d \<and> rd_index d < ilen (rrq_documents q))"
  by (auto simp: check_indices_def list_ex_iff split: if_splits)

lemma read_record_rank: "read_record tr k sk r j = Some d \<Longrightarrow> rd_rank d = r"
  by (auto simp: read_record_def split: json.splits option.splits)

lemma read_records_ranks:
  "read_records tr k sk r js = Some ds \<Longrightarrow> i < length ds \<Longrightarrow> rd_rank (ds ! i) = r + int i"
proof (induction js arbitrary: r ds i)
  case (Cons j js)
  from Cons.prems(1) obtain d es where d: "read_record tr k sk r j = Some d"
    "read_records tr k sk (r + 1) js = Some es" "ds = d # es"
    by (auto split: option.splits)
  show ?case
  proof (cases i)
    case 0
    with d show ?thesis by (simp add: read_record_rank)
  next
    case (Suc k)
    with d Cons.prems(2) Cons.IH [OF d(2), of k] show ?thesis by simp
  qed
qed simp

lemma ranked_of_response_ranks:
  "ranked_of_response tr lk k sk body = Some ds \<Longrightarrow> one_based ds"
proof -
  assume "ranked_of_response tr lk k sk body = Some ds"
  then obtain js where "read_records tr k sk 1 js = Some ds"
    by (auto simp: ranked_of_response_def bind_eq_Some_conv split: option.splits json.splits)
  then show ?thesis by (auto simp: one_based_def dest: read_records_ranks)
qed

definition in_range :: "rerank_request \<Rightarrow> ranked_document list \<Rightarrow> bool" where
  "in_range q ds = (\<forall>d \<in> set ds. 0 \<le> rd_index d \<and> rd_index d < ilen (rrq_documents q))"

lemma gcp_read_response_Inr: "gcp_read_response trunc q r = Inr ds \<Longrightarrow> in_range q ds \<and> one_based ds"
  by (auto simp: gcp_read_response_def in_range_def split: if_splits option.splits
      dest: check_indices_Inr ranked_of_response_ranks)

lemma aws_read_response_Inr: "aws_read_response trunc q r = Inr ds \<Longrightarrow> in_range q ds \<and> one_based ds"
  by (auto simp: aws_read_response_def in_range_def split: option.splits
      dest: check_indices_Inr ranked_of_response_ranks)

lemma no_documents_ok [simp]: "in_range q []" "one_based []"
  by (simp_all add: in_range_def one_based_def)

lemma gcp_rerank_Inr:
  "gcp_rerank trunc project_id location model token post q = Inr ds \<Longrightarrow> in_range q ds \<and> one_based ds"
  by (auto simp: gcp_rerank_def bind_result_Inr_iff split: if_splits option.splits dest: gcp_read_response_Inr)

lemma aws_rerank_Inr:
  "aws_rerank trunc region model call q = Inr ds \<Longrightarrow> in_range q ds \<and> one_based ds"
  by (auto simp: aws_rerank_def bind_result_Inr_iff split: if_splits sum.splits dest: aws_read_response_Inr)

interpretation gcp: reranker_contract "gcp_rerank trunc project_id location model token post"
  for trunc project_id location model token post
proof (unfold_locales, goal_cases)
  case (1 q ds d)
  then show ?case using gcp_rerank_Inr in_range_def by blast
next
  case (2 q ds)
  then show ?case using gcp_rerank_Inr by blast
next
  case (3 q n)
  from validate_reject(1) [OF 3] show ?case by (auto simp: gcp_rerank_def)
qed

interpretation aws: reranker_contract "aws_rerank trunc region model call"
  for trunc region model call
proof (unfold_locales, goal_cases)
  case (1 q ds d)
  then show ?case using aws_rerank_Inr in_range_def by blast
next
  case (2 q ds)
  then show ?case using aws_rerank_Inr by blast
next
  case (3 q n)
  from validate_reject(2) [OF 3, of "''aws''"] show ?case by (auto simp: aws_rerank_def)
qed

interpretation gcp_aws: reranker_pair
  "gcp_rerank trunc project_id location model token post" "aws_rerank trunc' region model' call"
  for trunc project_id location model token post trunc' region model' call
  by unfold_locales

lemma rank_scores_ok:
  assumes "length scores = length (rrq_documents q)"
  shows "in_range q (rank_scores show_score top_n scores) \<and> one_based (rank_scores show_score top_n scores)"
proof -
  define ordered where "ordered = py_first_n top_n (sort_key (\<lambda>(i, s). - s) (zip [0..<length scores] scores))"
  have idx: "i < length scores" if "(i, s) \<in> set ordered" for i s
  proof -
    have "set ordered \<subseteq> set (sort_key (\<lambda>(i, s). - s) (zip [0..<length scores] scores))"
      unfolding ordered_def by (rule set_mono_prefix [OF py_first_n_prefix])
    with that show ?thesis by (auto dest!: set_zip_leftD)
  qed
  have ds: "rank_scores show_score top_n scores =
      map (\<lambda>(rank, (i, s)). \<lparr>rd_index = int i, rd_rank = int rank, rd_score = Some (show_score s)\<rparr>)
        (zip [1..<Suc (length ordered)] ordered)"
    by (simp add: rank_scores_def ordered_def Let_def)
  have "in_range q (rank_scores show_score top_n scores)"
    using idx assms by (auto simp: ds in_range_def ilen_def dest!: set_zip_rightD)
  moreover have "one_based (rank_scores show_score top_n scores)"
    by (auto simp: ds one_based_def split: prod.splits simp del: upt_Suc)
  ultimately show ?thesis by simp
qed

lemma qwen_rerank_Inr: "qwen_rerank show_score score q = Inr ds \<Longrightarrow> in_range q ds \<and> one_based ds"
  by (auto simp: qwen_rerank_def bind_result_Inr_iff dest: rank_scores_ok
      split: if_splits sum.splits rerank_exn.splits)

interpretation qwen: reranker_contract "qwen_rerank show_score score" for show_score score
proof (unfold_locales, goal_cases)
  case (1 q ds d)
  then show ?case using qwen_rerank_Inr in_range_def by blast
next
  case (2 q ds)
  then show ?case using qwen_rerank_Inr by blast
next
  case (3 q n)
  from validate_reject(2) [OF 3, of "''qwen_local''"] show ?case by (auto simp: qwen_rerank_def)
qed

section \<open>The production reranker\<close>

text \<open>\<open>build_reranker\<close> of \<open>retrieval_factory.py\<close>: its settings, then what stands for the services.\<close>

record reranker_settings =
  rs_gcp_project :: "string option"
  rs_gcp_location :: string
  rs_gcp_model :: string
  rs_aws_region :: string
  rs_aws_model :: string

record reranker_services =
  sv_trunc :: "string \<Rightarrow> int option"
  sv_gcp_token :: "(rerank_exn, string) result"
  sv_gcp_post :: "string \<Rightarrow> json \<Rightarrow> (string \<times> string) list \<Rightarrow> http_response option"
  sv_aws_call :: "string \<Rightarrow> string list \<Rightarrow> string \<Rightarrow> int \<Rightarrow> aws_failure + json"

definition build_reranker :: "reranker_settings \<Rightarrow> reranker_services \<Rightarrow> reranker" where
  "build_reranker cfg sv = cascade
     (gcp_rerank (sv_trunc sv) (case rs_gcp_project cfg of Some p \<Rightarrow> p | None \<Rightarrow> []) (rs_gcp_location cfg)
        (rs_gcp_model cfg) (sv_gcp_token sv) (sv_gcp_post sv))
     (aws_rerank (sv_trunc sv) (rs_aws_region cfg) (rs_aws_model cfg) (sv_aws_call sv))"

interpretation production: reranker_contract "build_reranker cfg sv" for cfg sv
proof -
  have eq: "build_reranker cfg sv = cascade
     (gcp_rerank (sv_trunc sv) (case rs_gcp_project cfg of Some p \<Rightarrow> p | None \<Rightarrow> []) (rs_gcp_location cfg)
        (rs_gcp_model cfg) (sv_gcp_token sv) (sv_gcp_post sv))
     (aws_rerank (sv_trunc sv) (rs_aws_region cfg) (rs_aws_model cfg) (sv_aws_call sv))"
    by (rule ext) (simp add: build_reranker_def)
  show "reranker_contract (build_reranker cfg sv)"
    unfolding eq by (rule gcp_aws.both.reranker_contract_axioms)
qed

lemma aws_normalized: "aws_rerank trunc region model call q \<noteq> Inl (Unnormalized e)"
proof
  assume "aws_rerank trunc region model call q = Inl (Unnormalized e)"
  then show False
    by (auto simp: aws_rerank_def bind_result_def plain_validate_request_def top_n_of_def terminal_def
        transient_def normalize_aws_error_def aws_read_response_def check_indices_def Let_def
        split: if_splits sum.splits option.splits aws_failure.splits)
qed

lemma production_normalized: "build_reranker cfg sv q \<noteq> Inl (Unnormalized e)"
  using aws_normalized by (auto simp: build_reranker_def cascade_def cascading_rerank_def
      split: sum.splits rerank_exn.splits)

section \<open>Properties\<close>


definition example_rerank_request :: rerank_request where
  "example_rerank_request = \<lparr>rrq_query = ''q'', rrq_documents = [''alpha'', ''beta''], rrq_top_n = Some 2\<rparr>"

definition example_settings :: reranker_settings where
  "example_settings = \<lparr>rs_gcp_project = Some ''proj'', rs_gcp_location = ''global'', rs_gcp_model = ''m'',
     rs_aws_region = ''r'', rs_aws_model = ''m''\<rparr>"

text \<open>Services where Google cannot be reached and AWS ranks the second document first.\<close>

definition example_services :: reranker_services where
  "example_services = \<lparr>sv_trunc = (\<lambda>_. None), sv_gcp_token = Inr ''t'', sv_gcp_post = (\<lambda>_ _ _. None),
     sv_aws_call = (\<lambda>query docs model n. Inr (JObj [(''results'',
       JArr [JObj [(''index'', JInt 1)], JObj [(''index'', JInt 0)]])]))\<rparr>"


end
