(* ===== verification/Provider_Port.thy ===== *)
theory Provider_Port imports Domain_Types Json_Text begin

text \<open>
  The request object of \<open>app/core/domain/provider.py\<close> and the type of a provider's \<open>generate\<close>. The
  metadata of a request is a JSON value, as the code only ever fills it with one; the temperature
  is passed through untouched and keeps the JSON number it arrived as.
\<close>

record provider_input =
  pi_request :: uuid
  pi_messages :: "chat_message list"
  pi_temperature :: "json option"
  pi_max_tokens :: "int option"
  pi_metadata :: "json option"

type_synonym generate_port = "provider_input \<Rightarrow> (exn, provider_result) result"

definition plain_input :: "uuid \<Rightarrow> chat_message list \<Rightarrow> provider_input" where
  "plain_input rid ms = \<lparr>pi_request = rid, pi_messages = ms, pi_temperature = None,
     pi_max_tokens = None, pi_metadata = None\<rparr>"

abbreviation nl :: string where
  "nl \<equiv> [CHR 0x0A]"

end
