(* ===== verification/Pipeline.thy ===== *)
theory Pipeline imports Rerankers Tracing Provider_Port begin

text \<open>
  The retrieval pipeline of \<open>app/core/domain/retrieval_pipeline.py\<close>: rewrite, retrieve, rerank,
  evaluate, with its degradations and its spans. The model provider, the embedding, the vector
  store and the reranker are parameters; each stage returns its value and the trace it extended.
  The log records of the stages are content-free counts and are not kept. The lemmas show which
  failures degrade and which propagate, that chunks come from the candidates, and that spans carry
  no text of the query, the corpus or a model.
\<close>

section \<open>Data\<close>

record retrieved_chunk =
  rc_chunk_id :: uuid
  rc_document_id :: uuid
  rc_text :: string

record ranked_chunk =
  rk_chunk :: retrieved_chunk
  rk_rank :: int

record pipeline_result =
  rp_request :: uuid
  rp_query :: string
  rp_rewritten :: string
  rp_chunks :: "ranked_chunk list"
  rp_fallback :: bool
  rp_evaluator_triggered :: bool
  rp_verdict :: "string option"

record pipeline_config =
  pc_top_k_candidates :: int
  pc_top_n :: int
  pc_min_reranked :: int

definition rewrite_prompt :: string where
  "rewrite_prompt = ''You rewrite a user's search query to improve retrieval over a technical document corpus. Preserve the query's original language. Paraphrase and expand likely abbreviations or synonyms; do not narrow or answer the query. Reply with only the rewritten query, one line, no commentary.''"

definition evaluator_prompt :: string where
  "evaluator_prompt = ''You judge whether the passages below are sufficient to answer the query. Reply with exactly one word: SUFFICIENT or INSUFFICIENT.''"

definition evaluator_verdicts :: "string list" where
  "evaluator_verdicts = [''SUFFICIENT'', ''INSUFFICIENT'']"

section \<open>Stages\<close>

definition rewrite :: "generate_port \<Rightarrow> uuid \<Rightarrow> string \<Rightarrow> tracing \<Rightarrow> string \<times> tracing" where
  "rewrite generate rid query = in_span ''rag.rewrite'' [] (\<lambda>t.
     case generate (plain_input rid [chat_message_of System rewrite_prompt, chat_message_of User query]) of
       Inl _ \<Rightarrow> (query, set_attribute ''rag.rewrite_outcome'' (Some (AStr ''failed'')) t)
     | Inr r \<Rightarrow>
         (let rewritten = py_strip (pr_content r) in
          (if rewritten \<noteq> [] then rewritten else query,
           set_attribute ''rag.rewrite_outcome''
             (Some (AStr (if rewritten \<noteq> [] then ''rewritten'' else ''unchanged''))) t)))"

text \<open>\<open>candidates[index]\<close>: a negative index counts from the end, out of range raises.\<close>

definition py_index :: "'a list \<Rightarrow> int \<Rightarrow> 'a option" where
  "py_index xs i = (if 0 \<le> i \<and> i < ilen xs then Some (xs ! nat i)
     else if - ilen xs \<le> i \<and> i < 0 then Some (xs ! nat (ilen xs + i)) else None)"

fun pick_chunks :: "retrieved_chunk list \<Rightarrow> ranked_document list \<Rightarrow> (exn, ranked_chunk list) result" where
  "pick_chunks candidates [] = Inr []"
| "pick_chunks candidates (d # ds) = (case py_index candidates (rd_index d) of
     None \<Rightarrow> Inl (Other_Error ''IndexError'' ''list index out of range'')
   | Some c \<Rightarrow> bind_result (pick_chunks candidates ds)
       (\<lambda>cs. Inr (\<lparr>rk_chunk = c, rk_rank = rd_rank d\<rparr> # cs)))"

definition fallback_chunks :: "retrieved_chunk list \<Rightarrow> int \<Rightarrow> ranked_chunk list" where
  "fallback_chunks candidates top_n =
     (let kept = py_first_n top_n candidates in
      map (\<lambda>(i, c). \<lparr>rk_chunk = c, rk_rank = int i + 1\<rparr>) (zip [0..<length kept] kept))"

definition rerank_stage ::
  "reranker \<Rightarrow> string \<Rightarrow> retrieved_chunk list \<Rightarrow> int \<Rightarrow> tracing
   \<Rightarrow> (exn, ranked_chunk list \<times> bool) result \<times> tracing" where
  "rerank_stage rerank query candidates top_n =
     in_span ''rag.rerank'' [(''rag.top_n'', Some (AInt top_n))] (\<lambda>t.
       case rerank \<lparr>rrq_query = query, rrq_documents = map rc_text candidates, rrq_top_n = Some top_n\<rparr> of
         Inl (Unnormalized e) \<Rightarrow> (Inl e, t)
       | Inl _ \<Rightarrow>
           (let chunks = fallback_chunks candidates top_n in
            (Inr (chunks, True),
             set_attribute ''rag.ranked_count'' (Some (AInt (ilen chunks)))
               (set_attribute ''rag.fallback_used'' (Some (ABool True)) t)))
       | Inr ranked \<Rightarrow>
           (case pick_chunks candidates (sort_key rd_rank ranked) of
              Inl e \<Rightarrow> (Inl e, t)
            | Inr chunks \<Rightarrow>
                (Inr (chunks, False),
                 set_attribute ''rag.ranked_count'' (Some (AInt (ilen chunks)))
                   (set_attribute ''rag.fallback_used'' (Some (ABool False)) t))))"

definition evaluate :: "generate_port \<Rightarrow> uuid \<Rightarrow> string \<Rightarrow> ranked_chunk list \<Rightarrow> tracing \<Rightarrow> string option \<times> tracing" where
  "evaluate generate rid query chunks =
     in_span ''rag.evaluate'' [(''rag.evaluator_triggered'', Some (ABool True))] (\<lambda>t.
       case generate (plain_input rid [chat_message_of System evaluator_prompt,
              chat_message_of User (''Query: '' @ query @ nl @ nl @ ''Passages:'' @ nl
                @ py_join (nl @ nl) (map (\<lambda>k. rc_text (rk_chunk k)) chunks))]) of
         Inl _ \<Rightarrow> (None, set_attribute ''rag.evaluate_outcome'' (Some (AStr ''failed'')) t)
       | Inr r \<Rightarrow>
           (let verdict = py_upper (py_strip (pr_content r)) in
            (if verdict \<noteq> [] then Some verdict else None,
             set_attribute ''rag.evaluator_verdict''
               (if verdict \<in> set evaluator_verdicts then Some (AStr verdict)
                else if verdict \<noteq> [] then Some (AStr ''unrecognized'') else None)
               (set_attribute ''rag.evaluate_outcome''
                 (Some (AStr (if verdict \<noteq> [] then ''verdict'' else ''empty''))) t))))"

definition search_stage ::
  "pipeline_config \<Rightarrow> (string \<Rightarrow> (exn, 'v) result) \<Rightarrow> (string \<Rightarrow> 'v \<Rightarrow> int \<Rightarrow> (exn, retrieved_chunk list) result)
   \<Rightarrow> string \<Rightarrow> tracing \<Rightarrow> (exn, retrieved_chunk list) result \<times> tracing" where
  "search_stage cfg emb search rewritten =
     in_span ''rag.retrieve'' [(''rag.top_k_candidates'', Some (AInt (pc_top_k_candidates cfg)))] (\<lambda>t.
       case bind_result (emb rewritten) (\<lambda>v. search rewritten v (pc_top_k_candidates cfg)) of
         Inl e \<Rightarrow> (Inl e, t)
       | Inr candidates \<Rightarrow>
           (Inr candidates,
            set_attribute ''rag.retrieval_outcome''
              (Some (AStr (if candidates \<noteq> [] then ''candidates'' else ''empty'')))
              (set_attribute ''rag.candidate_count'' (Some (AInt (ilen candidates))) t)))"

section \<open>The pipeline\<close>

definition retrieve ::
  "pipeline_config \<Rightarrow> generate_port \<Rightarrow> (string \<Rightarrow> (exn, 'v) result)
   \<Rightarrow> (string \<Rightarrow> 'v \<Rightarrow> int \<Rightarrow> (exn, retrieved_chunk list) result) \<Rightarrow> reranker
   \<Rightarrow> uuid \<Rightarrow> string \<Rightarrow> int option \<Rightarrow> tracing \<Rightarrow> (exn, pipeline_result) result \<times> tracing" where
  "retrieve cfg generate emb search rerank rid query top_n t =
     (let effective_top_n = (case top_n of Some n \<Rightarrow> n | None \<Rightarrow> pc_top_n cfg);
          (rewritten, t1) = rewrite generate rid query t
      in case search_stage cfg emb search rewritten t1 of
           (Inl e, t2) \<Rightarrow> (Inl e, t2)
         | (Inr candidates, t2) \<Rightarrow>
             if candidates = []
             then (Inr \<lparr>rp_request = rid, rp_query = query, rp_rewritten = rewritten, rp_chunks = [],
                        rp_fallback = False, rp_evaluator_triggered = False, rp_verdict = None\<rparr>, t2)
             else (case rerank_stage rerank rewritten candidates effective_top_n t2 of
                 (Inl e, t3) \<Rightarrow> (Inl e, t3)
               | (Inr (chunks, fallback), t3) \<Rightarrow>
                   (let triggered = ilen chunks < pc_min_reranked cfg;
                        (verdict, t4) = (if triggered then evaluate generate rid rewritten chunks t3
                          else (None, t3))
                    in (Inr \<lparr>rp_request = rid, rp_query = query, rp_rewritten = rewritten,
                             rp_chunks = chunks, rp_fallback = fallback,
                             rp_evaluator_triggered = triggered, rp_verdict = verdict\<rparr>, t4))))"

section \<open>What the stages return\<close>

lemma fst_in_span_cong:
  "(\<And>u. fst (body u) = r) \<Longrightarrow> fst (in_span name attrs body t) = r"
  by (rule fst_in_span)

definition rewritten_query :: "generate_port \<Rightarrow> uuid \<Rightarrow> string \<Rightarrow> string" where
  "rewritten_query generate rid query =
     (case generate (plain_input rid [chat_message_of System rewrite_prompt, chat_message_of User query]) of
        Inl _ \<Rightarrow> query
      | Inr r \<Rightarrow> if py_strip (pr_content r) \<noteq> [] then py_strip (pr_content r) else query)"

lemma fst_rewrite: "fst (rewrite generate rid query t) = rewritten_query generate rid query"
  unfolding rewrite_def
  by (rule fst_in_span_cong) (simp add: rewritten_query_def Let_def split: sum.split)

lemma fst_search_stage:
  "fst (search_stage cfg emb search q t) = bind_result (emb q) (\<lambda>v. search q v (pc_top_k_candidates cfg))"
  unfolding search_stage_def
  by (rule fst_in_span_cong) (simp split: sum.split)

definition rerank_outcome ::
  "reranker \<Rightarrow> string \<Rightarrow> retrieved_chunk list \<Rightarrow> int \<Rightarrow> (exn, ranked_chunk list \<times> bool) result" where
  "rerank_outcome rerank query candidates top_n =
     (case rerank \<lparr>rrq_query = query, rrq_documents = map rc_text candidates, rrq_top_n = Some top_n\<rparr> of
        Inl (Unnormalized e) \<Rightarrow> Inl e
      | Inl _ \<Rightarrow> Inr (fallback_chunks candidates top_n, True)
      | Inr ranked \<Rightarrow> bind_result (pick_chunks candidates (sort_key rd_rank ranked)) (\<lambda>cs. Inr (cs, False)))"

lemma fst_rerank_stage:
  "fst (rerank_stage rerank query candidates top_n t) = rerank_outcome rerank query candidates top_n"
  unfolding rerank_stage_def
  by (rule fst_in_span_cong)
     (simp add: rerank_outcome_def Let_def split: sum.split rerank_exn.split)

lemma pick_chunks_in_range:
  assumes "\<forall>d \<in> set ds. 0 \<le> rd_index d \<and> rd_index d < ilen candidates"
  shows "pick_chunks candidates ds =
    Inr (map (\<lambda>d. \<lparr>rk_chunk = candidates ! nat (rd_index d), rk_rank = rd_rank d\<rparr>) ds)"
  using assms by (induction ds) (simp_all add: py_index_def)

lemma fallback_chunks_ok:
  "k \<in> set (fallback_chunks candidates n) \<Longrightarrow> rk_chunk k \<in> set candidates"
  "map rk_rank (fallback_chunks candidates n) = map (\<lambda>i. int i + 1) [0..<length (py_first_n n candidates)]"
proof -
  show "k \<in> set (fallback_chunks candidates n) \<Longrightarrow> rk_chunk k \<in> set candidates"
    using set_mono_prefix [OF py_first_n_prefix [of n candidates]]
    by (auto simp: fallback_chunks_def Let_def dest!: set_zip_rightD)
  show "map rk_rank (fallback_chunks candidates n) = map (\<lambda>i. int i + 1) [0..<length (py_first_n n candidates)]"
    by (rule nth_equalityI) (auto simp: fallback_chunks_def Let_def)
qed

lemma fallback_chunks_sorted: "sorted_wrt (<) (map rk_rank (fallback_chunks candidates n))"
  by (simp add: fallback_chunks_ok(2) sorted_wrt_iff_nth_less)

section \<open>Over any reranker that keeps the contract\<close>

context reranker_contract begin

lemma rerank_outcome_ok:
  assumes "rerank_outcome rerank query candidates n = Inr (chunks, fb)"
  shows "(\<forall>k \<in> set chunks. rk_chunk k \<in> set candidates) \<and> sorted_wrt (<) (map rk_rank chunks)
    \<and> (fb \<longrightarrow> chunks = fallback_chunks candidates n)"
proof -
  define q where "q = \<lparr>rrq_query = query, rrq_documents = map rc_text candidates, rrq_top_n = Some n\<rparr>"
  show ?thesis
  proof (cases "rerank q")
    case (Inl e)
    with assms fallback_chunks_ok(1) fallback_chunks_sorted show ?thesis
      by (auto simp: rerank_outcome_def q_def split: rerank_exn.splits)
  next
    case (Inr ds)
    have idx: "\<forall>d \<in> set ds. 0 \<le> rd_index d \<and> rd_index d < ilen candidates"
      using index_range [OF Inr] by (simp add: q_def)
    have strict: "sorted_wrt (<) (map rd_rank ds)" by (rule ranks_strict [OF Inr])
    then have "sorted (map rd_rank ds)" by (simp add: strict_sorted_iff)
    then have "sort_key rd_rank ds = ds" by (rule sort_key_id_if_sorted)
    with assms Inr idx
    have chunks: "chunks = map (\<lambda>d. \<lparr>rk_chunk = candidates ! nat (rd_index d), rk_rank = rd_rank d\<rparr>) ds"
      and "\<not> fb"
      by (auto simp: rerank_outcome_def q_def pick_chunks_in_range)
    moreover have "candidates ! nat (rd_index d) \<in> set candidates" if "d \<in> set ds" for d
      using idx that by (auto simp: ilen_def intro!: nth_mem)
    ultimately show ?thesis using strict by (auto simp: chunks o_def)
  qed
qed

lemma rerank_outcome_total:
  assumes "\<And>q e. rerank q \<noteq> Inl (Unnormalized e)"
  shows "\<exists>r. rerank_outcome rerank query candidates n = Inr r"
proof -
  define q where "q = \<lparr>rrq_query = query, rrq_documents = map rc_text candidates, rrq_top_n = Some n\<rparr>"
  show ?thesis
  proof (cases "rerank q")
    case (Inl e)
    with assms [of q] show ?thesis by (cases e) (auto simp: rerank_outcome_def q_def)
  next
    case (Inr ds)
    have "\<forall>d \<in> set (sort_key rd_rank ds). 0 \<le> rd_index d \<and> rd_index d < ilen candidates"
      using index_range [OF Inr] by (simp add: q_def)
    from pick_chunks_in_range [OF this] Inr show ?thesis
      by (simp add: rerank_outcome_def q_def) blast
  qed
qed

lemma few_candidates_fall_back:
  assumes "ilen candidates < n"
  shows "rerank_outcome rerank query candidates n = Inr (fallback_chunks candidates n, True)"
  using top_n_range [of "\<lparr>rrq_query = query, rrq_documents = map rc_text candidates, rrq_top_n = Some n\<rparr>" n] assms
  by (auto simp: rerank_outcome_def)

end

lemma retrieve_Inr:
  assumes "bind_result (emb (rewritten_query generate rid query))
      (\<lambda>v. search (rewritten_query generate rid query) v (pc_top_k_candidates cfg)) = Inr candidates"
    and "candidates \<noteq> []"
    and "rerank_outcome rerank (rewritten_query generate rid query) candidates
      (case top_n of Some n \<Rightarrow> n | None \<Rightarrow> pc_top_n cfg) = Inr (chunks, fb)"
  shows "\<exists>res. fst (retrieve cfg generate emb search rerank rid query top_n t) = Inr res
    \<and> rp_chunks res = chunks \<and> rp_fallback res = fb \<and> rp_rewritten res = rewritten_query generate rid query
    \<and> (rp_evaluator_triggered res \<longleftrightarrow> ilen chunks < pc_min_reranked cfg)"
proof -
  obtain w t1 where rw: "rewrite generate rid query t = (w, t1)" by (cases "rewrite generate rid query t")
  have w: "w = rewritten_query generate rid query" using fst_rewrite [of generate rid query t] rw by simp
  obtain t2 where s: "search_stage cfg emb search w t1 = (Inr candidates, t2)"
    using fst_search_stage [of cfg emb search w t1] assms(1) w by (metis prod.collapse)
  let ?n = "case top_n of Some n \<Rightarrow> n | None \<Rightarrow> pc_top_n cfg"
  obtain t3 where r: "rerank_stage rerank w candidates ?n t2 = (Inr (chunks, fb), t3)"
    using fst_rerank_stage [of rerank w candidates ?n t2] assms(3) w by (metis prod.collapse)
  show ?thesis
    using assms(2)
    by (simp add: retrieve_def rw [unfolded w] s [unfolded w] r [unfolded w] Let_def split: prod.split)
qed

lemma retrieve_none_found:
  assumes "bind_result (emb (rewritten_query generate rid query))
      (\<lambda>v. search (rewritten_query generate rid query) v (pc_top_k_candidates cfg)) = Inr []"
  shows "\<exists>res. fst (retrieve cfg generate emb search rerank rid query top_n t) = Inr res
    \<and> rp_chunks res = [] \<and> \<not> rp_fallback res"
proof -
  obtain w t1 where rw: "rewrite generate rid query t = (w, t1)" by (cases "rewrite generate rid query t")
  have w: "w = rewritten_query generate rid query" using fst_rewrite [of generate rid query t] rw by simp
  obtain t2 where s: "search_stage cfg emb search w t1 = (Inr [], t2)"
    using fst_search_stage [of cfg emb search w t1] assms w by (metis prod.collapse)
  show ?thesis by (simp add: retrieve_def rw [unfolded w] s [unfolded w])
qed

lemma fallback_chunks_chunks [simp]: "map rk_chunk (fallback_chunks candidates n) = py_first_n n candidates"
  by (rule nth_equalityI) (auto simp: fallback_chunks_def Let_def)

lemma retrieve_cases:
  assumes "fst (retrieve cfg generate emb search rerank rid query top_n t) = Inr res"
  obtains candidates where
    "bind_result (emb (rewritten_query generate rid query))
      (\<lambda>v. search (rewritten_query generate rid query) v (pc_top_k_candidates cfg)) = Inr candidates"
    "(candidates = [] \<and> rp_chunks res = [] \<and> \<not> rp_fallback res)
     \<or> rerank_outcome rerank (rewritten_query generate rid query) candidates
         (case top_n of Some n \<Rightarrow> n | None \<Rightarrow> pc_top_n cfg) = Inr (rp_chunks res, rp_fallback res)"
proof -
  obtain w t1 where rw: "rewrite generate rid query t = (w, t1)" by (cases "rewrite generate rid query t")
  have w: "w = rewritten_query generate rid query" using fst_rewrite [of generate rid query t] rw by simp
  obtain sr t2 where s: "search_stage cfg emb search w t1 = (sr, t2)" by (cases "search_stage cfg emb search w t1")
  have sr: "sr = bind_result (emb w) (\<lambda>v. search w v (pc_top_k_candidates cfg))"
    using fst_search_stage [of cfg emb search w t1] s by simp
  show ?thesis
  proof (cases sr)
    case (Inl e)
    with assms rw s show ?thesis by (simp add: retrieve_def)
  next
    case (Inr candidates)
    let ?n = "case top_n of Some n \<Rightarrow> n | None \<Rightarrow> pc_top_n cfg"
    obtain rr t3 where r: "rerank_stage rerank w candidates ?n t2 = (rr, t3)"
      by (cases "rerank_stage rerank w candidates ?n t2")
    have rr: "rr = rerank_outcome rerank w candidates ?n"
      using fst_rerank_stage [of rerank w candidates ?n t2] r by simp
    show ?thesis
    proof (cases "candidates = []")
      case True
      with assms rw s Inr have "rp_chunks res = [] \<and> \<not> rp_fallback res"
        by (auto simp: retrieve_def)
      with True sr Inr w show ?thesis by (intro that [of candidates]) auto
    next
      case False
      show ?thesis
      proof (cases rr)
        case (Inl e)
        with assms rw s r Inr False show ?thesis by (simp add: retrieve_def s [unfolded Inr])
      next
        case (Inr cf)
        obtain chunks fb where cf: "cf = (chunks, fb)" by (cases cf)
        have "rp_chunks res = chunks \<and> rp_fallback res = fb"
          using assms False
          by (auto simp: retrieve_def rw s \<open>sr = Inr candidates\<close> r Inr cf Let_def
              split: if_splits prod.splits)
        then show ?thesis using sr \<open>sr = Inr candidates\<close> w rr Inr cf by (intro that [of candidates]) auto
      qed
    qed
  qed
qed

section \<open>What the spans carry\<close>

definition pipeline_words :: "string list" where
  "pipeline_words = [''failed'', ''rewritten'', ''unchanged'', ''candidates'', ''empty'', ''verdict'',
     ''unrecognized'', ''SUFFICIENT'', ''INSUFFICIENT'']"

definition content_free :: "attr \<Rightarrow> bool" where
  "content_free a = (case a of AStr s \<Rightarrow> s \<in> set pipeline_words | _ \<Rightarrow> True)"

lemma content_free_simps [simp]:
  "content_free (AInt i)" "content_free (ABool b)" "content_free (AStr s) \<longleftrightarrow> s \<in> set pipeline_words"
  by (simp_all add: content_free_def)

lemma rewrite_content_free:
  "trace_ok content_free t \<Longrightarrow> trace_ok content_free (snd (rewrite generate rid query t))"
  unfolding rewrite_def
  by (rule trace_ok_in_span)
     (auto simp: Let_def pipeline_words_def split: sum.splits intro!: trace_ok_set_attribute)

lemma search_content_free:
  "trace_ok content_free t \<Longrightarrow> trace_ok content_free (snd (search_stage cfg emb search q t))"
  unfolding search_stage_def
  by (rule trace_ok_in_span)
     (auto simp: pipeline_words_def split: sum.splits intro!: trace_ok_set_attribute)

lemma rerank_content_free:
  "trace_ok content_free t \<Longrightarrow> trace_ok content_free (snd (rerank_stage rerank q cs n t))"
  unfolding rerank_stage_def
  by (rule trace_ok_in_span)
     (auto simp: Let_def split: sum.splits rerank_exn.splits intro!: trace_ok_set_attribute)

lemma evaluate_content_free:
  "trace_ok content_free t \<Longrightarrow> trace_ok content_free (snd (evaluate generate rid q cs t))"
  unfolding evaluate_def
  by (rule trace_ok_in_span)
     (auto simp: Let_def pipeline_words_def evaluator_verdicts_def
        split: sum.splits if_splits intro!: trace_ok_set_attribute)

lemma retrieve_content_free:
  assumes "trace_ok content_free t"
  shows "trace_ok content_free (snd (retrieve cfg generate emb search rerank rid query top_n t))"
proof -
  obtain w t1 where rw: "rewrite generate rid query t = (w, t1)" by (cases "rewrite generate rid query t")
  obtain sr t2 where s: "search_stage cfg emb search w t1 = (sr, t2)" by (cases "search_stage cfg emb search w t1")
  have t2: "trace_ok content_free t2"
    using rewrite_content_free [OF assms, of generate rid query] search_content_free [of t1 cfg emb search w] rw s
    by simp
  have t3: "trace_ok content_free t3" if "rerank_stage rerank w cs n t2 = (x, t3)" for cs n x t3
    using rerank_content_free [OF t2, of rerank w cs n] that by simp
  have t4: "trace_ok content_free t4" if "evaluate generate rid w cs t3 = (x, t4)" "trace_ok content_free t3" for cs x t3 t4
    using evaluate_content_free [OF that(2), of generate rid w cs] that(1) by simp
  show ?thesis
    using t2 by (auto simp: retrieve_def rw s Let_def split: sum.splits prod.splits if_splits dest: t3 t4)
qed

section \<open>Properties\<close>


text \<open>C7: when the store finds fewer candidates than the requested number of results, the production
  pipeline never ranks them: the range check on \<open>top_n\<close> in the primary adapter fails, the cascade does not
  try the fallback, and the candidates come back in the order of the store, flagged as a fallback.\<close>

theorem few_candidates_never_reranked:
  assumes "emb (rewritten_query generate rid query) = Inr v"
    and "search (rewritten_query generate rid query) v (pc_top_k_candidates cfg) = Inr candidates"
    and "candidates \<noteq> []" and "ilen candidates < pc_top_n cfg"
  shows "\<exists>res. fst (retrieve cfg generate emb search (build_reranker rcfg sv) rid query None t) = Inr res
    \<and> rp_fallback res \<and> map rk_chunk (rp_chunks res) = candidates"
proof -
  have found: "bind_result (emb (rewritten_query generate rid query))
      (\<lambda>v. search (rewritten_query generate rid query) v (pc_top_k_candidates cfg)) = Inr candidates"
    using assms by simp
  have r: "rerank_outcome (build_reranker rcfg sv) (rewritten_query generate rid query) candidates
      (case None of Some n \<Rightarrow> n | None \<Rightarrow> pc_top_n cfg) = Inr (fallback_chunks candidates (pc_top_n cfg), True)"
    using production.few_candidates_fall_back [OF assms(4)] by simp
  have "py_first_n (pc_top_n cfg) candidates = candidates"
    using assms(4) by (simp add: py_first_n_def ilen_def)
  moreover obtain res where "fst (retrieve cfg generate emb search (build_reranker rcfg sv) rid query None t) = Inr res"
      "rp_chunks res = fallback_chunks candidates (pc_top_n cfg)" "rp_fallback res"
    using retrieve_Inr [where top_n = None and t = t and generate = generate and rid = rid and query = query and emb = emb and search = search and cfg = cfg, OF found assms(3) r] by blast
  ultimately show ?thesis by auto
qed


section \<open>Witnesses\<close>

definition example_pipeline :: pipeline_config where
  "example_pipeline = \<lparr>pc_top_k_candidates = 20, pc_top_n = 5, pc_min_reranked = 5\<rparr>"

definition silent_provider :: generate_port where
  "silent_provider i = Inl Timeout_Error"

definition example_chunks :: "retrieved_chunk list" where
  "example_chunks = [\<lparr>rc_chunk_id = 1, rc_document_id = 7, rc_text = ''alpha''\<rparr>,
     \<lparr>rc_chunk_id = 2, rc_document_id = 7, rc_text = ''beta''\<rparr>]"

abbreviation example_embed :: "string \<Rightarrow> (exn, unit) result" where
  "example_embed \<equiv> \<lambda>_. Inr ()"

abbreviation example_search :: "string \<Rightarrow> unit \<Rightarrow> int \<Rightarrow> (exn, retrieved_chunk list) result" where
  "example_search \<equiv> \<lambda>_ _ _. Inr example_chunks"

abbreviation tracing_on :: tracing where
  "tracing_on \<equiv> \<lparr>tr_active = True, tr_events = [], tr_rejected = []\<rparr>"


theorem few_candidates_never_reranked_witness:
  "\<exists>res. fst (retrieve example_pipeline silent_provider example_embed example_search
      (build_reranker example_settings example_services) 1 ''q'' None tracing_on) = Inr res
    \<and> rp_fallback res \<and> map rk_chunk (rp_chunks res) = example_chunks"
  using few_candidates_never_reranked [of example_embed silent_provider 1 "''q''" "()" example_search
      example_pipeline example_chunks example_settings example_services tracing_on]
  by (simp add: example_chunks_def example_pipeline_def ilen_def)


end
