(* ===== verification/Rag.thy ===== *)
theory Rag imports Pipeline begin

text \<open>
  Documental context of one chat request (\<open>app/core/domain/rag_generation.py\<close>): the sources a
  retrieval result is cut down to, under three bounds, and the classification of what the channel
  did. \<open>augment\<close> takes what \<open>asyncio.wait_for\<close> over the pipeline answered. The lemmas show the
  bounds, the numbering of the citations and that sources are prefixes of found chunks.
\<close>

record rag_source =
  sr_citation :: string
  sr_document :: uuid
  sr_chunk :: uuid
  sr_rank :: int
  sr_content :: string
  sr_truncated :: bool

definition source_dict :: "rag_source \<Rightarrow> json" where
  "source_dict s = JObj [
     (''citation'', JStr (sr_citation s)), (''document_id'', JStr (uuid_str (sr_document s))),
     (''chunk_id'', JStr (uuid_str (sr_chunk s))), (''rank'', JInt (sr_rank s)),
     (''truncated'', JBool (sr_truncated s)), (''content'', JStr (sr_content s))]"

definition rag_schema_version :: string where
  "rag_schema_version = ''rag-generation-v1''"

datatype retrieval_outcome =
  Retrieval_skipped | Retrieval_ok | Retrieval_empty | Retrieval_timeout | Retrieval_error

definition retrieval_outcome_text :: "retrieval_outcome \<Rightarrow> string" where
  "retrieval_outcome_text r = (case r of
     Retrieval_skipped \<Rightarrow> ''skipped'' | Retrieval_ok \<Rightarrow> ''ok'' | Retrieval_empty \<Rightarrow> ''empty''
   | Retrieval_timeout \<Rightarrow> ''timeout'' | Retrieval_error \<Rightarrow> ''error'')"

record rag_context =
  rg_sources :: "rag_source list"
  rg_outcome :: "retrieval_outcome option"

definition no_rag :: rag_context where
  "no_rag = \<lparr>rg_sources = [], rg_outcome = None\<rparr>"

definition rag_metadata :: "rag_context \<Rightarrow> (string \<times> json) list option" where
  "rag_metadata c =
     (if rg_sources c = [] then None
      else Some [(''rag'', JObj [(''schema_version'', JStr rag_schema_version),
                   (''sources'', JArr (map source_dict (rg_sources c)))])])"

record rag_bounds =
  rb_max_sources :: int
  rb_max_source_chars :: int
  rb_max_context_chars :: int

definition citation_of :: "nat \<Rightarrow> string" where
  "citation_of n = CHR ''S'' # nat_dec n"

definition take_source :: "rag_bounds \<Rightarrow> nat \<Rightarrow> int \<Rightarrow> ranked_chunk \<Rightarrow> rag_source option" where
  "take_source b n remaining k =
     (let original = rc_text (rk_chunk k);
          content = py_first_n (min (rb_max_source_chars b) remaining) original
      in if original = [] \<or> content = [] then None
         else Some \<lparr>sr_citation = citation_of (n + 1), sr_document = rc_document_id (rk_chunk k),
                sr_chunk = rc_chunk_id (rk_chunk k), sr_rank = rk_rank k, sr_content = content,
                sr_truncated = (ilen content < ilen original)\<rparr>)"

fun retain_sources :: "rag_bounds \<Rightarrow> rag_source list \<Rightarrow> int \<Rightarrow> ranked_chunk list \<Rightarrow> rag_source list" where
  "retain_sources b retained remaining [] = retained"
| "retain_sources b retained remaining (k # ks) =
     (if ilen retained \<ge> rb_max_sources b \<or> remaining \<le> 0 then retained
      else (case take_source b (length retained) remaining k of
              None \<Rightarrow> retain_sources b retained remaining ks
            | Some s \<Rightarrow> retain_sources b (retained @ [s]) (remaining - ilen (sr_content s)) ks))"

definition augment :: "rag_bounds \<Rightarrow> (exn, pipeline_result) result \<Rightarrow> rag_context" where
  "augment b outcome = (case outcome of
     Inl Timeout_Error \<Rightarrow> \<lparr>rg_sources = [], rg_outcome = Some Retrieval_timeout\<rparr>
   | Inl _ \<Rightarrow> \<lparr>rg_sources = [], rg_outcome = Some Retrieval_error\<rparr>
   | Inr r \<Rightarrow>
       (let retained = retain_sources b [] (rb_max_context_chars b) (sort_key rk_rank (rp_chunks r))
        in \<lparr>rg_sources = retained,
            rg_outcome = Some (if retained \<noteq> [] then Retrieval_ok else Retrieval_empty)\<rparr>))"

section \<open>Bounds and citations\<close>

text \<open>Citations read S1, S2, ... without a gap.\<close>

definition cited :: "rag_source list \<Rightarrow> bool" where
  "cited ss = (\<forall>i < length ss. sr_citation (ss ! i) = citation_of (i + 1))"

definition source_chars :: "rag_source list \<Rightarrow> int" where
  "source_chars ss = sum_list (map (\<lambda>s. ilen (sr_content s)) ss)"

lemma source_chars_simps [simp]:
  "source_chars [] = 0" "source_chars (ss @ us) = source_chars ss + source_chars us"
  "source_chars (s # ss) = ilen (sr_content s) + source_chars ss"
  by (simp_all add: source_chars_def)

lemma cited_Nil [simp]: "cited []"
  by (simp add: cited_def)

lemma cited_snoc: "cited ss \<Longrightarrow> sr_citation s = citation_of (length ss + 1) \<Longrightarrow> cited (ss @ [s])"
  by (auto simp: cited_def nth_append less_Suc_eq)

lemma cited_prefix: "cited ss \<Longrightarrow> prefix us ss \<Longrightarrow> cited us"
  unfolding cited_def prefix_def by (metis length_append nth_append trans_less_add1)

text \<open>What the loop adds comes from the chunks it reads.\<close>

definition from_chunk :: "ranked_chunk list \<Rightarrow> rag_source \<Rightarrow> bool" where
  "from_chunk ks s = (\<exists>k \<in> set ks. sr_document s = rc_document_id (rk_chunk k) \<and> sr_chunk s = rc_chunk_id (rk_chunk k)
     \<and> sr_rank s = rk_rank k \<and> prefix (sr_content s) (rc_text (rk_chunk k)) \<and> sr_content s \<noteq> []
     \<and> (sr_truncated s \<longleftrightarrow> sr_content s \<noteq> rc_text (rk_chunk k)))"

lemma from_chunk_mono: "from_chunk ks s \<Longrightarrow> from_chunk (k # ks) s"
  by (auto simp: from_chunk_def)

lemma ilen_prefix_eq: "prefix xs ys \<Longrightarrow> ilen xs < ilen ys \<longleftrightarrow> xs \<noteq> ys"
  by (auto simp: prefix_def ilen_def)

lemma ilen_py_first_n_le: "0 \<le> n \<Longrightarrow> ilen (py_first_n n xs) \<le> n"
  by (simp add: ilen_py_first_n)

lemma take_source_SomeD:
  assumes "take_source b n remaining k = Some s"
  shows "sr_citation s = citation_of (n + 1)" "from_chunk (k # ks) s"
    and "0 \<le> rb_max_source_chars b \<Longrightarrow> 0 \<le> remaining \<Longrightarrow>
      ilen (sr_content s) \<le> rb_max_source_chars b \<and> ilen (sr_content s) \<le> remaining"
proof -
  define content where "content = py_first_n (min (rb_max_source_chars b) remaining) (rc_text (rk_chunk k))"
  have s: "s = \<lparr>sr_citation = citation_of (n + 1), sr_document = rc_document_id (rk_chunk k),
                sr_chunk = rc_chunk_id (rk_chunk k), sr_rank = rk_rank k, sr_content = content,
                sr_truncated = (ilen content < ilen (rc_text (rk_chunk k)))\<rparr>" "content \<noteq> []"
    using assms by (auto simp: take_source_def content_def Let_def split: if_splits)
  have "prefix content (rc_text (rk_chunk k))" by (simp add: content_def py_first_n_prefix)
  with s show "sr_citation s = citation_of (n + 1)" "from_chunk (k # ks) s"
    by (auto simp: from_chunk_def ilen_prefix_eq)
  show "ilen (sr_content s) \<le> rb_max_source_chars b \<and> ilen (sr_content s) \<le> remaining"
    if "0 \<le> rb_max_source_chars b" "0 \<le> remaining"
    using ilen_py_first_n_le [of "min (rb_max_source_chars b) remaining" "rc_text (rk_chunk k)"] that s
    by (simp add: content_def)
qed

lemma retain_sources_cited: "cited retained \<Longrightarrow> cited (retain_sources b retained remaining ks)"
  by (induction b retained remaining ks rule: retain_sources.induct)
     (auto split: option.splits intro!: cited_snoc dest: take_source_SomeD(1))

lemma retain_sources_count:
  "ilen retained \<le> rb_max_sources b \<Longrightarrow> ilen (retain_sources b retained remaining ks) \<le> rb_max_sources b"
  by (induction b retained remaining ks rule: retain_sources.induct) (auto split: option.splits)

lemma retain_sources_chars:
  assumes "0 \<le> rb_max_source_chars b"
  shows "0 \<le> remaining \<Longrightarrow>
    source_chars (retain_sources b retained remaining ks) \<le> source_chars retained + remaining"
  using assms
proof (induction b retained remaining ks rule: retain_sources.induct)
  case (2 b retained remaining k ks)
  show ?case
  proof (cases "take_source b (length retained) remaining k")
    case (Some s)
    with 2 take_source_SomeD(3) [OF Some] show ?thesis by auto
  qed (use 2 in auto)
qed simp

lemma retain_sources_elems:
  assumes "s \<in> set (retain_sources b retained remaining ks)" "0 \<le> rb_max_source_chars b" "0 \<le> remaining"
  shows "s \<in> set retained \<or> from_chunk ks s \<and> ilen (sr_content s) \<le> rb_max_source_chars b"
  using assms
proof (induction b retained remaining ks rule: retain_sources.induct)
  case (2 b retained remaining k ks)
  show ?case
  proof (cases "ilen retained \<ge> rb_max_sources b \<or> remaining \<le> 0")
    case False
    show ?thesis
    proof (cases "take_source b (length retained) remaining k")
      case None
      with 2 False show ?thesis by (auto intro: from_chunk_mono)
    next
      case (Some u)
      with 2 False take_source_SomeD(2,3) [OF Some] show ?thesis by (fastforce intro: from_chunk_mono)
    qed
  qed (use 2 in auto)
qed simp

section \<open>Properties\<close>

text \<open>C9: the documental context of a request has at most the configured number of sources and
  characters, numbers its citations S1, S2, ... without a gap, and each source is a non-empty prefix of
  the text of a retrieved chunk with that chunk's identity and rank, flagged as truncated exactly when it
  is cut. A timeout or an error of retrieval yields no source and says which of the two it was.\<close>

theorem augmented_sources_bounded_and_cited:
  assumes "0 \<le> rb_max_sources b" "0 \<le> rb_max_source_chars b" "0 \<le> rb_max_context_chars b"
  shows "ilen (rg_sources (augment b out)) \<le> rb_max_sources b
    \<and> source_chars (rg_sources (augment b out)) \<le> rb_max_context_chars b
    \<and> cited (rg_sources (augment b out))
    \<and> (\<forall>s \<in> set (rg_sources (augment b out)). \<exists>r. out = Inr r \<and> from_chunk (rp_chunks r) s
         \<and> ilen (sr_content s) \<le> rb_max_source_chars b)
    \<and> (rg_outcome (augment b out) = Some Retrieval_timeout \<longleftrightarrow> out = Inl Timeout_Error)
    \<and> (rg_outcome (augment b out) = Some Retrieval_ok \<longleftrightarrow> rg_sources (augment b out) \<noteq> [])"
proof (cases out)
  case (Inl e)
  with assms show ?thesis by (cases e) (simp_all add: augment_def)
next
  case (Inr r)
  let ?ss = "retain_sources b [] (rb_max_context_chars b) (sort_key rk_rank (rp_chunks r))"
  have ss: "rg_sources (augment b out) = ?ss" "rg_outcome (augment b out) = Some (if ?ss \<noteq> [] then Retrieval_ok else Retrieval_empty)"
    using Inr by (simp_all add: augment_def Let_def)
  have "from_chunk (rp_chunks r) s \<and> ilen (sr_content s) \<le> rb_max_source_chars b" if "s \<in> set ?ss" for s
    using retain_sources_elems [OF that assms(2,3)] by (simp add: from_chunk_def)
  then show ?thesis
    using ss Inr assms retain_sources_cited [of "[]" b] retain_sources_count [of "[]" b]
      retain_sources_chars [of b "rb_max_context_chars b" "[]" "sort_key rk_rank (rp_chunks r)"]
    by auto
qed

definition example_result :: pipeline_result where
  "example_result = \<lparr>rp_request = 1, rp_query = ''q'', rp_rewritten = ''q'',
     rp_chunks = map (\<lambda>c. \<lparr>rk_chunk = c, rk_rank = int (rc_chunk_id c)\<rparr>) example_chunks,
     rp_fallback = False, rp_evaluator_triggered = True, rp_verdict = None\<rparr>"

theorem augmented_sources_witness:
  "cited (rg_sources (augment \<lparr>rb_max_sources = 2, rb_max_source_chars = 3, rb_max_context_chars = 10\<rparr> (Inr example_result)))
   \<and> map sr_content (rg_sources (augment \<lparr>rb_max_sources = 2, rb_max_source_chars = 3, rb_max_context_chars = 10\<rparr> (Inr example_result)))
     = [''alp'', ''bet'']"
proof -
  have "map sr_content (rg_sources (augment \<lparr>rb_max_sources = 2, rb_max_source_chars = 3, rb_max_context_chars = 10\<rparr> (Inr example_result)))
     = [''alp'', ''bet'']" by code_simp
  then show ?thesis
    using augmented_sources_bounded_and_cited
      [of "\<lparr>rb_max_sources = 2, rb_max_source_chars = 3, rb_max_context_chars = 10\<rparr>" "Inr example_result"] by simp
qed

end
