(* ===== verification/Ranking.thy ===== *)
theory Ranking imports Turns Json_Text Complex_Main "HOL-Library.Product_Lexorder" "HOL-Library.Multiset" begin

text \<open>
  The Mode B corpus (\<open>app/core/domain/retrieval_corpus.py\<close>) and its BM25 ranking and budgeted
  selection (\<open>bm25_ranking.py\<close>). Scores are over any ordered field with \<open>mlog\<close> for the logarithm, so
  rounding and the check for a finite score are not modelled; \<open>fold_text\<close> is NFKC normalization and
  case folding. The lemmas show that ranking is a sorted rearrangement that does not depend on the
  order of the corpus, and that selection keeps its bounds and skips only what does not fit.
\<close>

section \<open>Corpus\<close>

record corpus_event =
  ce_event_id :: int
  ce_unit :: turn_unit

definition event_text :: "corpus_event \<Rightarrow> string" where
  "event_text e = document_text (ce_unit e)"

definition corpus_of_partition :: "window_partition \<Rightarrow> corpus_event list" where
  "corpus_of_partition p = map (\<lambda>u. \<lparr>ce_event_id = first_sequence u, ce_unit = u\<rparr>) (wp_excluded_units p)"

section \<open>Tokens\<close>

definition bm25_query_token_cap :: nat where
  "bm25_query_token_cap = 256"

definition bm25_top_k :: nat where
  "bm25_top_k = 5"

definition word_char :: "char \<Rightarrow> bool" where
  "word_char c = (let n = code_point c in
     48 \<le> n \<and> n \<le> 57 \<or> 65 \<le> n \<and> n \<le> 90 \<or> 97 \<le> n \<and> n \<le> 122
     \<or> n \<in> {170, 178, 179, 181, 185, 186, 188, 189, 190}
     \<or> 192 \<le> n \<and> n \<noteq> 215 \<and> n \<noteq> 247)"

text \<open>\<open>re.findall(r"(?u)[^\W_]+", text)\<close>: the maximal runs of word characters.\<close>

function word_runs :: "string \<Rightarrow> string list" where
  "word_runs s = (case dropWhile (\<lambda>c. \<not> word_char c) s of [] \<Rightarrow> []
     | c # cs \<Rightarrow> takeWhile word_char (c # cs) # word_runs (dropWhile word_char cs))"
  by pat_completeness auto
termination
proof (relation "measure length")
  fix s c cs assume "dropWhile (\<lambda>c. \<not> word_char c) s = c # cs"
  then have "length (c # cs) \<le> length s" by (metis length_dropWhile_le)
  then show "(dropWhile word_char cs, s) \<in> measure length"
    using length_dropWhile_le [of word_char cs] by simp
qed simp

declare word_runs.simps [simp del]

definition lexical_tokens :: "(string \<Rightarrow> string) \<Rightarrow> string \<Rightarrow> string list" where
  "lexical_tokens fold_text text_in = word_runs (fold_text text_in)"

fun first_unique :: "'a list \<Rightarrow> 'a list \<Rightarrow> 'a list" where
  "first_unique seen [] = []"
| "first_unique seen (x # xs) =
     (if x \<in> set seen then first_unique seen xs else x # first_unique (x # seen) xs)"

definition query_tokens :: "(string \<Rightarrow> string) \<Rightarrow> string \<Rightarrow> string list" where
  "query_tokens fold_text text_in =
     take bm25_query_token_cap (first_unique [] (lexical_tokens fold_text text_in))"

section \<open>Ranking\<close>

record 'f ranked_event =
  re_event :: corpus_event
  re_score :: 'f

definition document_tokens :: "(string \<Rightarrow> string) \<Rightarrow> corpus_event list \<Rightarrow> (int \<times> string list) list" where
  "document_tokens fold_text events =
     foldl (\<lambda>d e. dict_put (ce_event_id e) (lexical_tokens fold_text (event_text e)) d) [] events"

definition total_length :: "(int \<times> string list) list \<Rightarrow> nat" where
  "total_length docs = sum_list (map (\<lambda>(i, ts). length ts) docs)"

definition document_frequency :: "(int \<times> string list) list \<Rightarrow> string \<Rightarrow> nat" where
  "document_frequency docs term = length (filter (\<lambda>(i, ts). term \<in> set ts) docs)"

definition term_score :: "('f::linordered_field \<Rightarrow> 'f) \<Rightarrow> 'f \<Rightarrow> 'f \<Rightarrow> 'f \<Rightarrow> 'f \<Rightarrow> 'f \<Rightarrow> 'f" where
  "term_score mlog n df tf len avg =
     (let k1 = 6 / 5; b = 3 / 4;
          idf = mlog (1 + (n - df + 1 / 2) / (df + 1 / 2));
          denominator = tf + k1 * (1 - b + b * len / avg)
      in idf * tf * (k1 + 1) / denominator)"

definition event_score ::
    "('f::linordered_field \<Rightarrow> 'f) \<Rightarrow> (int \<times> string list) list \<Rightarrow> nat \<Rightarrow> string list \<Rightarrow> string list \<Rightarrow> 'f" where
  "event_score mlog docs n_docs query tokens =
     (let avg = of_nat (total_length docs) / of_nat n_docs in
      sum_list (map (\<lambda>term.
        let tf = count_list tokens term in
        if tf = 0 then 0
        else term_score mlog (of_nat n_docs) (of_nat (document_frequency docs term)) (of_nat tf)
               (of_nat (length tokens)) avg) query))"

definition rank_events ::
    "('f::linordered_field \<Rightarrow> 'f) \<Rightarrow> (string \<Rightarrow> string) \<Rightarrow> corpus_event list \<Rightarrow> string list
     \<Rightarrow> (string, 'f ranked_event list) result" where
  "rank_events mlog fold_text events query =
     (if events = [] then Inr []
      else
        (let docs = document_tokens fold_text events in
         if total_length docs = 0 then Inl ''BM25 average document length is zero''
         else
           (let q = take bm25_query_token_cap query;
                ranked = map (\<lambda>e. \<lparr>re_event = e, re_score = event_score mlog docs (length events) q
                   (case map_of docs (ce_event_id e) of Some ts \<Rightarrow> ts | None \<Rightarrow> [])\<rparr>) events
            in Inr (sort_key (\<lambda>r. (- re_score r, ce_event_id (re_event r))) ranked))))"

section \<open>Selection\<close>

fun pack_events :: "int \<Rightarrow> int list \<Rightarrow> corpus_event list \<Rightarrow> int \<Rightarrow> corpus_event list \<Rightarrow> corpus_event list \<times> int" where
  "pack_events max_chars excluded accepted used [] = (accepted, used)"
| "pack_events max_chars excluded accepted used (e # es) =
     (if ce_event_id e \<in> set excluded then pack_events max_chars excluded accepted used es
      else if length accepted = bm25_top_k then (accepted, used)
      else
        (let size = ilen (event_text e) in
         if size \<le> max_chars - used
         then pack_events max_chars excluded (accepted @ [e]) (used + size) es
         else pack_events max_chars excluded accepted used es))"

definition pack_selected_events ::
    "'f ranked_event list \<Rightarrow> int \<Rightarrow> int list \<Rightarrow> corpus_event list \<times> int" where
  "pack_selected_events ranked max_chars excluded =
     pack_events max_chars excluded [] 0 (map re_event ranked)"

section \<open>Tokens of a query\<close>

lemma first_unique_props:
  "distinct (first_unique seen xs)" "set (first_unique seen xs) = set xs - set seen"
  by (induction xs arbitrary: seen) auto

lemma query_tokens_props:
  "distinct (query_tokens f t)" "length (query_tokens f t) \<le> bm25_query_token_cap"
  "set (query_tokens f t) \<subseteq> set (lexical_tokens f t)"
  using first_unique_props [of "[]" "lexical_tokens f t"]
  by (auto simp: query_tokens_def dest: in_set_takeD)

section \<open>The ranking does not depend on the order of the corpus\<close>

lemma foldl_dict_put_fresh:
  assumes "distinct (map f es)" "\<forall>e \<in> set es. f e \<notin> fst ` set d"
  shows "foldl (\<lambda>d e. dict_put (f e) (g e) d) d es = d @ map (\<lambda>e. (f e, g e)) es"
  using assms
proof (induction es arbitrary: d)
  case (Cons e es)
  have put: "dict_put (f e) (g e) d = d @ [(f e, g e)]" using Cons.prems by (simp add: dict_put_fresh)
  have "foldl (\<lambda>d e. dict_put (f e) (g e) d) (d @ [(f e, g e)]) es = (d @ [(f e, g e)]) @ map (\<lambda>e. (f e, g e)) es"
    by (rule Cons.IH) (use Cons.prems in \<open>auto, metis imageI\<close>)
  with put show ?case by simp
qed simp

lemma document_tokens_distinct:
  "distinct (map ce_event_id es) \<Longrightarrow>
     document_tokens f es = map (\<lambda>e. (ce_event_id e, lexical_tokens f (event_text e))) es"
  unfolding document_tokens_def
  by (subst foldl_dict_put_fresh [where f = ce_event_id and g = "\<lambda>e. lexical_tokens f (event_text e)"]) auto

lemma map_of_document_tokens:
  "distinct (map ce_event_id es) \<Longrightarrow> e \<in> set es \<Longrightarrow>
     map_of (document_tokens f es) (ce_event_id e) = Some (lexical_tokens f (event_text e))"
  by (simp add: document_tokens_distinct) (rule map_of_is_SomeI; auto simp: o_def)

lemma total_length_mset: "mset ds = mset ds' \<Longrightarrow> total_length ds = total_length ds'"
  by (simp add: total_length_def flip: sum_mset_sum_list) 

lemma document_frequency_mset: "mset ds = mset ds' \<Longrightarrow> document_frequency ds t = document_frequency ds' t"
  unfolding document_frequency_def by (simp only: mset_filter flip: size_mset)

lemma event_score_mset:
  "mset ds = mset ds' \<Longrightarrow> event_score mlog ds n q ts = event_score mlog ds' n q ts"
proof -
  assume m: "mset ds = mset ds'"
  have "document_frequency ds = document_frequency ds'"
    by (rule ext) (rule document_frequency_mset [OF m])
  then show ?thesis by (simp only: event_score_def total_length_mset [OF m])
qed

lemma sort_key_mset_unique:
  assumes "mset xs = mset ys" "distinct (map k xs)"
  shows "sort_key k xs = sort_key k ys"
proof -
  have set: "set xs = set ys" using assms(1) by (metis set_mset_mset)
  have d: "distinct (map k ys)"
    using assms by (metis distinct_map mset_eq_imp_distinct_iff set)
  show ?thesis
  proof (rule map_sorted_distinct_set_unique [where f = k])
    show "inj_on k (set (sort_key k xs) \<union> set (sort_key k ys))"
      using assms(2) set by (auto simp: distinct_map)
    show "distinct (map k (sort_key k xs))" "distinct (map k (sort_key k ys))"
      using assms(2) d by (auto simp: distinct_map)
    show "set (sort_key k xs) = set (sort_key k ys)" by (simp add: set)
  qed simp_all
qed

lemma rank_events_Inr:
  assumes "distinct (map ce_event_id es)" "es \<noteq> []" "total_length (document_tokens f es) \<noteq> 0"
  shows "rank_events mlog f es q = Inr (sort_key (\<lambda>r. (- re_score r, ce_event_id (re_event r)))
    (map (\<lambda>e. \<lparr>re_event = e, re_score = event_score mlog (document_tokens f es) (length es)
        (take bm25_query_token_cap q) (lexical_tokens f (event_text e))\<rparr>) es))"
  using assms by (simp add: rank_events_def Let_def map_of_document_tokens cong: map_cong)

lemma rank_events_mset:
  fixes mlog :: "'f::linordered_field \<Rightarrow> 'f"
  assumes "mset es = mset es'" "distinct (map ce_event_id es)"
  shows "rank_events mlog f es q = rank_events mlog f es' q"
proof (cases "es = []")
  case False
  have set: "set es = set es'" and len: "length es = length es'"
    using assms(1) by (metis set_mset_mset, metis size_mset)
  have d': "distinct (map ce_event_id es')"
    using assms set by (metis distinct_map mset_eq_imp_distinct_iff)
  have ne': "es' \<noteq> []" using False set by auto
  have docs: "mset (document_tokens f es) = mset (document_tokens f es')"
    using assms d' by (simp add: document_tokens_distinct)
  show ?thesis
  proof (cases "total_length (document_tokens f es) = 0")
    case True
    with False ne' total_length_mset [OF docs] show ?thesis by (simp add: rank_events_def Let_def)
  next
    case pos: False
    have pos': "total_length (document_tokens f es') \<noteq> 0" using pos total_length_mset [OF docs] by simp
    let ?k = "\<lambda>r :: 'f ranked_event. (- re_score r, ce_event_id (re_event r))"
    let ?g = "\<lambda>e. \<lparr>re_event = e, re_score = event_score mlog (document_tokens f es) (length es)
        (take bm25_query_token_cap q) (lexical_tokens f (event_text e))\<rparr>"
    have "distinct (map snd (map ?k (map ?g es)))"
      using assms(2) by (simp add: o_def)
    then have "distinct (map ?k (map ?g es))" unfolding distinct_map [of snd] by blast
    then have sorted: "sort_key ?k (map ?g es) = sort_key ?k (map ?g es')"
      using assms(1) by (intro sort_key_mset_unique) simp_all
    let ?g' = "\<lambda>e. \<lparr>re_event = e, re_score = event_score mlog (document_tokens f es') (length es')
        (take bm25_query_token_cap q) (lexical_tokens f (event_text e))\<rparr>"
    have "?g e = ?g' e" for e by (simp only: event_score_mset [OF docs] len)
    then have g: "map ?g es' = map ?g' es'" by (rule list.map_cong0)
    have "rank_events mlog f es q = Inr (sort_key ?k (map ?g es))"
      by (rule rank_events_Inr [OF assms(2) False pos])
    also have "\<dots> = Inr (sort_key ?k (map ?g' es'))" by (simp only: sorted g)
    also have "\<dots> = rank_events mlog f es' q"
      by (rule rank_events_Inr [OF d' ne' pos', symmetric])
    finally show ?thesis .
  qed
qed (use assms in simp)

section \<open>Ranked order\<close>

lemma rank_events_sorted:
  assumes "rank_events mlog f es q = Inr rs"
  shows "mset (map re_event rs) = mset es"
    and "sorted_wrt (\<lambda>a b. re_score b < re_score a
      \<or> re_score a = re_score b \<and> ce_event_id (re_event a) \<le> ce_event_id (re_event b)) rs"
proof -
  have "mset (map re_event rs) = mset es
    \<and> sorted (map (\<lambda>r. (- re_score r, ce_event_id (re_event r))) rs)"
    using assms by (auto simp: rank_events_def Let_def o_def multiset.map_comp split: if_splits)
  then show "mset (map re_event rs) = mset es"
    and "sorted_wrt (\<lambda>a b. re_score b < re_score a
      \<or> re_score a = re_score b \<and> ce_event_id (re_event a) \<le> ce_event_id (re_event b)) rs"
    by (auto simp: sorted_wrt_map less_eq_prod_def less_prod_def elim!: sorted_wrt_mono_rel [rotated])
qed

section \<open>Selection\<close>

definition events_size :: "corpus_event list \<Rightarrow> int" where
  "events_size es = sum_list (map (\<lambda>e. ilen (event_text e)) es)"

lemma events_size_simps [simp]:
  "events_size [] = 0" "events_size (es @ fs) = events_size es + events_size fs"
  "events_size (e # es) = ilen (event_text e) + events_size es"
  by (simp_all add: events_size_def)

text \<open>The four ways one event is handled.\<close>

lemma pack_events_step:
  obtains
    (skip) "pack_events mx ex acc used (e # es) = pack_events mx ex acc used es"
      "ce_event_id e \<in> set ex \<or> length acc \<noteq> bm25_top_k \<and> mx - used < ilen (event_text e)"
  | (full) "pack_events mx ex acc used (e # es) = (acc, used)" "length acc = bm25_top_k"
  | (accept) "pack_events mx ex acc used (e # es) = pack_events mx ex (acc @ [e]) (used + ilen (event_text e)) es"
      "ce_event_id e \<notin> set ex" "length acc \<noteq> bm25_top_k" "ilen (event_text e) \<le> mx - used"
proof -
  consider "ce_event_id e \<in> set ex" | "ce_event_id e \<notin> set ex" "length acc = bm25_top_k"
    | "ce_event_id e \<notin> set ex" "length acc \<noteq> bm25_top_k" "ilen (event_text e) \<le> mx - used"
    | "ce_event_id e \<notin> set ex" "length acc \<noteq> bm25_top_k" "\<not> ilen (event_text e) \<le> mx - used"
    by blast
  then show ?thesis
    by cases (auto intro: skip full accept simp: Let_def)
qed

lemma pack_events_mono:
  "pack_events mx ex acc used es = (sel, n) \<Longrightarrow> used \<le> n \<and> prefix acc sel"
proof (induction es arbitrary: acc used)
  case (Cons e es)
  show ?case
  proof (cases rule: pack_events_step [of mx ex acc used e es])
    case accept
    with Cons.IH [of "acc @ [e]" "used + ilen (event_text e)"] Cons.prems
    have "used + ilen (event_text e) \<le> n" "prefix (acc @ [e]) sel" by simp_all
    moreover have "0 \<le> ilen (event_text e)" by simp
    ultimately show ?thesis by (meson append_prefixD add_increasing2 order_trans le_add_same_cancel1)
  qed (use Cons in auto)
qed simp

lemma pack_events_ok:
  assumes "length acc \<le> bm25_top_k" "used = events_size acc" "used \<le> mx"
    and "\<forall>e \<in> set acc. ce_event_id e \<notin> set ex"
    and "pack_events mx ex acc used es = (sel, n)"
  shows "length sel \<le> bm25_top_k \<and> n = events_size sel \<and> n \<le> mx
    \<and> (\<forall>e \<in> set sel. ce_event_id e \<notin> set ex) \<and> subseq (drop (length acc) sel) es"
  using assms
proof (induction es arbitrary: acc used)
  case (Cons e es)
  show ?case
  proof (cases rule: pack_events_step [of mx ex acc used e es])
    case skip
    with Cons.IH [OF Cons.prems(1-4)] Cons.prems(5) show ?thesis by (auto intro: list_emb_Cons)
  next
    case full
    with Cons.prems show ?thesis by auto
  next
    case accept
    have run: "pack_events mx ex (acc @ [e]) (used + ilen (event_text e)) es = (sel, n)"
      using accept(1) Cons.prems(5) by simp
    have ok: "length sel \<le> bm25_top_k \<and> n = events_size sel \<and> n \<le> mx
      \<and> (\<forall>e \<in> set sel. ce_event_id e \<notin> set ex) \<and> subseq (drop (length (acc @ [e])) sel) es"
      by (rule Cons.IH [OF _ _ _ _ run]) (use accept Cons.prems in auto)
    obtain zs where "sel = acc @ e # zs"
      using pack_events_mono [OF run] by (auto simp: prefix_def)
    with ok show ?thesis by simp
  qed
qed simp

text \<open>What the selection left out, although admissible, does not fit into what is left.\<close>

lemma pack_events_greedy:
  assumes "pack_events mx ex acc used es = (sel, n)" "length sel < bm25_top_k"
    and "e \<in> set es" "e \<notin> set sel" "ce_event_id e \<notin> set ex"
  shows "mx - n < ilen (event_text e)"
  using assms
proof (induction es arbitrary: acc used)
  case (Cons x es)
  show ?case
  proof (cases rule: pack_events_step [of mx ex acc used x es])
    case skip
    with Cons pack_events_mono [of mx ex acc used es sel n] show ?thesis by fastforce
  next
    case full
    with Cons.prems show ?thesis by simp
  next
    case accept
    have run: "pack_events mx ex (acc @ [x]) (used + ilen (event_text x)) es = (sel, n)"
      using accept(1) Cons.prems(1) by simp
    have "x \<in> set sel" using pack_events_mono [OF run] by (auto simp: prefix_def)
    with Cons.IH [OF run] Cons.prems show ?thesis by auto
  qed
qed simp

section \<open>Properties\<close>

text \<open>C10: over any corpus whose identifiers differ, BM25 ranks every event exactly once, by falling
  score and then by rising identifier, and the ranking depends only on which events there are, not on
  the order they come in. The only failure is an all-empty corpus.\<close>

theorem bm25_ranking_is_canonical:
  fixes mlog :: "'f::linordered_field \<Rightarrow> 'f"
  assumes "distinct (map ce_event_id es)"
  shows "(\<forall>rs. rank_events mlog f es q = Inr rs \<longrightarrow>
            mset (map re_event rs) = mset es
            \<and> sorted_wrt (\<lambda>a b. re_score b < re_score a
                \<or> re_score a = re_score b \<and> ce_event_id (re_event a) \<le> ce_event_id (re_event b)) rs)
    \<and> (\<forall>es'. mset es' = mset es \<longrightarrow> rank_events mlog f es' q = rank_events mlog f es q)
    \<and> ((\<exists>m. rank_events mlog f es q = Inl m) \<longleftrightarrow>
         es \<noteq> [] \<and> (\<forall>e \<in> set es. lexical_tokens f (event_text e) = []))"
proof (intro conjI allI impI)
  fix rs assume "rank_events mlog f es q = Inr rs"
  from rank_events_sorted [OF this] show "mset (map re_event rs) = mset es"
    and "sorted_wrt (\<lambda>a b. re_score b < re_score a
      \<or> re_score a = re_score b \<and> ce_event_id (re_event a) \<le> ce_event_id (re_event b)) rs" .
next
  fix es' :: "corpus_event list" assume "mset es' = mset es"
  then show "rank_events mlog f es' q = rank_events mlog f es q"
    by (rule rank_events_mset [OF sym assms, symmetric])
next
  have "total_length (document_tokens f es) = 0 \<longleftrightarrow> (\<forall>e \<in> set es. lexical_tokens f (event_text e) = [])"
    by (simp add: document_tokens_distinct [OF assms] total_length_def o_def)
  then show "(\<exists>m. rank_events mlog f es q = Inl m) \<longleftrightarrow>
      es \<noteq> [] \<and> (\<forall>e \<in> set es. lexical_tokens f (event_text e) = [])"
    by (simp add: rank_events_def Let_def)
qed

text \<open>C11: the evidence selected for a request is at most five events in ranked order, none of them
  excluded, whose texts fit the character budget together; the reported size is their sum; and when fewer
  than five are taken, every admissible event left out is longer than what remains of the budget.\<close>

theorem selected_evidence_fits_and_is_greedy:
  assumes "0 \<le> mx" "pack_selected_events ranked mx ex = (sel, n)"
  shows "length sel \<le> 5 \<and> n = events_size sel \<and> n \<le> mx \<and> subseq sel (map re_event ranked)
    \<and> (\<forall>e \<in> set sel. ce_event_id e \<notin> set ex)
    \<and> (length sel < 5 \<longrightarrow> (\<forall>r \<in> set ranked. re_event r \<notin> set sel \<and> ce_event_id (re_event r) \<notin> set ex
          \<longrightarrow> mx - n < ilen (event_text (re_event r))))"
proof -
  have run: "pack_events mx ex [] 0 (map re_event ranked) = (sel, n)"
    using assms(2) by (simp add: pack_selected_events_def)
  from pack_events_ok [OF _ _ _ _ run] pack_events_greedy [OF run] assms(1) show ?thesis
    by (auto simp: bm25_top_k_def)
qed

definition example_corpus :: "corpus_event list" where
  "example_corpus = corpus_of_partition \<lparr>wp_window = [], wp_window_units = [],
     wp_excluded_units = group_turns example_history, wp_grouped = group_turns example_history,
     wp_snapped_in_turns = 0\<rparr>"

definition example_ranked :: "rat ranked_event list" where
  "example_ranked = map (\<lambda>e. \<lparr>re_event = e, re_score = 1\<rparr>) example_corpus"

theorem bm25_ranking_witness:
  "rank_events (\<lambda>x. x :: rat) id (rev example_corpus) [''delta''] = rank_events (\<lambda>x. x) id example_corpus [''delta'']
   \<and> \<not> (\<exists>m. rank_events (\<lambda>x. x :: rat) id example_corpus [''delta''] = Inl m)"
proof -
  have d: "distinct (map ce_event_id example_corpus)" by code_simp
  have ne: "\<not> (\<forall>e \<in> set example_corpus. lexical_tokens id (event_text e) = [])" by code_simp
  note t = bm25_ranking_is_canonical [OF d, of "\<lambda>x. x :: rat" id "[''delta'']", THEN conjunct2]
  have "mset (rev example_corpus) = mset example_corpus" by (rule mset_rev)
  with t ne show ?thesis by blast
qed

theorem selected_evidence_witness:
  "\<exists>sel n. pack_selected_events example_ranked 12 [] = (sel, n) \<and> n \<le> 12 \<and> length sel = 1"
proof -
  obtain sel n where run: "pack_selected_events example_ranked 12 [] = (sel, n)" by (cases "pack_selected_events example_ranked 12 []")
  have "length (fst (pack_selected_events example_ranked 12 [])) = 1" by code_simp
  with run selected_evidence_fits_and_is_greedy [OF _ run] show ?thesis by auto
qed

end
