(* ===== verification/Budget.thy ===== *)
theory Budget imports Prompt begin

text \<open>
  The added-context cap of \<open>app/core/domain/added_context_budget.py\<close>: retrieved evidence is dropped
  from the newest selection, then the window is packed, then documental sources are dropped from the
  tail, each against the length of what would really be rendered. The lemmas show that the result
  fits, that nothing changes when everything fitted, and that each channel keeps a part of what it
  had with citations intact.
\<close>

definition documental_chars :: "rag_context \<Rightarrow> int" where
  "documental_chars c = (if rg_sources c = [] then 0
     else ilen (render_rag_sources_block (map source_dict (rg_sources c))))"

definition evidence_chars :: "memory_context \<Rightarrow> int" where
  "evidence_chars c = (if mm_events c = [] then 0
     else ilen (render_memory_events_block (map memory_dict (mm_events c))))"

definition window_chars :: "memory_context \<Rightarrow> int" where
  "window_chars c = content_chars (mm_messages c)"

definition added_chars :: "memory_context \<Rightarrow> rag_context \<Rightarrow> int" where
  "added_chars m r = documental_chars r + window_chars m + evidence_chars m"

definition outcome_oversized :: string where
  "outcome_oversized = ''current_message_oversized''"

definition outcome_starved :: string where
  "outcome_starved = ''budget_starved''"

definition without_content :: "memory_context \<Rightarrow> memory_context" where
  "without_content m = m\<lparr>mm_messages := [], mm_events := [],
     mm_truncated := mm_truncated m \<or> mm_messages m \<noteq> []\<rparr>"

definition drop_evidence :: "int \<Rightarrow> memory_context \<Rightarrow> rag_context \<Rightarrow> memory_context" where
  "drop_evidence max_chars m r =
     m\<lparr>mm_events := drop_tail_while (\<lambda>es. added_chars (m\<lparr>mm_events := es\<rparr>) r > max_chars) (mm_events m)\<rparr>"

definition pack_window :: "int \<Rightarrow> memory_context \<Rightarrow> rag_context \<Rightarrow> memory_context" where
  "pack_window max_chars m r =
     (if added_chars m r > max_chars
      then
        (let packed = pack_recent_window (mm_messages m) max_chars (documental_chars r + evidence_chars m)
         in m\<lparr>mm_messages := pw_messages packed, mm_truncated := mm_truncated m \<or> pw_truncated packed\<rparr>)
      else m)"

definition drop_sources :: "int \<Rightarrow> memory_context \<Rightarrow> rag_context \<Rightarrow> rag_context" where
  "drop_sources max_chars m r =
     r\<lparr>rg_sources := drop_tail_while (\<lambda>ss. added_chars m (r\<lparr>rg_sources := ss\<rparr>) > max_chars) (rg_sources r)\<rparr>"

definition enforce_added_context_cap ::
  "memory_context \<Rightarrow> rag_context \<Rightarrow> string \<Rightarrow> int \<Rightarrow> memory_context \<times> rag_context \<times> string option" where
  "enforce_added_context_cap m r current max_chars =
     (if max_chars > 0 \<and> ilen current \<ge> max_chars
      then (without_content m, r\<lparr>rg_sources := []\<rparr>, Some outcome_oversized)
      else if max_chars \<le> 0
      then (without_content m, r\<lparr>rg_sources := []\<rparr>, if added_chars m r > 0 then Some outcome_starved else None)
      else
        (let m1 = drop_evidence max_chars m r;
             m2 = pack_window max_chars m1 r;
             r2 = drop_sources max_chars m2 r
         in (m2, r2, if added_chars m2 r2 < added_chars m r then Some outcome_starved else None)))"

section \<open>Measures\<close>

lemma chars_nonneg [simp]:
  "0 \<le> documental_chars r" "0 \<le> evidence_chars m" "0 \<le> window_chars m" "0 \<le> added_chars m r"
  by (simp_all add: documental_chars_def evidence_chars_def window_chars_def added_chars_def)

lemma no_sources_chars [simp]: "rg_sources r = [] \<Longrightarrow> documental_chars r = 0"
  by (simp add: documental_chars_def)

lemma no_events_chars [simp]: "mm_events m = [] \<Longrightarrow> evidence_chars m = 0"
  by (simp add: evidence_chars_def)

lemma chars_frame [simp]:
  "documental_chars (r\<lparr>rg_outcome := x\<rparr>) = documental_chars r"
  "evidence_chars (m\<lparr>mm_messages := ms\<rparr>) = evidence_chars m"
  "evidence_chars (m\<lparr>mm_truncated := b\<rparr>) = evidence_chars m"
  "window_chars (m\<lparr>mm_events := es\<rparr>) = window_chars m"
  "window_chars (m\<lparr>mm_truncated := b\<rparr>) = window_chars m"
  "window_chars (m\<lparr>mm_messages := ms\<rparr>) = content_chars ms"
  by (simp_all add: documental_chars_def evidence_chars_def window_chars_def)

lemma without_content_chars [simp]: "added_chars (without_content m) (r\<lparr>rg_sources := []\<rparr>) = 0"
  by (simp add: added_chars_def without_content_def window_chars_def)

section \<open>The steps\<close>

lemma drop_evidence_prefix: "prefix (mm_events (drop_evidence k m r)) (mm_events m)"
  by (simp add: drop_evidence_def drop_tail_while_prefix)

lemma drop_evidence_frame [simp]:
  "mm_messages (drop_evidence k m r) = mm_messages m" "mm_truncated (drop_evidence k m r) = mm_truncated m"
  "mm_row_cap_reached (drop_evidence k m r) = mm_row_cap_reached m"
  by (simp_all add: drop_evidence_def)

lemma drop_evidence_stop:
  "added_chars (drop_evidence k m r) r \<le> k \<or> mm_events (drop_evidence k m r) = []"
  using drop_tail_while_stop [of "\<lambda>es. added_chars (m\<lparr>mm_events := es\<rparr>) r > k" "mm_events m"]
  by (auto simp: drop_evidence_def)

lemma drop_evidence_id: "added_chars m r \<le> k \<Longrightarrow> drop_evidence k m r = m"
  by (simp add: drop_evidence_def drop_tail_while_id)

lemma pack_window_frame [simp]:
  "mm_events (pack_window k m r) = mm_events m"
  "mm_row_cap_reached (pack_window k m r) = mm_row_cap_reached m"
  "evidence_chars (pack_window k m r) = evidence_chars m"
  by (simp_all add: pack_window_def Let_def)

lemma pack_window_id: "added_chars m r \<le> k \<Longrightarrow> pack_window k m r = m"
  by (simp add: pack_window_def)

lemma pack_window_chars:
  "k < added_chars m r \<Longrightarrow> window_chars (pack_window k m r) \<le> max 0 (k - (documental_chars r + evidence_chars m))"
  using pack_bound [of "mm_messages m" k "documental_chars r + evidence_chars m"]
  by (simp add: pack_window_def Let_def)

lemma pack_window_roles:
  "suffix (map cm_role (mm_messages (pack_window k m r))) (map cm_role (mm_messages m))"
  by (simp add: pack_window_def Let_def pack_roles)

lemma pack_window_alternates:
  "alternates (map cm_role (mm_messages m)) \<Longrightarrow> alternates (map cm_role (mm_messages (pack_window k m r)))"
  by (simp add: pack_window_def Let_def pack_alternates)

lemma drop_sources_prefix: "prefix (rg_sources (drop_sources k m r)) (rg_sources r)"
  by (simp add: drop_sources_def drop_tail_while_prefix)

lemma drop_sources_stop: "added_chars m (drop_sources k m r) \<le> k \<or> rg_sources (drop_sources k m r) = []"
  using drop_tail_while_stop [of "\<lambda>ss. added_chars m (r\<lparr>rg_sources := ss\<rparr>) > k" "rg_sources r"]
  by (auto simp: drop_sources_def)

lemma drop_sources_id: "added_chars m r \<le> k \<Longrightarrow> drop_sources k m r = r"
  by (simp add: drop_sources_def drop_tail_while_id)

text \<open>Sources are dropped only where the window and the evidence are already empty.\<close>

lemma sources_last_resort:
  fixes k m r
  defines "m2 \<equiv> pack_window k (drop_evidence k m r) r"
  assumes "drop_sources k m2 r \<noteq> r" "0 < k"
  shows "mm_events m2 = [] \<and> mm_messages m2 = []"
proof -
  define m1 where "m1 = drop_evidence k m r"
  have m2: "m2 = pack_window k m1 r" by (simp add: m2_def m1_def)
  have big: "k < added_chars m2 r" using assms(2) drop_sources_id by (metis not_le)
  then have over: "k < added_chars m1 r" using pack_window_id m2 by (metis not_le)
  with drop_evidence_stop [of k m r] have e: "mm_events m1 = []" by (auto simp: m1_def)
  have w: "window_chars m2 \<le> max 0 (k - documental_chars r)"
    using pack_window_chars [OF over] e by (simp add: m2)
  have ev: "evidence_chars m2 = 0" using e by (simp add: m2)
  have "k - documental_chars r < window_chars m2"
    using big ev by (simp add: added_chars_def)
  with w have "k \<le> documental_chars r" by (simp add: max_def split: if_splits)
  then have "mm_messages m2 = []"
    using over e by (simp add: m2 pack_window_def Let_def pack_starved)
  with e show ?thesis by (simp add: m2)
qed

lemma cap_fits:
  assumes "0 < k" "ilen current < k"
  shows "(case enforce_added_context_cap m r current k of (m', r', _) \<Rightarrow> added_chars m' r' \<le> k)"
proof -
  define m1 where "m1 = drop_evidence k m r"
  define m2 where "m2 = pack_window k m1 r"
  define r2 where "r2 = drop_sources k m2 r"
  have "added_chars m2 r2 \<le> k"
  proof (cases "added_chars m2 r2 \<le> k")
    case False
    then have none: "rg_sources r2 = []" using drop_sources_stop [of m2 k r] by (simp add: r2_def)
    have "r2 \<noteq> r \<Longrightarrow> mm_events m2 = [] \<and> mm_messages m2 = []"
      using sources_last_resort [of k m r] assms(1) by (simp add: m2_def m1_def r2_def)
    moreover have "r2 = r \<Longrightarrow> added_chars m2 r2 \<le> k"
    proof -
      assume "r2 = r"
      with none have d: "documental_chars r = 0" by simp
      show ?thesis
      proof (cases "added_chars m1 r \<le> k")
        case True
        with \<open>r2 = r\<close> show ?thesis by (simp add: m2_def pack_window_id)
      next
        case over: False
        with drop_evidence_stop [of k m r] have e: "mm_events m1 = []" by (auto simp: m1_def)
        have "window_chars m2 \<le> k" using pack_window_chars [of k m1 r] over d e assms(1) by (simp add: m2_def)
        with d e \<open>r2 = r\<close> show ?thesis by (simp add: added_chars_def m2_def)
      qed
    qed
    ultimately show ?thesis using none assms(1) by (cases "r2 = r") (auto simp: added_chars_def window_chars_def)
  qed
  then show ?thesis
    using assms by (simp add: enforce_added_context_cap_def Let_def m1_def [symmetric] m2_def [symmetric] r2_def [symmetric])
qed

lemma rag_ok_prefix: "rag_ok r \<Longrightarrow> prefix ss (rg_sources r) \<Longrightarrow> rag_ok (r\<lparr>rg_sources := ss\<rparr>)"
  by (auto simp: rag_ok_def dest: cited_prefix set_mono_prefix)

lemma cap_shape:
  assumes "enforce_added_context_cap m r current k = (m', r', out)"
  shows "prefix (mm_events m') (mm_events m) \<and> prefix (rg_sources r') (rg_sources r)
    \<and> rg_outcome r' = rg_outcome r \<and> mm_row_cap_reached m' = mm_row_cap_reached m
    \<and> suffix (map cm_role (mm_messages m')) (map cm_role (mm_messages m))
    \<and> (alternates (map cm_role (mm_messages m)) \<longrightarrow> alternates (map cm_role (mm_messages m')))
    \<and> (mm_truncated m \<longrightarrow> mm_truncated m')"
proof (cases "k \<le> ilen current \<or> k \<le> 0")
  case True
  with assms have "m' = without_content m" "r' = r\<lparr>rg_sources := []\<rparr>"
    by (auto simp: enforce_added_context_cap_def split: if_splits)
  then show ?thesis by (simp add: without_content_def)
next
  case False
  with assms have eq: "m' = pack_window k (drop_evidence k m r) r" "r' = drop_sources k m' r"
    by (auto simp: enforce_added_context_cap_def Let_def)
  have "prefix (mm_events m') (mm_events m)" by (simp add: eq drop_evidence_prefix)
  moreover have "prefix (rg_sources r') (rg_sources r)" by (simp add: eq drop_sources_prefix)
  moreover have "rg_outcome r' = rg_outcome r" "mm_row_cap_reached m' = mm_row_cap_reached m"
    by (simp_all add: eq drop_sources_def)
  moreover have "suffix (map cm_role (mm_messages m')) (map cm_role (mm_messages m))"
    using pack_window_roles [of k "drop_evidence k m r" r] by (simp add: eq(1))
  moreover have "alternates (map cm_role (mm_messages m)) \<longrightarrow> alternates (map cm_role (mm_messages m'))"
    using pack_window_alternates [of "drop_evidence k m r" k r] by (simp add: eq(1))
  moreover have "mm_truncated m \<longrightarrow> mm_truncated m'" by (simp add: eq(1) pack_window_def Let_def)
  ultimately show ?thesis by simp
qed

lemma cap_bound:
  "enforce_added_context_cap m r current k = (m', r', out) \<Longrightarrow> added_chars m' r' \<le> max 0 k"
proof (cases "k \<le> ilen current \<or> k \<le> 0")
  case True
  moreover assume "enforce_added_context_cap m r current k = (m', r', out)"
  ultimately show ?thesis by (auto simp: enforce_added_context_cap_def split: if_splits)
next
  case False
  moreover assume "enforce_added_context_cap m r current k = (m', r', out)"
  ultimately show ?thesis using cap_fits [of k current m r] by simp
qed

lemma added_chars_messages:
  "added_chars m r = content_chars (memory_block m @ rag_block r @ mm_messages m)"
  by (simp add: added_chars_def documental_chars_def evidence_chars_def window_chars_def
      memory_block_def rag_block_def)

section \<open>Properties\<close>

text \<open>C12: whatever the contexts hold, the rendered added context fits the cap after enforcement. When it
  already fits next to the current message nothing changes and no outcome is overridden; a message as
  long as the cap empties every channel and says so; otherwise each channel keeps a part of what it had
  (evidence and sources a prefix, the window the roles of its newest turns, alternation included), sources
  go only once window and evidence are empty, and the override appears exactly when something was cut.\<close>

theorem added_context_cap_is_hard:
  assumes "enforce_added_context_cap m r current k = (m', r', out)"
  shows "added_chars m' r' \<le> max 0 k
    \<and> (added_chars m r \<le> k \<and> ilen current < k \<longrightarrow> (m', r', out) = (m, r, None))
    \<and> (0 < k \<and> k \<le> ilen current \<longrightarrow> added_chars m' r' = 0 \<and> out = Some outcome_oversized)
    \<and> prefix (mm_events m') (mm_events m) \<and> prefix (rg_sources r') (rg_sources r)
    \<and> suffix (map cm_role (mm_messages m')) (map cm_role (mm_messages m))
    \<and> (alternates (map cm_role (mm_messages m)) \<longrightarrow> alternates (map cm_role (mm_messages m')))
    \<and> (ilen current < k \<and> r' \<noteq> r \<longrightarrow> mm_events m' = [] \<and> mm_messages m' = [])
    \<and> (ilen current < k \<longrightarrow> (out = Some outcome_starved \<longleftrightarrow> added_chars m' r' < added_chars m r))
    \<and> mm_row_cap_reached m' = mm_row_cap_reached m \<and> (mm_truncated m \<longrightarrow> mm_truncated m')"
proof -
  have "added_chars m r \<le> k \<and> ilen current < k \<longrightarrow> (m', r', out) = (m, r, None)"
  proof
    assume fit: "added_chars m r \<le> k \<and> ilen current < k"
    moreover have "0 < k" using fit ilen_simps(6) [of current] by linarith
    ultimately show "(m', r', out) = (m, r, None)"
      using assms
      by (simp add: enforce_added_context_cap_def Let_def drop_evidence_id pack_window_id drop_sources_id)
  qed
  moreover have "0 < k \<and> k \<le> ilen current \<longrightarrow> added_chars m' r' = 0 \<and> out = Some outcome_oversized"
    using assms by (auto simp: enforce_added_context_cap_def)
  moreover have "ilen current < k \<and> r' \<noteq> r \<longrightarrow> mm_events m' = [] \<and> mm_messages m' = []"
  proof
    assume a: "ilen current < k \<and> r' \<noteq> r"
    moreover have k: "0 < k" using a ilen_simps(6) [of current] by linarith
    ultimately show "mm_events m' = [] \<and> mm_messages m' = []"
      using assms sources_last_resort [of k m r] by (auto simp: enforce_added_context_cap_def Let_def)
  qed
  moreover have "ilen current < k \<longrightarrow> (out = Some outcome_starved \<longleftrightarrow> added_chars m' r' < added_chars m r)"
  proof
    assume a: "ilen current < k"
    moreover have "0 < k" using a ilen_simps(6) [of current] by linarith
    ultimately show "out = Some outcome_starved \<longleftrightarrow> added_chars m' r' < added_chars m r"
      using assms by (auto simp: enforce_added_context_cap_def Let_def split: if_splits)
  qed
  ultimately show ?thesis using cap_bound [OF assms] cap_shape [OF assms] by simp
qed

text \<open>C13: end to end, the request the provider receives for capped contexts is the memory envelope, the
  documental envelope, the window and last the user's message, in that order and each only when it has
  content; what was measured is what is sent, so the added messages together never exceed the cap and
  the user's message is untouched.\<close>

theorem provider_receives_capped_context:
  assumes "rag_ok r" "enforce_added_context_cap m r current k = (m', r', out)"
    and "pi_messages input = mm_messages m' @ [chat_message_of User current]"
    and "pi_metadata input = merge_metadata r' m'"
  shows "messages_for_provider input
      = memory_block m' @ rag_block r' @ mm_messages m' @ [chat_message_of User current]
    \<and> content_chars (butlast (messages_for_provider input)) \<le> max 0 k
    \<and> content_chars (messages_for_provider input) \<le> max 0 k + ilen current"
proof -
  have "rag_ok r'"
  proof -
    have "prefix (rg_sources r') (rg_sources r)" using cap_shape [OF assms(2)] by simp
    then have "rag_ok (r\<lparr>rg_sources := rg_sources r'\<rparr>)" by (rule rag_ok_prefix [OF assms(1)])
    then show ?thesis by (simp add: rag_ok_def)
  qed
  from messages_for_provider_merge [OF this assms(4)] assms(3)
  have msgs: "messages_for_provider input
      = memory_block m' @ rag_block r' @ mm_messages m' @ [chat_message_of User current]" by simp
  then have "butlast (messages_for_provider input) = memory_block m' @ rag_block r' @ mm_messages m'"
    by (simp add: butlast_append)
  then show ?thesis
    using msgs cap_bound [OF assms(2)] added_chars_messages [of m' r'] by simp
qed

section \<open>Witnesses\<close>

definition example_memory :: memory_context where
  "example_memory = \<lparr>mm_messages = [chat_message_of User ''hi'', chat_message_of Assistant ''hello''],
     mm_truncated = False, mm_row_cap_reached = False, mm_events = [\<lparr>me_event_id = 1, me_content = ''old''\<rparr>]\<rparr>"

definition example_rag :: rag_context where
  "example_rag = augment \<lparr>rb_max_sources = 2, rb_max_source_chars = 3, rb_max_context_chars = 10\<rparr> (Inr example_result)"

theorem added_context_cap_witness:
  "\<exists>m' r' out. enforce_added_context_cap example_memory example_rag ''question'' 20 = (m', r', out)
    \<and> added_chars m' r' \<le> 20 \<and> prefix (rg_sources r') (rg_sources example_rag)"
proof -
  obtain m' r' out where run: "enforce_added_context_cap example_memory example_rag ''question'' 20 = (m', r', out)"
    by (cases "enforce_added_context_cap example_memory example_rag ''question'' 20") auto
  with added_context_cap_is_hard [OF run] show ?thesis by simp
qed

theorem provider_receives_capped_context_witness:
  "\<exists>m' r' out. enforce_added_context_cap example_memory example_rag ''question'' 2000 = (m', r', out)
    \<and> content_chars (messages_for_provider
        \<lparr>pi_request = 1, pi_messages = mm_messages m' @ [chat_message_of User ''question''],
         pi_temperature = None, pi_max_tokens = None, pi_metadata = merge_metadata r' m'\<rparr>) \<le> 2008"
proof -
  obtain m' r' out where run: "enforce_added_context_cap example_memory example_rag ''question'' 2000 = (m', r', out)"
    by (cases "enforce_added_context_cap example_memory example_rag ''question'' 2000") auto
  define input where "input = \<lparr>pi_request = 1, pi_messages = mm_messages m' @ [chat_message_of User ''question''],
         pi_temperature = None, pi_max_tokens = None, pi_metadata = merge_metadata r' m'\<rparr>"
  have "rg_sources example_rag = [
      \<lparr>sr_citation = ''S1'', sr_document = 7, sr_chunk = 1, sr_rank = 1, sr_content = ''alp'', sr_truncated = True\<rparr>,
      \<lparr>sr_citation = ''S2'', sr_document = 7, sr_chunk = 2, sr_rank = 2, sr_content = ''bet'', sr_truncated = True\<rparr>]"
    by code_simp
  moreover have "citation_of (Suc 0) = ''S1''" "citation_of (Suc 1) = ''S2''" by code_simp+
  ultimately have ok: "rag_ok example_rag"
    by (auto simp: rag_ok_def cited_def uuid_valid_def less_Suc_eq)
  have "pi_messages input = mm_messages m' @ [chat_message_of User ''question'']"
    "pi_metadata input = merge_metadata r' m'" by (simp_all add: input_def)
  from provider_receives_capped_context [OF ok run this]
  have "content_chars (messages_for_provider input) \<le> max 0 2000 + ilen ''question''" by blast
  moreover have "ilen ''question'' = 8" by (simp add: ilen_def)
  ultimately have "content_chars (messages_for_provider input) \<le> 2008" by linarith
  with run show ?thesis unfolding input_def by blast
qed

end
