(* ===== verification/Resilience.thy ===== *)
theory Resilience imports Provider_Port begin

text \<open>
  Retries (\<open>app/core/utils/retry.py\<close>) and the fallback provider
  (\<open>app/core/providers/resilient_provider.py\<close>). A provider is a record of functions; a stream
  session is the chunks it yields, the exception its iteration ends with if any, and its final
  result. The driver task and its consumer are sequential here: the queue is the list of chunks in
  order, which is all the consumer can observe. Log records are kept because telemetry reads them.
\<close>

section \<open>Retry\<close>

record retry_policy =
  rp_max_attempts :: int
  rp_base_delay_ms :: int
  rp_max_delay_ms :: int

definition capped_delay :: "int \<Rightarrow> int \<Rightarrow> int \<Rightarrow> int" where
  "capped_delay attempt base_delay max_delay = min (base_delay * 2 ^ nat (attempt - 1)) max_delay"

text \<open>\<open>jitter n\<close> is \<open>random.randint(0, n)\<close> for this call.\<close>

definition compute_backoff_ms :: "(int \<Rightarrow> int) \<Rightarrow> int \<Rightarrow> int \<Rightarrow> int \<Rightarrow> int" where
  "compute_backoff_ms jitter attempt base_delay max_delay =
     (let capped = capped_delay attempt base_delay max_delay
      in capped + jitter (max 0 (capped div 4)))"

text \<open>The loop from one attempt on: its outcome, the attempts made and the delays slept, in order.\<close>

function retry_from ::
    "(int \<Rightarrow> int \<Rightarrow> int) \<Rightarrow> (int \<Rightarrow> (exn, 'a) result) \<Rightarrow> (exn \<Rightarrow> bool) \<Rightarrow> retry_policy \<Rightarrow> int
     \<Rightarrow> (exn, 'a) result \<times> int list \<times> int list" where
  "retry_from jitter oper should_retry p attempt =
     (if attempt > rp_max_attempts p then (Inl (Other_Error ''AssertionError'' []), [], [])
      else (case oper attempt of
          Inr a \<Rightarrow> (Inr a, [attempt], [])
        | Inl e \<Rightarrow>
            if attempt \<ge> rp_max_attempts p \<or> \<not> should_retry e then (Inl e, [attempt], [])
            else
              (let delay = compute_backoff_ms (jitter attempt) attempt (rp_base_delay_ms p) (rp_max_delay_ms p)
               in case retry_from jitter oper should_retry p (attempt + 1) of
                    (r, attempts, delays) \<Rightarrow> (r, attempt # attempts, delay # delays))))"
  by pat_completeness auto
termination
  by (relation "measure (\<lambda>(j, f, s, p, attempt). nat (rp_max_attempts p + 1 - attempt))") auto

declare retry_from.simps [simp del]

definition retry_async ::
    "(int \<Rightarrow> int \<Rightarrow> int) \<Rightarrow> (int \<Rightarrow> (exn, 'a) result) \<Rightarrow> (exn \<Rightarrow> bool) \<Rightarrow> retry_policy
     \<Rightarrow> (exn, 'a) result \<times> int list \<times> int list" where
  "retry_async jitter oper should_retry p = retry_from jitter oper should_retry p 1"

section \<open>Provider ports\<close>

record stream_session =
  ss_chunks :: "string list"
  ss_failure :: "exn option"
  ss_final :: "(exn, provider_stream_result) result"

record provider_port =
  pv_provider_name :: "string option"
  pv_provider :: "string option"
  pv_class :: string
  pv_generate :: generate_port
  pv_stream :: "(provider_input \<Rightarrow> (exn, stream_session option) result) option"

definition provider_label :: "provider_port \<Rightarrow> string" where
  "provider_label p = (case filter (\<lambda>v. v \<noteq> None \<and> v \<noteq> Some []) [pv_provider_name p, pv_provider p] of
     v # _ \<Rightarrow> the v
   | [] \<Rightarrow> py_lower (pv_class p))"

definition retryable_provider_error :: "exn \<Rightarrow> bool" where
  "retryable_provider_error e = (case e of
     Provider_Error p \<Rightarrow> pe_retryable p \<or> pe_kind p \<in> {Kind_rate_limit, Kind_upstream, Kind_timeout}
   | _ \<Rightarrow> False)"

definition failure_kind :: "exn \<Rightarrow> string" where
  "failure_kind e = (case e of Provider_Error p \<Rightarrow> kind_value (pe_kind p) | _ \<Rightarrow> kind_value Kind_unknown)"

definition label_or :: "string \<Rightarrow> string \<Rightarrow> string" where
  "label_or name default_name = (if name \<noteq> [] then name else default_name)"

record final_log =
  fl_final_provider :: string
  fl_fallback_used :: bool
  fl_attempts_used :: int
  fl_stream :: bool
  fl_failure_kind :: "string option"
  fl_first_token :: "bool option"

datatype provider_log =
  Fallback_Log string bool
| Final_Log final_log

section \<open>Generate\<close>

definition generate_log :: "string \<Rightarrow> bool \<Rightarrow> int \<Rightarrow> string option \<Rightarrow> provider_log" where
  "generate_log name fallback attempts kind = Final_Log \<lparr>fl_final_provider = name, fl_fallback_used = fallback,
     fl_attempts_used = attempts, fl_stream = False, fl_failure_kind = kind, fl_first_token = None\<rparr>"

definition resilient_generate ::
    "provider_port \<Rightarrow> provider_port \<Rightarrow> provider_input \<Rightarrow> (exn, provider_result) result \<times> provider_log list" where
  "resilient_generate primary fallback i = (case pv_generate primary i of
     Inr r \<Rightarrow> (Inr r, [generate_log (label_or (pr_provider r) (provider_label primary)) False 1 None])
   | Inl e \<Rightarrow>
       if \<not> retryable_provider_error e
       then (Inl e, [generate_log (provider_label primary) False 1 (Some (failure_kind e))])
       else
         (let fb = Fallback_Log (failure_kind e) False
          in case pv_generate fallback i of
               Inl f \<Rightarrow> (Inl f, [fb, generate_log (provider_label fallback) True 2 (Some (failure_kind f))])
             | Inr r \<Rightarrow> (Inr r, [fb, generate_log (label_or (pr_provider r) (provider_label fallback)) True 2 None])))"

section \<open>Stream\<close>

record stream_state =
  rs_queue :: "string list"
  rs_final :: "provider_stream_result option"
  rs_error :: "exn option"
  rs_first_chunk :: bool
  rs_first_token :: bool
  rs_fallback_used :: bool
  rs_attempts :: int
  rs_final_provider :: "string option"
  rs_failure_kind :: "string option"
  rs_logs :: "provider_log list"

definition initial_stream_state :: stream_state where
  "initial_stream_state = \<lparr>rs_queue = [], rs_final = None, rs_error = None, rs_first_chunk = False,
     rs_first_token = False, rs_fallback_used = False, rs_attempts = 1, rs_final_provider = None,
     rs_failure_kind = None, rs_logs = []\<rparr>"

fun consume_chunks :: "string list \<Rightarrow> stream_state \<Rightarrow> stream_state" where
  "consume_chunks [] st = st"
| "consume_chunks (c # cs) st = consume_chunks cs
     (st\<lparr>rs_first_token := rs_first_token st \<or> \<not> rs_fallback_used st, rs_first_chunk := True,
         rs_queue := rs_queue st @ [c]\<rparr>)"

definition consume_session ::
    "stream_session \<Rightarrow> stream_state \<Rightarrow> (exn, provider_stream_result) result \<times> stream_state" where
  "consume_session s st = (let st' = consume_chunks (ss_chunks s) st in
     (case ss_failure s of Some e \<Rightarrow> (Inl e, st') | None \<Rightarrow> (ss_final s, st')))"

definition start_fallback :: "provider_port \<Rightarrow> provider_input \<Rightarrow> (exn, stream_session option) result" where
  "start_fallback fallback i = (case pv_stream fallback of None \<Rightarrow> Inr None | Some f \<Rightarrow> f i)"

definition stream_provider_of :: "provider_stream_result \<Rightarrow> string \<Rightarrow> string" where
  "stream_provider_of r name = label_or (pr_provider (psr_provider_result r)) name"

definition drive_fallback :: "provider_port \<Rightarrow> provider_input \<Rightarrow> exn \<Rightarrow> stream_state \<Rightarrow> stream_state" where
  "drive_fallback fallback i e st =
     (let st1 = st\<lparr>rs_fallback_used := True, rs_attempts := 2,
            rs_logs := rs_logs st @ [Fallback_Log (failure_kind e) True]\<rparr>;
          (outcome, st2) = (case start_fallback fallback i of
            Inl f \<Rightarrow> (Inl f, st1)
          | Inr None \<Rightarrow> (Inl e, st1)
          | Inr (Some s) \<Rightarrow> consume_session s st1)
      in case outcome of
           Inr r \<Rightarrow> st2\<lparr>rs_final := Some r, rs_final_provider := Some (stream_provider_of r (provider_label fallback))\<rparr>
         | Inl f \<Rightarrow> st2\<lparr>rs_error := Some f, rs_final_provider := Some (provider_label fallback),
                rs_failure_kind := Some (failure_kind f)\<rparr>)"

definition log_stream_end :: "string \<Rightarrow> stream_state \<Rightarrow> stream_state" where
  "log_stream_end name st = st\<lparr>rs_logs := rs_logs st @ [Final_Log
     \<lparr>fl_final_provider = (case rs_final_provider st of Some p \<Rightarrow> label_or p name | None \<Rightarrow> name),
      fl_fallback_used = rs_fallback_used st, fl_attempts_used = rs_attempts st, fl_stream = True,
      fl_failure_kind = rs_failure_kind st, fl_first_token = Some (rs_first_token st)\<rparr>]\<rparr>"

definition drive_stream ::
    "provider_port \<Rightarrow> provider_port \<Rightarrow> provider_input \<Rightarrow> stream_session \<Rightarrow> stream_state \<Rightarrow> stream_state" where
  "drive_stream primary fallback i s st =
     (case consume_session s st of (outcome, st1) \<Rightarrow>
        log_stream_end (provider_label primary)
          (case outcome of
             Inr r \<Rightarrow> st1\<lparr>rs_final := Some r, rs_final_provider := Some (stream_provider_of r
                (if rs_fallback_used st1 then provider_label fallback else provider_label primary))\<rparr>
           | Inl e \<Rightarrow>
               if \<not> rs_first_chunk st1 \<and> \<not> rs_fallback_used st1 \<and> retryable_provider_error e
               then drive_fallback fallback i e st1
               else st1\<lparr>rs_error := Some e,
                        rs_final_provider := Some (if rs_fallback_used st1 then provider_label fallback
                          else provider_label primary),
                        rs_failure_kind := Some (failure_kind e)\<rparr>))"

text \<open>What the session handed out yields: its chunks, then the result of \<open>get_final_result\<close>.\<close>

definition session_of :: "string \<Rightarrow> stream_state \<Rightarrow> stream_session" where
  "session_of name st = \<lparr>ss_chunks = rs_queue st, ss_failure = None,
     ss_final = (case rs_error st of
        Some e \<Rightarrow> Inl e
      | None \<Rightarrow> (case rs_final st of
          Some r \<Rightarrow> Inr r
        | None \<Rightarrow> Inl (Provider_Error ((mk_provider_error Kind_unknown ''provider stream incomplete'')\<lparr>pe_provider := name\<rparr>))))\<rparr>"

definition start_log :: "string \<Rightarrow> bool \<Rightarrow> int \<Rightarrow> exn \<Rightarrow> provider_log" where
  "start_log name fallback attempts e = Final_Log \<lparr>fl_final_provider = name, fl_fallback_used = fallback,
     fl_attempts_used = attempts, fl_stream = True, fl_failure_kind = Some (failure_kind e), fl_first_token = Some False\<rparr>"

definition resilient_stream ::
    "provider_port \<Rightarrow> provider_port \<Rightarrow> provider_input \<Rightarrow> (exn, stream_session option) result \<times> provider_log list" where
  "resilient_stream primary fallback i = (case pv_stream primary of
     None \<Rightarrow> (Inr None, [])
   | Some f \<Rightarrow> (case f i of
       Inl e \<Rightarrow>
         if \<not> retryable_provider_error e
         then (Inl e, [start_log (provider_label primary) False 1 e])
         else
           (let fb = Fallback_Log (failure_kind e) True
            in case start_fallback fallback i of
                 Inl g \<Rightarrow> (Inl g, [fb, start_log (provider_label fallback) True 2 g])
               | Inr None \<Rightarrow> (Inr None, [fb])
               | Inr (Some s) \<Rightarrow>
                   (let st = drive_stream primary fallback i s
                          (initial_stream_state\<lparr>rs_fallback_used := True, rs_attempts := 2\<rparr>)
                    in (Inr (Some (session_of (provider_label primary) st)), fb # rs_logs st)))
     | Inr None \<Rightarrow> (Inr None, [])
     | Inr (Some s) \<Rightarrow>
         (let st = drive_stream primary fallback i s initial_stream_state
          in (Inr (Some (session_of (provider_label primary) st)), rs_logs st))))"

definition resilient_provider :: "provider_port \<Rightarrow> provider_port \<Rightarrow> provider_port" where
  "resilient_provider primary fallback = \<lparr>pv_provider_name = Some (provider_label primary),
     pv_provider = Some (provider_label primary), pv_class = ''ResilientProvider'',
     pv_generate = (\<lambda>i. fst (resilient_generate primary fallback i)),
     pv_stream = Some (\<lambda>i. fst (resilient_stream primary fallback i))\<rparr>"

section \<open>Facts about retries\<close>

lemma retry_from_stop:
  "attempt > rp_max_attempts p \<Longrightarrow> retry_from j f s p attempt = (Inl (Other_Error ''AssertionError'' []), [], [])"
  by (simp add: retry_from.simps [of j f s p attempt])

lemma retry_from_attempts:
  assumes "retry_from j f s p attempt = (r, attempts, delays)" "attempt \<le> rp_max_attempts p"
  shows "\<exists>n. attempts = map (\<lambda>i. attempt + int i) [0..<Suc n] \<and> attempt + int n \<le> rp_max_attempts p
    \<and> r = f (attempt + int n) \<and> length delays = n
    \<and> (\<forall>i < n. \<exists>e. f (attempt + int i) = Inl e \<and> s e)
    \<and> (\<forall>e. r = Inl e \<longrightarrow> \<not> s e \<or> attempt + int n = rp_max_attempts p)
    \<and> (\<forall>i < n. delays ! i = compute_backoff_ms (j (attempt + int i)) (attempt + int i) (rp_base_delay_ms p) (rp_max_delay_ms p))"
  using assms
proof (induction j f s p attempt arbitrary: r attempts delays rule: retry_from.induct)
  case (1 j f s p attempt)
  show ?case
  proof (cases "\<exists>e. f attempt = Inl e \<and> attempt < rp_max_attempts p \<and> s e")
    case False
    with "1.prems" have "r = f attempt \<and> attempts = [attempt] \<and> delays = []"
      by (auto simp: retry_from.simps [of j f s p attempt] split: sum.splits if_splits prod.splits)
    with False "1.prems"(2) show ?thesis by (intro exI [of _ 0]) auto
  next
    case True
    then obtain e where e: "f attempt = Inl e" "attempt < rp_max_attempts p" "s e" by blast
    obtain r' as ds where rec: "retry_from j f s p (attempt + 1) = (r', as, ds)"
      by (cases "retry_from j f s p (attempt + 1)") auto
    from e rec "1.prems"(1)
    have now: "r = r'" "attempts = attempt # as"
      "delays = compute_backoff_ms (j attempt) attempt (rp_base_delay_ms p) (rp_max_delay_ms p) # ds"
      by (auto simp: retry_from.simps [of j f s p attempt] Let_def)
    have p: "\<not> attempt > rp_max_attempts p" "\<not> (attempt \<ge> rp_max_attempts p \<or> \<not> s e)"
      "attempt + 1 \<le> rp_max_attempts p" using e by auto
    from "1.IH" [OF p(1) e(1) p(2) refl rec p(3)] obtain n where
      n: "as = map (\<lambda>i. attempt + 1 + int i) [0..<Suc n]" "attempt + 1 + int n \<le> rp_max_attempts p"
        "r' = f (attempt + 1 + int n)" "length ds = n"
        "\<forall>i < n. \<exists>e. f (attempt + 1 + int i) = Inl e \<and> s e"
        "\<forall>e. r' = Inl e \<longrightarrow> \<not> s e \<or> attempt + 1 + int n = rp_max_attempts p"
        "\<forall>i < n. ds ! i = compute_backoff_ms (j (attempt + 1 + int i)) (attempt + 1 + int i) (rp_base_delay_ms p) (rp_max_delay_ms p)"
      by blast
    have upt: "[0..<Suc (Suc n)] = 0 # map Suc [0..<Suc n]"
      by (metis upt_conv_Cons map_Suc_upt zero_less_Suc)
    have "attempts = map (\<lambda>i. attempt + int i) [0..<Suc (Suc n)]"
      unfolding upt now(2) n(1) by (simp add: algebra_simps del: upt_Suc)
    moreover have "\<forall>i < Suc n. \<exists>e. f (attempt + int i) = Inl e \<and> s e"
      using n(5) e by (auto simp: less_Suc_eq_0_disj algebra_simps)
    moreover have "\<forall>i < Suc n. delays ! i = compute_backoff_ms (j (attempt + int i)) (attempt + int i) (rp_base_delay_ms p) (rp_max_delay_ms p)"
      using n(7) now(3) by (auto simp: less_Suc_eq_0_disj algebra_simps)
    ultimately show ?thesis
      using n now by (intro exI [of _ "Suc n"]) (simp add: algebra_simps del: upt_Suc)
  qed
qed

section \<open>What a stream shows\<close>

definition session_outcome :: "stream_session \<Rightarrow> (exn, provider_stream_result) result" where
  "session_outcome s = (case ss_failure s of Some e \<Rightarrow> Inl e | None \<Rightarrow> ss_final s)"

definition replay :: "stream_session \<Rightarrow> stream_session" where
  "replay s = \<lparr>ss_chunks = ss_chunks s, ss_failure = None, ss_final = session_outcome s\<rparr>"

definition failed_session :: "exn \<Rightarrow> stream_session" where
  "failed_session e = \<lparr>ss_chunks = [], ss_failure = None, ss_final = Inl e\<rparr>"

text \<open>The contract: one provider answers; the other is asked only before anything was shown.\<close>

definition stream_spec :: "provider_port \<Rightarrow> provider_port \<Rightarrow> provider_input \<Rightarrow> (exn, stream_session option) result" where
  "stream_spec primary fallback i = (case pv_stream primary of
     None \<Rightarrow> Inr None
   | Some f \<Rightarrow> (case f i of
       Inl e \<Rightarrow> if retryable_provider_error e
         then bind_result (start_fallback fallback i) (\<lambda>s. Inr (map_option replay s)) else Inl e
     | Inr None \<Rightarrow> Inr None
     | Inr (Some s) \<Rightarrow> Inr (Some (case session_outcome s of
         Inr _ \<Rightarrow> replay s
       | Inl e \<Rightarrow> if ss_chunks s = [] \<and> retryable_provider_error e
           then (case start_fallback fallback i of
               Inl g \<Rightarrow> failed_session g
             | Inr None \<Rightarrow> failed_session e
             | Inr (Some fs) \<Rightarrow> replay fs)
           else replay s))))"

lemma consume_chunks_result:
  "consume_chunks cs st = st\<lparr>rs_queue := rs_queue st @ cs,
     rs_first_chunk := rs_first_chunk st \<or> cs \<noteq> [],
     rs_first_token := rs_first_token st \<or> \<not> rs_fallback_used st \<and> cs \<noteq> []\<rparr>"
  by (induction cs arbitrary: st) (auto intro!: stream_state.equality)

lemma consume_session_result:
  "consume_session s st = (session_outcome s, consume_chunks (ss_chunks s) st)"
  by (simp add: consume_session_def session_outcome_def Let_def split: option.split)

lemma log_stream_end_frame [simp]:
  "rs_queue (log_stream_end n st) = rs_queue st" "rs_error (log_stream_end n st) = rs_error st"
  "rs_final (log_stream_end n st) = rs_final st"
  by (simp_all add: log_stream_end_def)

lemma session_of_log_end [simp]: "session_of n (log_stream_end m st) = session_of n st"
  by (simp add: session_of_def split: option.split)

lemma session_of_drive_fallback_start:
  "session_of n (drive_stream primary fallback i s (initial_stream_state\<lparr>rs_fallback_used := True, rs_attempts := 2\<rparr>))
     = replay s"
  by (auto simp: drive_stream_def consume_session_result consume_chunks_result initial_stream_state_def
      session_of_def replay_def split: sum.splits)

lemma session_of_drive_primary:
  "session_of n (drive_stream primary fallback i s initial_stream_state) =
     (case session_outcome s of
        Inr _ \<Rightarrow> replay s
      | Inl e \<Rightarrow> if ss_chunks s = [] \<and> retryable_provider_error e
          then (case start_fallback fallback i of
              Inl g \<Rightarrow> failed_session g
            | Inr None \<Rightarrow> failed_session e
            | Inr (Some fs) \<Rightarrow> replay fs)
          else replay s)"
proof (cases "session_outcome s")
  case (Inr r)
  then show ?thesis
    by (simp add: drive_stream_def consume_session_result consume_chunks_result initial_stream_state_def
        session_of_def replay_def)
next
  case (Inl e)
  show ?thesis
  proof (cases "ss_chunks s = [] \<and> retryable_provider_error e")
    case False
    with Inl show ?thesis
      by (auto simp: drive_stream_def consume_session_result consume_chunks_result initial_stream_state_def
          session_of_def replay_def)
  next
    case True
    consider g where "start_fallback fallback i = Inl g" | "start_fallback fallback i = Inr None"
      | fs where "start_fallback fallback i = Inr (Some fs)"
      by (metis (no_types, opaque_lifting) option.exhaust sum.exhaust)
    then show ?thesis
    proof cases
      case 3
      with Inl True show ?thesis
        by (cases "session_outcome fs")
           (simp_all add: drive_stream_def drive_fallback_def consume_session_result consume_chunks_result
             initial_stream_state_def session_of_def replay_def Let_def)
    qed (use Inl True in \<open>simp_all add: drive_stream_def drive_fallback_def consume_session_result
        consume_chunks_result initial_stream_state_def session_of_def failed_session_def Let_def\<close>)
  qed
qed

lemma resilient_stream_spec: "fst (resilient_stream primary fallback i) = stream_spec primary fallback i"
  by (auto simp: resilient_stream_def stream_spec_def Let_def session_of_drive_fallback_start
      session_of_drive_primary split: option.splits sum.splits)

text \<open>Exactly one record closes a call, and the fallback is asked at most once.\<close>

fun is_final :: "provider_log \<Rightarrow> bool" where
  "is_final (Final_Log l) = True" | "is_final (Fallback_Log k b) = False"

lemma drive_stream_logs:
  "\<exists>pre l. rs_logs (drive_stream primary fallback i s st) = rs_logs st @ pre @ [Final_Log l]
     \<and> length pre \<le> 1 \<and> (\<forall>x \<in> set pre. \<not> is_final x) \<and> (pre \<noteq> [] \<longrightarrow> \<not> rs_fallback_used st)
     \<and> fl_fallback_used l = (rs_fallback_used st \<or> pre \<noteq> [])"
proof -
  let ?st1 = "consume_chunks (ss_chunks s) st"
  have frame: "rs_logs ?st1 = rs_logs st" "rs_fallback_used ?st1 = rs_fallback_used st"
    by (simp_all add: consume_chunks_result)
  have fb: "rs_logs (drive_fallback fallback i e ?st1) = rs_logs st @ [Fallback_Log (failure_kind e) True]
      \<and> rs_fallback_used (drive_fallback fallback i e ?st1)" for e
    using frame by (auto simp: drive_fallback_def Let_def consume_session_result consume_chunks_result
        split: sum.splits option.splits)
  show ?thesis
  proof (cases "\<exists>e. session_outcome s = Inl e \<and> \<not> rs_first_chunk ?st1 \<and> \<not> rs_fallback_used ?st1 \<and> retryable_provider_error e")
    case True
    then obtain e where e: "session_outcome s = Inl e" "\<not> rs_first_chunk ?st1" "\<not> rs_fallback_used ?st1"
      "retryable_provider_error e" by blast
    with fb [of e] frame show ?thesis
      by (intro exI [of _ "[Fallback_Log (failure_kind e) True]"])
         (auto simp: drive_stream_def consume_session_result log_stream_end_def)
  next
    case False
    with frame show ?thesis
      by (intro exI [of _ "[]"])
         (auto simp: drive_stream_def consume_session_result log_stream_end_def split: sum.splits)
  qed
qed

section \<open>Properties\<close>

text \<open>C14: a retried operation is attempted with the numbers 1, 2, ... without a gap, at most
  \<open>max_attempts\<close> times; its outcome is that of the last attempt; every earlier attempt failed retryably and
  was followed by one sleep, never longer than the maximal delay and a quarter; and a failure that comes
  back is either not retryable or used up the attempts.\<close>

theorem retry_makes_bounded_attempts:
  assumes "1 \<le> rp_max_attempts p" "retry_async jitter oper should_retry p = (r, attempts, delays)"
  shows "\<exists>n. attempts = map (\<lambda>i. 1 + int i) [0..<Suc n] \<and> 1 + int n \<le> rp_max_attempts p
    \<and> r = oper (1 + int n) \<and> length delays = n
    \<and> (\<forall>i < n. \<exists>e. oper (1 + int i) = Inl e \<and> should_retry e)
    \<and> (\<forall>e. r = Inl e \<longrightarrow> \<not> should_retry e \<or> 1 + int n = rp_max_attempts p)
    \<and> ((\<forall>a m. 0 \<le> m \<longrightarrow> 0 \<le> jitter a m \<and> jitter a m \<le> m) \<and> 0 \<le> rp_base_delay_ms p \<and> 0 \<le> rp_max_delay_ms p
        \<longrightarrow> (\<forall>d \<in> set delays. 0 \<le> d \<and> d \<le> rp_max_delay_ms p + rp_max_delay_ms p div 4))"
proof -
  have bound: "0 \<le> compute_backoff_ms j a b m \<and> compute_backoff_ms j a b m \<le> m + m div 4"
    if "\<forall>n \<ge> 0. 0 \<le> j n \<and> j n \<le> n" "0 \<le> b" "0 \<le> m" for j a b m
  proof -
    have c: "0 \<le> capped_delay a b m" "capped_delay a b m \<le> m" using that by (simp_all add: capped_delay_def)
    then have "capped_delay a b m div 4 \<le> m div 4" "0 \<le> capped_delay a b m div 4" by (simp_all add: zdiv_mono1)
    with that(1) have "0 \<le> j (capped_delay a b m div 4) \<and> j (capped_delay a b m div 4) \<le> m div 4"
      by (meson order_trans)
    with c show ?thesis
      using \<open>0 \<le> capped_delay a b m div 4\<close> by (simp add: compute_backoff_ms_def Let_def max_def)
  qed
  from retry_from_attempts [OF assms(2) [unfolded retry_async_def] assms(1)] obtain n where
    n: "attempts = map (\<lambda>i. 1 + int i) [0..<Suc n]" "1 + int n \<le> rp_max_attempts p"
      "r = oper (1 + int n)" "length delays = n"
      "\<forall>i < n. \<exists>e. oper (1 + int i) = Inl e \<and> should_retry e"
      "\<forall>e. r = Inl e \<longrightarrow> \<not> should_retry e \<or> 1 + int n = rp_max_attempts p"
      "\<forall>i < n. delays ! i = compute_backoff_ms (jitter (1 + int i)) (1 + int i) (rp_base_delay_ms p) (rp_max_delay_ms p)"
    by blast
  have "\<forall>d \<in> set delays. 0 \<le> d \<and> d \<le> rp_max_delay_ms p + rp_max_delay_ms p div 4"
    if "\<forall>a m. 0 \<le> m \<longrightarrow> 0 \<le> jitter a m \<and> jitter a m \<le> m" "0 \<le> rp_base_delay_ms p" "0 \<le> rp_max_delay_ms p"
    using bound that n(4,7) by (auto simp: in_set_conv_nth)
  with n show ?thesis by blast
qed

text \<open>C15: a resilient stream is the stream of one provider: the primary's, chunk for chunk and with its
  outcome, or, when the primary failed retryably before its first chunk, the fallback's alone. Chunks of
  the two are never mixed, and a stream that showed a chunk never restarts.\<close>

theorem resilient_stream_never_mixes:
  assumes "fst (resilient_stream primary fallback i) = Inr (Some s)"
  shows "fst (resilient_stream primary fallback i) = stream_spec primary fallback i
    \<and> ((\<exists>ps f. pv_stream primary = Some f \<and> f i = Inr (Some ps) \<and> s = replay ps)
      \<or> (\<exists>fs. start_fallback fallback i = Inr (Some fs) \<and> s = replay fs)
      \<or> ss_chunks s = [] \<and> (\<exists>e. ss_final s = Inl e))
    \<and> (\<forall>ps f. pv_stream primary = Some f \<and> f i = Inr (Some ps) \<and> ss_chunks ps \<noteq> [] \<longrightarrow> s = replay ps)"
proof -
  have spec: "stream_spec primary fallback i = Inr (Some s)" using assms by (simp add: resilient_stream_spec)
  obtain f where f: "pv_stream primary = Some f"
    using spec by (cases "pv_stream primary") (auto simp: stream_spec_def)
  have unique: "g = f" if "pv_stream primary = Some g" for g using that f by simp
  show ?thesis
  proof (cases "f i")
    case (Inl e)
    with spec f have "bind_result (start_fallback fallback i) (\<lambda>s. Inr (map_option replay s)) = Inr (Some s)"
      by (simp add: stream_spec_def split: if_splits)
    then obtain fs where "start_fallback fallback i = Inr (Some fs)" "s = replay fs"
      by (auto simp: bind_result_Inr_iff)
    with Inl f show ?thesis by (auto simp: resilient_stream_spec)
  next
    case (Inr ops)
    with spec f obtain ps where ps: "ops = Some ps" by (cases ops) (auto simp: stream_spec_def)
    show ?thesis
    proof (cases "\<exists>e. session_outcome ps = Inl e \<and> ss_chunks ps = [] \<and> retryable_provider_error e")
      case False
      with spec f Inr ps have "s = replay ps"
        by (auto simp: stream_spec_def split: sum.splits)
      with f Inr ps show ?thesis by (auto simp: resilient_stream_spec)
    next
      case True
      then obtain e where e: "session_outcome ps = Inl e" "ss_chunks ps = []" "retryable_provider_error e" by blast
      consider g where "start_fallback fallback i = Inl g" | "start_fallback fallback i = Inr None"
        | fs where "start_fallback fallback i = Inr (Some fs)"
        by (metis (no_types, opaque_lifting) option.exhaust sum.exhaust)
      then show ?thesis
      proof cases
        case 3
        with spec f Inr ps e have "s = replay fs" by (simp add: stream_spec_def)
        with 3 f Inr ps e show ?thesis by (auto simp: resilient_stream_spec)
      qed (use spec f Inr ps e in \<open>auto simp: resilient_stream_spec stream_spec_def failed_session_def\<close>)
    qed
  qed
qed

text \<open>\<open>generate\<close> asks the fallback exactly when the primary failed retryably, answers with the
  provider asked last, and records the call once, after at most one fallback record.\<close>

theorem resilient_generate_falls_back_once:
  shows "fst (resilient_generate primary fallback i) =
      (case pv_generate primary i of
         Inl e \<Rightarrow> if retryable_provider_error e then pv_generate fallback i else Inl e
       | Inr r \<Rightarrow> Inr r)
    \<and> length (filter is_final (snd (resilient_generate primary fallback i))) = 1
    \<and> (\<exists>l. last (snd (resilient_generate primary fallback i)) = Final_Log l
          \<and> (fl_fallback_used l \<longleftrightarrow> (\<exists>e. pv_generate primary i = Inl e \<and> retryable_provider_error e))
          \<and> fl_attempts_used l = (if fl_fallback_used l then 2 else 1)
          \<and> (fl_failure_kind l = None \<longleftrightarrow> (\<exists>r. fst (resilient_generate primary fallback i) = Inr r)))"
proof (cases "pv_generate primary i")
  case (Inl e)
  show ?thesis
  proof (cases "retryable_provider_error e")
    case True
    with Inl show ?thesis
      by (cases "pv_generate fallback i") (simp_all add: resilient_generate_def generate_log_def Let_def)
  qed (use Inl in \<open>simp add: resilient_generate_def generate_log_def Let_def\<close>)
qed (simp add: resilient_generate_def generate_log_def Let_def)

definition example_provider :: "string \<Rightarrow> stream_session \<Rightarrow> provider_port" where
  "example_provider name s = \<lparr>pv_provider_name = Some name, pv_provider = None, pv_class = ''P'',
     pv_generate = (\<lambda>i. Inl Timeout_Error), pv_stream = Some (\<lambda>i. Inr (Some s))\<rparr>"

definition example_failure :: exn where
  "example_failure = Provider_Error (mk_provider_error Kind_upstream ''down'')"

abbreviation example_input :: provider_input where
  "example_input \<equiv> plain_input 1 [chat_message_of User ''hi'']"

theorem retry_makes_bounded_attempts_witness:
  "\<exists>delays. retry_async (\<lambda>a m. 0) (\<lambda>a. if a < 3 then Inl Timeout_Error else Inr a) (\<lambda>e. True)
      \<lparr>rp_max_attempts = 5, rp_base_delay_ms = 100, rp_max_delay_ms = 150\<rparr> = (Inr (3 :: int), [1, 2, 3], delays)
    \<and> (\<forall>d \<in> set delays. d \<le> 187)"
proof -
  have run: "retry_async (\<lambda>a m. 0) (\<lambda>a. if a < 3 then Inl Timeout_Error else Inr a) (\<lambda>e. True)
      \<lparr>rp_max_attempts = 5, rp_base_delay_ms = 100, rp_max_delay_ms = 150\<rparr> = (Inr (3 :: int), [1, 2, 3], [100, 150])"
    by (simp add: retry_async_def retry_from.simps compute_backoff_ms_def capped_delay_def Let_def)
  from retry_makes_bounded_attempts [OF _ run] have "\<forall>d \<in> set [100, 150]. d \<le> (150 :: int) + 150 div 4" by simp
  with run show ?thesis by auto
qed

theorem resilient_stream_never_mixes_witness:
  "\<exists>s. fst (resilient_stream
      (example_provider ''a'' \<lparr>ss_chunks = [''x''], ss_failure = Some example_failure, ss_final = Inl example_failure\<rparr>)
      (example_provider ''b'' \<lparr>ss_chunks = [''y''], ss_failure = None, ss_final = Inl example_failure\<rparr>)
      example_input) = Inr (Some s) \<and> ss_chunks s = [''x'']"
proof -
  let ?pa = "\<lparr>ss_chunks = [''x''], ss_failure = Some example_failure, ss_final = Inl example_failure\<rparr>"
  let ?p = "example_provider ''a'' ?pa"
  let ?f = "example_provider ''b'' \<lparr>ss_chunks = [''y''], ss_failure = None, ss_final = Inl example_failure\<rparr>"
  obtain s where run: "fst (resilient_stream ?p ?f example_input) = Inr (Some s)"
    by (simp add: resilient_stream_def example_provider_def Let_def)
  have "pv_stream ?p = Some (\<lambda>i. Inr (Some ?pa))" by (simp add: example_provider_def)
  then have "pv_stream ?p = Some (\<lambda>i. Inr (Some ?pa)) \<and> Inr (Some ?pa) = (Inr (Some ?pa) :: (exn, _) result)
      \<and> ss_chunks ?pa \<noteq> []" by simp
  then have "s = replay ?pa"
    by (rule resilient_stream_never_mixes [OF run, THEN conjunct2, THEN conjunct2, rule_format])
  with run show ?thesis by (simp add: replay_def)
qed

end
