(* ===== verification/Routing.thy ===== *)
theory Routing imports Resilience Prompt begin

text \<open>
  Which provider answers a request: the routing signals (\<open>app/services/routing_signals.py\<close>), the
  static and the heuristic policy (\<open>app/core/domain/routing\<close>), the factory that turns a decision
  into a provider, with its shadow comparison (\<open>provider_factory.py\<close>), the disabled placeholder and
  the deterministic stub provider. What the factory builds is described by a datatype, one
  constructor per provider class. The policies share a contract, the locale \<open>routing_policy\<close>.
\<close>

section \<open>Settings, contexts and decisions\<close>

record provider_settings =
  sg_provider :: string
  sg_fallback_provider :: "string option"
  sg_routing_policy :: string
  sg_shadow_policy :: "string option"
  sg_shadow_enabled :: bool
  sg_shadow_timeout_ms :: int
  sg_cheap_max :: int
  sg_smart_min :: int
  sg_stub_mode :: string
  sg_openai_api_key :: "string option"
  sg_openai_model :: string
  sg_bedrock_region :: "string option"
  sg_bedrock_model :: "string option"
  sg_bedrock_prompt_version :: string
  sg_max_attempts :: int
  sg_backoff_base_ms :: int
  sg_backoff_max_ms :: int

record routing_context =
  rx_request :: uuid
  rx_stream :: bool
  rx_message_length :: int
  rx_estimated_tokens :: int
  rx_primary_available :: bool

datatype model_tier = Cheap | Balanced | Smart

record routing_decision =
  dc_provider :: string
  dc_model :: "string option"
  dc_tier :: model_tier
  dc_rationale :: string
  dc_fallback_provider :: "string option"
  dc_fallback_model :: "string option"
  dc_policy_name :: string
  dc_policy_version :: string

section \<open>Signals\<close>

definition last_user_message :: "chat_message list \<Rightarrow> string" where
  "last_user_message ms = (case find (\<lambda>m. cm_role m = User) (rev ms) of
     Some m \<Rightarrow> cm_content m
   | None \<Rightarrow> if ms \<noteq> [] then cm_content (last ms) else [])"

definition estimate_tokens :: "string \<Rightarrow> int" where
  "estimate_tokens t = (let stripped = py_strip t in
     if stripped = [] then 0 else max 1 ((ilen stripped + 3) div 4))"

definition set_text :: "string option \<Rightarrow> bool" where
  "set_text v = (case v of Some s \<Rightarrow> s \<noteq> [] | None \<Rightarrow> False)"

definition is_provider_available :: "string \<Rightarrow> provider_settings \<Rightarrow> bool" where
  "is_provider_available provider cfg = (let name = py_lower provider in
     if name = ''stub'' then True
     else if name = ''openai'' then set_text (sg_openai_api_key cfg)
     else if name = ''bedrock'' then set_text (sg_bedrock_region cfg) \<and> set_text (sg_bedrock_model cfg)
     else False)"

definition build_routing_context :: "provider_settings \<Rightarrow> uuid \<Rightarrow> chat_message list \<Rightarrow> bool \<Rightarrow> routing_context" where
  "build_routing_context cfg rid ms stream =
     (let last_user = last_user_message ms in
      \<lparr>rx_request = rid, rx_stream = stream, rx_message_length = ilen last_user,
       rx_estimated_tokens = estimate_tokens last_user,
       rx_primary_available = is_provider_available (sg_provider cfg) cfg\<rparr>)"

section \<open>Policies\<close>

record static_policy =
  sp_provider :: string
  sp_model :: "string option"
  sp_fallback_provider :: "string option"
  sp_fallback_model :: "string option"

definition static_decide :: "static_policy \<Rightarrow> routing_context \<Rightarrow> routing_decision" where
  "static_decide p c = \<lparr>dc_provider = sp_provider p, dc_model = sp_model p, dc_tier = Balanced,
     dc_rationale = ''static_default'', dc_fallback_provider = sp_fallback_provider p,
     dc_fallback_model = sp_fallback_model p, dc_policy_name = ''static'', dc_policy_version = ''v1''\<rparr>"

record heuristic_policy =
  hp_static :: static_policy
  hp_cheap_max :: int
  hp_smart_min :: int

definition is_cheap_prompt :: "heuristic_policy \<Rightarrow> routing_context \<Rightarrow> bool" where
  "is_cheap_prompt p c = (rx_message_length c \<le> hp_cheap_max p)"

definition is_smart_prompt :: "heuristic_policy \<Rightarrow> routing_context \<Rightarrow> bool" where
  "is_smart_prompt p c = (rx_estimated_tokens c \<ge> hp_smart_min p)"

definition heuristic_decision :: "routing_decision \<Rightarrow> model_tier \<Rightarrow> string \<Rightarrow> routing_decision" where
  "heuristic_decision d tier rationale = d\<lparr>dc_tier := tier, dc_rationale := rationale,
     dc_policy_name := ''heuristic''\<rparr>"

text \<open>The decision with primary and fallback exchanged.\<close>

definition swapped :: "static_policy \<Rightarrow> string \<Rightarrow> routing_decision" where
  "swapped s fallback = \<lparr>dc_provider = fallback, dc_model = sp_fallback_model s, dc_tier = Smart,
     dc_rationale = [], dc_fallback_provider = Some (sp_provider s), dc_fallback_model = sp_model s,
     dc_policy_name = ''heuristic'', dc_policy_version = ''v1''\<rparr>"

definition heuristic_decide :: "heuristic_policy \<Rightarrow> routing_context \<Rightarrow> routing_decision" where
  "heuristic_decide p c =
     (let s = hp_static p; d = static_decide s c in
      if rx_stream c then heuristic_decision d (dc_tier d) ''heuristic_stream_safe''
      else if \<not> rx_primary_available c \<and> set_text (sp_fallback_provider s)
      then heuristic_decision (swapped s (the (sp_fallback_provider s))) Smart ''heuristic_primary_unavailable''
      else if is_cheap_prompt p c then heuristic_decision d Cheap ''heuristic_message_length_cheap''
      else if set_text (sp_fallback_provider s) \<and> is_smart_prompt p c
      then heuristic_decision (swapped s (the (sp_fallback_provider s))) Smart ''heuristic_estimated_tokens_smart''
      else heuristic_decision d Balanced ''heuristic_default'')"

section \<open>Factory\<close>

record openai_config =
  oc_api_key :: string
  oc_model :: string

record bedrock_config =
  bc_region :: string
  bc_model :: string
  bc_prompt_version :: string

datatype built_provider =
  Stub_Provider string
| Openai_Provider openai_config
| Bedrock_Provider bedrock_config
| Disabled_Provider string string
| Resilient_Provider built_provider built_provider

definition or_text :: "string option \<Rightarrow> string \<Rightarrow> string" where
  "or_text v default_value = (if set_text v then the v else default_value)"

definition build_single_provider ::
    "string \<Rightarrow> provider_settings \<Rightarrow> string option \<Rightarrow> (exn, built_provider) result" where
  "build_single_provider provider cfg model_override =
     (if provider = ''stub'' then Inr (Stub_Provider (sg_stub_mode cfg))
      else if provider = ''openai'' then
        (if \<not> set_text (sg_openai_api_key cfg) then Inr (Disabled_Provider ''openai'' ''OPENAI_API_KEY missing'')
         else Inr (Openai_Provider \<lparr>oc_api_key = the (sg_openai_api_key cfg),
                oc_model = or_text model_override (sg_openai_model cfg)\<rparr>))
      else if provider = ''bedrock'' then
        (if \<not> set_text (sg_bedrock_region cfg) then Inr (Disabled_Provider ''bedrock'' ''BEDROCK_REGION missing'')
         else if \<not> set_text (sg_bedrock_model cfg) then Inr (Disabled_Provider ''bedrock'' ''BEDROCK_MODEL missing'')
         else Inr (Bedrock_Provider \<lparr>bc_region = the (sg_bedrock_region cfg),
                bc_model = or_text model_override (the (sg_bedrock_model cfg)),
                bc_prompt_version = sg_bedrock_prompt_version cfg\<rparr>))
      else Inl (Other_Error ''ValueError'' (''Unsupported provider: '' @ provider)))"

definition blank :: "string option \<Rightarrow> bool" where
  "blank v = (case v of Some s \<Rightarrow> py_strip s = [] | None \<Rightarrow> True)"

definition build_provider :: "provider_settings \<Rightarrow> (exn, built_provider) result" where
  "build_provider cfg =
     bind_result (build_single_provider (py_lower (sg_provider cfg)) cfg None) (\<lambda>primary.
       if blank (sg_fallback_provider cfg) then Inr primary
       else
         (let fallback_name = py_lower (the (sg_fallback_provider cfg)) in
          if fallback_name = py_lower (sg_provider cfg) then Inr primary
          else bind_result (build_single_provider fallback_name cfg None)
                 (\<lambda>fallback. Inr (Resilient_Provider primary fallback))))"

definition model_for_provider :: "string option \<Rightarrow> provider_settings \<Rightarrow> string option" where
  "model_for_provider provider cfg =
     (if provider = Some ''openai'' then Some (sg_openai_model cfg)
      else if provider = Some ''bedrock'' then sg_bedrock_model cfg else None)"

definition static_policy_of :: "provider_settings \<Rightarrow> static_policy" where
  "static_policy_of cfg =
     (let primary_name = py_lower (sg_provider cfg);
          fallback_name = (if blank (sg_fallback_provider cfg) then None
            else Some (py_lower (the (sg_fallback_provider cfg))))
      in \<lparr>sp_provider = primary_name, sp_model = model_for_provider (Some primary_name) cfg,
          sp_fallback_provider = fallback_name,
          sp_fallback_model = (if set_text fallback_name then model_for_provider fallback_name cfg else None)\<rparr>)"

type_synonym decide_fun = "routing_context \<Rightarrow> routing_decision"

definition build_named_routing_policy :: "provider_settings \<Rightarrow> string \<Rightarrow> decide_fun" where
  "build_named_routing_policy cfg policy_name =
     (if policy_name = ''heuristic''
      then heuristic_decide \<lparr>hp_static = static_policy_of cfg, hp_cheap_max = sg_cheap_max cfg,
             hp_smart_min = sg_smart_min cfg\<rparr>
      else static_decide (static_policy_of cfg))"

definition build_provider_for_decision :: "provider_settings \<Rightarrow> routing_decision \<Rightarrow> (exn, built_provider) result" where
  "build_provider_for_decision cfg d =
     bind_result (build_single_provider (dc_provider d) cfg (dc_model d)) (\<lambda>primary.
       if blank (dc_fallback_provider d) then Inr primary
       else
         (let fallback_name = py_lower (the (dc_fallback_provider d)) in
          if fallback_name = dc_provider d then Inr primary
          else bind_result (build_single_provider fallback_name cfg (dc_fallback_model d))
                 (\<lambda>fallback. Inr (Resilient_Provider primary fallback))))"

section \<open>Shadow policy\<close>

definition shadow_policy_name :: "provider_settings \<Rightarrow> string option" where
  "shadow_policy_name cfg =
     (if \<not> sg_shadow_enabled cfg then None
      else
        (let name = or_text (sg_shadow_policy cfg)
              (if sg_routing_policy cfg = ''static'' then ''heuristic'' else ''static'')
         in if name = sg_routing_policy cfg then None else Some name))"

definition decisions_diverge :: "routing_decision \<Rightarrow> routing_decision \<Rightarrow> bool" where
  "decisions_diverge a s = (dc_provider a \<noteq> dc_provider s \<or> dc_model a \<noteq> dc_model s \<or> dc_tier a \<noteq> dc_tier s
     \<or> dc_fallback_provider a \<noteq> dc_fallback_provider s \<or> dc_fallback_model a \<noteq> dc_fallback_model s)"

datatype routing_log =
  Decision_Log routing_context routing_decision
| Shadow_Timeout_Log int
| Shadow_Divergence_Log routing_decision routing_decision

text \<open>\<open>elapsed_ms\<close> is what the clock measured around the shadow decision.\<close>

definition maybe_log_shadow_divergence ::
    "provider_settings \<Rightarrow> routing_context \<Rightarrow> routing_decision \<Rightarrow> int \<Rightarrow> routing_log list" where
  "maybe_log_shadow_divergence cfg c active elapsed_ms = (case shadow_policy_name cfg of
     None \<Rightarrow> []
   | Some name \<Rightarrow>
       (let shadow = build_named_routing_policy cfg name c in
        if elapsed_ms > sg_shadow_timeout_ms cfg then [Shadow_Timeout_Log elapsed_ms]
        else if \<not> decisions_diverge active shadow then []
        else [Shadow_Divergence_Log active shadow]))"

definition resolve_provider ::
    "provider_settings \<Rightarrow> int \<Rightarrow> routing_context \<Rightarrow> (exn, built_provider \<times> routing_decision) result \<times> routing_log list" where
  "resolve_provider cfg elapsed_ms c =
     (let d = build_named_routing_policy cfg (sg_routing_policy cfg) c in
      (bind_result (build_provider_for_decision cfg d) (\<lambda>p. Inr (p, d)),
       Decision_Log c d # maybe_log_shadow_divergence cfg c d elapsed_ms))"

section \<open>Placeholder and stub providers\<close>

definition disabled_port :: "string \<Rightarrow> provider_port" where
  "disabled_port name = \<lparr>pv_provider_name = Some name, pv_provider = None, pv_class = ''DisabledProvider'',
     pv_generate = (\<lambda>i. Inl (Provider_Error (mk_provider_error Kind_auth (name @ '' provider not configured'')))),
     pv_stream = Some (\<lambda>i. Inr None)\<rparr>"

text \<open>\<open>sha256_hex\<close> is \<open>hashlib.sha256(text.encode()).hexdigest()\<close>, \<open>elapsed\<close> the measured latency.\<close>

definition stub_generate :: "(string \<Rightarrow> string) \<Rightarrow> int \<Rightarrow> string \<Rightarrow> generate_port" where
  "stub_generate sha256_hex elapsed mode i =
     (if mode = ''error'' then Inl (Other_Error ''RuntimeError'' ''StubProvider simulated error'')
      else
        (let messages = messages_for_provider i;
             last_text = (if messages \<noteq> [] then cm_content (last messages) else []);
             digest = take 12 (sha256_hex (uuid_str (pi_request i) @ '':'' @ last_text));
             content = py_strip (''[stub:'' @ digest @ ''] '' @ last_text);
             input_text = py_join '' '' (map cm_content messages);
             in_tok = (if input_text \<noteq> [] then max 1 (ilen (py_words input_text)) else 0);
             out_tok = (if content \<noteq> [] then max 1 (ilen (py_words content)) else 0)
         in Inr \<lparr>pr_content = content, pr_provider = ''stub'', pr_model_version = ''stub-1'',
                 pr_prompt_version = ''stub-prompt-1'', pr_input_tokens = Some in_tok,
                 pr_output_tokens = Some out_tok,
                 pr_total_tokens = (if in_tok \<noteq> 0 \<and> out_tok \<noteq> 0 then Some (in_tok + out_tok) else None),
                 pr_latency_ms = Some elapsed\<rparr>))"

definition stub_stream :: "(string \<Rightarrow> string) \<Rightarrow> int \<Rightarrow> string \<Rightarrow> provider_input \<Rightarrow> (exn, stream_session option) result" where
  "stub_stream sha256_hex elapsed mode i =
     bind_result (stub_generate sha256_hex elapsed mode i) (\<lambda>r.
       Inr (Some \<lparr>ss_chunks = map (\<lambda>part. part @ '' '') (py_words (pr_content r)), ss_failure = None,
         ss_final = Inr \<lparr>psr_content = pr_content r, psr_provider_result = r\<rparr>\<rparr>))"

definition stub_port :: "(string \<Rightarrow> string) \<Rightarrow> int \<Rightarrow> string \<Rightarrow> provider_port" where
  "stub_port sha256_hex elapsed mode = \<lparr>pv_provider_name = None, pv_provider = Some ''stub'',
     pv_class = ''StubProvider'', pv_generate = stub_generate sha256_hex elapsed mode,
     pv_stream = Some (stub_stream sha256_hex elapsed mode)\<rparr>"

text \<open>The port of what the factory built; the two remote adapters are arguments.\<close>

fun port_of :: "(string \<Rightarrow> provider_port) \<Rightarrow> (openai_config \<Rightarrow> provider_port) \<Rightarrow> (bedrock_config \<Rightarrow> provider_port)
    \<Rightarrow> built_provider \<Rightarrow> provider_port" where
  "port_of stub openai bedrock (Stub_Provider mode) = stub mode"
| "port_of stub openai bedrock (Openai_Provider c) = openai c"
| "port_of stub openai bedrock (Bedrock_Provider c) = bedrock c"
| "port_of stub openai bedrock (Disabled_Provider name reason) = disabled_port name"
| "port_of stub openai bedrock (Resilient_Provider a b) =
     resilient_provider (port_of stub openai bedrock a) (port_of stub openai bedrock b)"

section \<open>The contract of a policy\<close>

definition target :: "routing_decision \<Rightarrow> string \<times> string option \<times> string option \<times> string option" where
  "target d = (dc_provider d, dc_model d, dc_fallback_provider d, dc_fallback_model d)"

locale routing_policy =
  fixes decide :: decide_fun and s :: static_policy
  assumes stream_fixed:
      "rx_stream c \<Longrightarrow> target (decide c) = (sp_provider s, sp_model s, sp_fallback_provider s, sp_fallback_model s)"
    and configured:
      "target (decide c) = (sp_provider s, sp_model s, sp_fallback_provider s, sp_fallback_model s)
       \<or> (\<exists>f. sp_fallback_provider s = Some f \<and> f \<noteq> []
            \<and> target (decide c) = (f, sp_fallback_model s, Some (sp_provider s), sp_model s))"
begin

lemma provider_configured: "dc_provider (decide c) = sp_provider s \<or> sp_fallback_provider s = Some (dc_provider (decide c))"
  using configured [of c] by (auto simp: target_def)

end

lemma target_heuristic [simp]: "target (heuristic_decision d tier r) = target d"
  by (simp add: target_def heuristic_decision_def)

lemma target_static: "target (static_decide s c) = (sp_provider s, sp_model s, sp_fallback_provider s, sp_fallback_model s)"
  by (simp add: target_def static_decide_def)

lemma target_swapped: "target (swapped s f) = (f, sp_fallback_model s, Some (sp_provider s), sp_model s)"
  by (simp add: target_def swapped_def)

interpretation static: routing_policy "static_decide s" s for s
  by unfold_locales (simp_all add: target_static)

interpretation heuristic: routing_policy "heuristic_decide p" "hp_static p" for p
proof (unfold_locales, goal_cases)
  case (1 c)
  then show ?case by (simp add: heuristic_decide_def Let_def target_static)
next
  case (2 c)
  let ?s = "hp_static p"
  let ?base = "(sp_provider ?s, sp_model ?s, sp_fallback_provider ?s, sp_fallback_model ?s)"
  have "target (heuristic_decide p c) = ?base
      \<or> set_text (sp_fallback_provider ?s) \<and> target (heuristic_decide p c) = target (swapped ?s (the (sp_fallback_provider ?s)))"
    by (simp add: heuristic_decide_def Let_def target_static)
  then show ?case
    by (cases "sp_fallback_provider ?s") (auto simp: target_swapped set_text_def)
qed

interpretation named: routing_policy "build_named_routing_policy cfg name" "static_policy_of cfg" for cfg name
proof -
  show "routing_policy (build_named_routing_policy cfg name) (static_policy_of cfg)"
    using heuristic.routing_policy_axioms [of "\<lparr>hp_static = static_policy_of cfg, hp_cheap_max = sg_cheap_max cfg,
        hp_smart_min = sg_smart_min cfg\<rparr>"] static.routing_policy_axioms
    by (simp add: build_named_routing_policy_def)
qed

section \<open>What the factory builds\<close>

text \<open>Only the target of a decision decides what is built for it.\<close>

definition build_target ::
    "provider_settings \<Rightarrow> string \<times> string option \<times> string option \<times> string option \<Rightarrow> (exn, built_provider) result" where
  "build_target cfg t = (case t of (p, m, f, fm) \<Rightarrow>
     bind_result (build_single_provider p cfg m) (\<lambda>primary.
       if blank f then Inr primary
       else if py_lower (the f) = p then Inr primary
       else bind_result (build_single_provider (py_lower (the f)) cfg fm)
              (\<lambda>fallback. Inr (Resilient_Provider primary fallback))))"

lemma build_provider_for_target: "build_provider_for_decision cfg d = build_target cfg (target d)"
  by (simp add: build_provider_for_decision_def build_target_def target_def Let_def cong: if_cong)

lemma py_space_lower [simp]: "py_space (lower_char c) = py_space c"
proof -
  have range: "code_point (char_of n) = n mod 256" for n :: nat by (simp add: code_point_def)
  show ?thesis by (auto simp: lower_char_def py_space_def range Let_def)
qed

lemma py_strip_lower_Nil: "py_strip (py_lower s) = [] \<longleftrightarrow> py_strip s = []"
proof -
  have strip: "py_strip t = [] \<longleftrightarrow> (\<forall>c \<in> set t. py_space c)" for t
  proof
    assume "\<forall>c \<in> set t. py_space c"
    then show "py_strip t = []" by (auto simp: py_strip_def py_lstrip_def py_rstrip_def dest: set_dropWhileD)
  next
    assume e: "py_strip t = []"
    then have "dropWhile py_space (rev (dropWhile py_space t)) = []"
      by (simp add: py_strip_def py_lstrip_def py_rstrip_def)
    then have "\<forall>c \<in> set (dropWhile py_space t). py_space c" by (simp only: dropWhile_eq_Nil_conv set_rev)
    then have "dropWhile py_space t = []"
      using hd_dropWhile [of py_space t] by (cases "dropWhile py_space t") auto
    then show "\<forall>c \<in> set t. py_space c" by (simp add: dropWhile_eq_Nil_conv)
  qed
  show ?thesis by (simp add: strip py_lower_def)
qed

lemma blank_lower [simp]: "blank (Some (py_lower s)) = blank (Some s)"
  by (simp add: blank_def py_strip_lower_Nil)

lemma blank_Nil [simp]: "blank None" "blank (Some [])"
  by (simp_all add: blank_def py_strip_def py_lstrip_def py_rstrip_def)

lemma not_blank_lower: "\<not> blank (Some f) \<Longrightarrow> py_lower f \<noteq> []"
  by (auto simp: blank_def py_lower_def py_strip_def py_lstrip_def py_rstrip_def)

text \<open>An override by the configured model changes nothing.\<close>

lemma single_provider_own_model:
  "build_single_provider p cfg (model_for_provider (Some p) cfg) = build_single_provider p cfg None"
  by (auto simp: build_single_provider_def model_for_provider_def or_text_def set_text_def split: option.splits)

lemma build_configured_target:
  fixes cfg defines "s \<equiv> static_policy_of cfg"
  shows "build_target cfg (sp_provider s, sp_model s, sp_fallback_provider s, sp_fallback_model s) = build_provider cfg"
proof (cases "blank (sg_fallback_provider cfg)")
  case True
  then show ?thesis
    by (simp add: s_def static_policy_of_def Let_def build_target_def build_provider_def single_provider_own_model
        cong: if_cong)
next
  case False
  then obtain f where f: "sg_fallback_provider cfg = Some f" by (cases "sg_fallback_provider cfg") auto
  have "set_text (Some (py_lower f))" using False f not_blank_lower by (simp add: set_text_def)
  then show ?thesis
    using False f
    by (simp add: s_def static_policy_of_def Let_def build_target_def build_provider_def single_provider_own_model
        cong: if_cong)
qed

definition known_provider :: "string \<Rightarrow> bool" where
  "known_provider p = (p \<in> {''stub'', ''openai'', ''bedrock''})"

text \<open>The provider names a built provider can reach, first the one asked first.\<close>

fun reached :: "built_provider \<Rightarrow> string list" where
  "reached (Stub_Provider m) = [''stub'']"
| "reached (Openai_Provider c) = [''openai'']"
| "reached (Bedrock_Provider c) = [''bedrock'']"
| "reached (Disabled_Provider n r) = [n]"
| "reached (Resilient_Provider a b) = reached a @ reached b"

lemma build_single_known:
  "known_provider p \<Longrightarrow> \<exists>b. build_single_provider p cfg m = Inr b \<and> reached b = [p]"
  by (auto simp: known_provider_def build_single_provider_def)

lemma build_target_known:
  assumes "known_provider p" "blank f \<or> known_provider (py_lower (the f))"
  shows "\<exists>b. build_target cfg (p, m, f, fm) = Inr b
    \<and> reached b = (if blank f \<or> py_lower (the f) = p then [p] else [p, py_lower (the f)])"
proof -
  obtain a where a: "build_single_provider p cfg m = Inr a" "reached a = [p]"
    using build_single_known [OF assms(1)] by blast
  show ?thesis
  proof (cases "blank f \<or> py_lower (the f) = p")
    case True
    with a show ?thesis by (auto simp: build_target_def)
  next
    case False
    with assms(2) obtain b where "build_single_provider (py_lower (the f)) cfg fm = Inr b" "reached b = [py_lower (the f)]"
      using build_single_known by blast
    with a False show ?thesis by (auto simp: build_target_def)
  qed
qed

lemma py_lower_known: "known_provider p \<Longrightarrow> py_lower p = p"
  by (auto simp: known_provider_def py_lower_def lower_char_def code_point_def Let_def)

section \<open>Properties\<close>

text \<open>C16: routing always resolves to a provider and reaches only the configured primary and fallback,
  each at most once; a stream, and every request under a policy other than the heuristic one, gets exactly the
  provider that the configuration describes without routing.\<close>

theorem routing_reaches_configured_providers:
  assumes "known_provider (py_lower (sg_provider cfg))"
    and "blank (sg_fallback_provider cfg) \<or> known_provider (py_lower (the (sg_fallback_provider cfg)))"
  shows "\<exists>p d. fst (resolve_provider cfg elapsed c) = Inr (p, d)
    \<and> d = build_named_routing_policy cfg (sg_routing_policy cfg) c
    \<and> distinct (reached p)
    \<and> set (reached p) \<subseteq> {py_lower (sg_provider cfg)} \<union>
        (if blank (sg_fallback_provider cfg) then {} else {py_lower (the (sg_fallback_provider cfg))})
    \<and> (rx_stream c \<or> sg_routing_policy cfg \<noteq> ''heuristic'' \<longrightarrow> Inr p = build_provider cfg)"
proof -
  let ?s = "static_policy_of cfg" and ?name = "sg_routing_policy cfg"
  let ?d = "build_named_routing_policy cfg ?name c"
  let ?base = "(sp_provider ?s, sp_model ?s, sp_fallback_provider ?s, sp_fallback_model ?s)"
  have base: "target ?d = ?base" if "rx_stream c \<or> ?name \<noteq> ''heuristic''"
  proof (cases "rx_stream c")
    case True
    then show ?thesis by (rule named.stream_fixed)
  next
    case False
    with that show ?thesis by (simp add: build_named_routing_policy_def target_static)
  qed
  have prov: "sp_provider ?s = py_lower (sg_provider cfg)" by (simp add: static_policy_of_def Let_def)
  have fb: "sp_fallback_provider ?s = (if blank (sg_fallback_provider cfg) then None
      else Some (py_lower (the (sg_fallback_provider cfg))))" by (simp add: static_policy_of_def Let_def)
  have fb_known: "blank (sp_fallback_provider ?s) \<or> known_provider (py_lower (the (sp_fallback_provider ?s)))"
    using assms(2) by (auto simp: fb)
  have fb_name: "blank (sp_fallback_provider ?s) \<longleftrightarrow> blank (sg_fallback_provider cfg)"
    by (cases "sg_fallback_provider cfg") (simp_all add: fb)
  obtain b where b: "build_target cfg (target ?d) = Inr b" "distinct (reached b)"
    "set (reached b) \<subseteq> {py_lower (sg_provider cfg)} \<union>
        (if blank (sg_fallback_provider cfg) then {} else {py_lower (the (sg_fallback_provider cfg))})"
  proof (cases "target ?d = ?base")
    case True
    obtain b where "build_target cfg ?base = Inr b"
      "reached b = (if blank (sp_fallback_provider ?s) \<or> py_lower (the (sp_fallback_provider ?s)) = sp_provider ?s
        then [sp_provider ?s] else [sp_provider ?s, py_lower (the (sp_fallback_provider ?s))])"
      using build_target_known [of "sp_provider ?s" "sp_fallback_provider ?s" cfg "sp_model ?s" "sp_fallback_model ?s"]
        assms(1) prov fb_known by auto
    then show ?thesis
      using True that [of b] prov fb fb_name by (auto split: if_splits)
  next
    case False
    then obtain f where f: "sp_fallback_provider ?s = Some f" "f \<noteq> []"
      "target ?d = (f, sp_fallback_model ?s, Some (sp_provider ?s), sp_model ?s)"
      using named.configured [of cfg ?name c] by blast
    have nb: "\<not> blank (sg_fallback_provider cfg)" "f = py_lower (the (sg_fallback_provider cfg))"
      using f(1) by (auto simp: fb split: if_splits)
    have "known_provider f" using nb assms(2) by simp
    obtain b where "build_target cfg (target ?d) = Inr b"
      "reached b = (if blank (Some (sp_provider ?s)) \<or> py_lower (sp_provider ?s) = f then [f] else [f, py_lower (sp_provider ?s)])"
      using build_target_known [OF \<open>known_provider f\<close>, of "Some (sp_provider ?s)" cfg "sp_fallback_model ?s" "sp_model ?s"]
        assms(1) prov f(3) by auto
    then show ?thesis using that [of b] prov nb by (auto split: if_splits)
  qed
  have "Inr b = build_provider cfg" if "rx_stream c \<or> ?name \<noteq> ''heuristic''"
    using b(1) base [OF that] build_configured_target [of cfg] by simp
  with b show ?thesis
    by (simp add: resolve_provider_def Let_def build_provider_for_target)
qed

definition example_provider_settings :: provider_settings where
  "example_provider_settings = \<lparr>sg_provider = ''OpenAI'', sg_fallback_provider = Some ''stub'',
     sg_routing_policy = ''heuristic'', sg_shadow_policy = None, sg_shadow_enabled = True, sg_shadow_timeout_ms = 25,
     sg_cheap_max = 80, sg_smart_min = 120, sg_stub_mode = ''ok'', sg_openai_api_key = None,
     sg_openai_model = ''gpt-4.1-mini'', sg_bedrock_region = None, sg_bedrock_model = None,
     sg_bedrock_prompt_version = ''v0'', sg_max_attempts = 3, sg_backoff_base_ms = 100, sg_backoff_max_ms = 1000\<rparr>"

theorem routing_reaches_configured_providers_witness:
  "\<exists>p d. fst (resolve_provider example_provider_settings 0
      (build_routing_context example_provider_settings 1 [chat_message_of User ''hi''] True)) = Inr (p, d)
    \<and> Inr p = build_provider example_provider_settings"
proof -
  have "known_provider (py_lower (sg_provider example_provider_settings))"
    "blank (sg_fallback_provider example_provider_settings)
      \<or> known_provider (py_lower (the (sg_fallback_provider example_provider_settings)))"
    by code_simp+
  from routing_reaches_configured_providers [OF this, of 0
      "build_routing_context example_provider_settings 1 [chat_message_of User ''hi''] True"]
  show ?thesis by (auto simp: build_routing_context_def Let_def)
qed

end
