(* ===== verification/Costs.thy ===== *)
theory Costs imports Routing begin

text \<open>
  Cost estimates (\<open>app/core/utils/costs.py\<close>): the frozen price snapshot by provider and model, the
  generation cost of one request and the older per-provider estimate. Amounts are exact rationals
  where the code has floats, so rounding is not modelled.
\<close>

record model_rate =
  mr_input :: rat
  mr_output :: rat
  mr_cached_input :: "rat option"

definition price_snapshot :: "((string \<times> string option) \<times> model_rate) list" where
  "price_snapshot = [
     ((''openai'', Some ''gpt-4.1-mini''), \<lparr>mr_input = 4/10, mr_output = 16/10, mr_cached_input = Some (1/10)\<rparr>),
     ((''bedrock'', Some ''nvidia.nemotron-nano-12b-v2''), \<lparr>mr_input = 6/100, mr_output = 23/100, mr_cached_input = None\<rparr>),
     ((''stub'', None), \<lparr>mr_input = 0, mr_output = 0, mr_cached_input = None\<rparr>)]"

definition clamp_tokens :: "int \<Rightarrow> rat" where
  "clamp_tokens n = of_int (max n 0)"

definition estimate_generation_cost_usd ::
    "string option \<Rightarrow> string option \<Rightarrow> int option \<Rightarrow> int option \<Rightarrow> rat option" where
  "estimate_generation_cost_usd provider model input_tokens output_tokens =
     (case map_of price_snapshot (case provider of Some p \<Rightarrow> p | None \<Rightarrow> [], model) of
        None \<Rightarrow> None
      | Some rate \<Rightarrow>
          (case (input_tokens, output_tokens) of
             (Some it, Some ot) \<Rightarrow>
               Some (clamp_tokens it / 1000000 * mr_input rate + clamp_tokens ot / 1000000 * mr_output rate)
           | _ \<Rightarrow> None))"

record token_rates =
  tr_input_per_1k :: rat
  tr_output_per_1k :: rat

definition estimate_cost :: "(string \<times> token_rates) list \<Rightarrow> string \<Rightarrow> int option \<Rightarrow> int option \<Rightarrow> rat" where
  "estimate_cost rates_by_provider provider input_tokens output_tokens =
     (let it = clamp_tokens (case input_tokens of Some n \<Rightarrow> n | None \<Rightarrow> 0);
          ot = clamp_tokens (case output_tokens of Some n \<Rightarrow> n | None \<Rightarrow> 0)
      in case map_of rates_by_provider provider of
           None \<Rightarrow> 0
         | Some rates \<Rightarrow> it / 1000 * tr_input_per_1k rates + ot / 1000 * tr_output_per_1k rates)"

lemma clamp_tokens_mono: "m \<le> n \<Longrightarrow> 0 \<le> clamp_tokens m \<and> clamp_tokens m \<le> clamp_tokens n"
  by (simp add: clamp_tokens_def)

lemma price_nonneg: "map_of price_snapshot k = Some r \<Longrightarrow> 0 \<le> mr_input r \<and> 0 \<le> mr_output r"
  by (auto simp: price_snapshot_def split: if_splits)

section \<open>Properties\<close>

text \<open>A known price never decreases with the token counts and is never negative; the price of the
  registered OpenAI model is the published one; a pair without a price and a request without usage cost
  \<open>None\<close>, not zero.\<close>

theorem generation_cost_is_monotone_or_unknown:
  shows "(\<forall>c. estimate_generation_cost_usd p m (Some i) (Some j) = Some c \<longrightarrow> 0 \<le> c \<and>
            (\<forall>i' j'. i \<le> i' \<and> j \<le> j' \<longrightarrow>
               (\<exists>c'. estimate_generation_cost_usd p m (Some i') (Some j') = Some c' \<and> c \<le> c')))
    \<and> estimate_generation_cost_usd (Some ''openai'') (Some ''gpt-4.1-mini'') (Some 1000000) (Some 1000000) = Some 2
    \<and> (map_of price_snapshot (case p of Some q \<Rightarrow> q | None \<Rightarrow> [], m) = None \<longrightarrow> estimate_generation_cost_usd p m a b = None)
    \<and> estimate_generation_cost_usd p m None b = None \<and> estimate_generation_cost_usd p m a None = None"
proof (intro conjI allI impI)
  fix c assume c: "estimate_generation_cost_usd p m (Some i) (Some j) = Some c"
  then obtain r where r: "map_of price_snapshot (case p of Some q \<Rightarrow> q | None \<Rightarrow> [], m) = Some r"
    "c = clamp_tokens i / 1000000 * mr_input r + clamp_tokens j / 1000000 * mr_output r"
    by (auto simp: estimate_generation_cost_usd_def split: option.splits)
  note nn = price_nonneg [OF r(1)]
  show "0 \<le> c" using nn clamp_tokens_mono [of i i] clamp_tokens_mono [of j j] by (simp add: r(2))
  fix i' j' assume "i \<le> i' \<and> j \<le> j'"
  then have "c \<le> clamp_tokens i' / 1000000 * mr_input r + clamp_tokens j' / 1000000 * mr_output r"
    unfolding r(2) using nn clamp_tokens_mono
    by (intro add_mono mult_right_mono divide_right_mono) auto
  then show "\<exists>c'. estimate_generation_cost_usd p m (Some i') (Some j') = Some c' \<and> c \<le> c'"
    using r(1) by (simp add: estimate_generation_cost_usd_def)
next
  show "estimate_generation_cost_usd (Some ''openai'') (Some ''gpt-4.1-mini'') (Some 1000000) (Some 1000000) = Some 2"
    by (simp add: estimate_generation_cost_usd_def price_snapshot_def clamp_tokens_def)
next
  assume "map_of price_snapshot (case p of Some q \<Rightarrow> q | None \<Rightarrow> [], m) = None"
  then show "estimate_generation_cost_usd p m a b = None" by (simp add: estimate_generation_cost_usd_def)
qed (simp_all add: estimate_generation_cost_usd_def split: option.split)

theorem generation_cost_witness:
  "estimate_generation_cost_usd (Some ''openai'') (Some ''gpt-4.1-mini'') (Some 1000000) (Some 1000000) = Some 2
   \<and> (\<exists>c. estimate_generation_cost_usd (Some ''openai'') (Some ''gpt-4.1-mini'') (Some 2000000) (Some 1000000) = Some c \<and> 2 \<le> c)"
  using generation_cost_is_monotone_or_unknown [of "Some ''openai''" "Some ''gpt-4.1-mini''" 1000000 1000000] by auto

text \<open>The cost recorded for a request that the stub provider answered is unknown: its results carry the
  model version \<open>stub-1\<close>, while the snapshot prices the stub under no model, so the measured zero the
  snapshot promises for it is never produced.\<close>

theorem stub_cost_is_unknown:
  assumes "stub_generate sha256_hex elapsed mode i = Inr r"
  shows "estimate_generation_cost_usd (Some (pr_provider r)) (Some (pr_model_version r))
      (pr_input_tokens r) (pr_output_tokens r) = None
    \<and> estimate_generation_cost_usd (Some (pr_provider r)) None (pr_input_tokens r) (pr_output_tokens r) = Some 0"
  using assms
  by (auto simp: stub_generate_def Let_def estimate_generation_cost_usd_def price_snapshot_def clamp_tokens_def
      split: if_splits)

theorem stub_cost_is_unknown_witness:
  "\<exists>r. stub_generate (\<lambda>_. replicate 64 (CHR ''0'')) 5 ''ok'' example_input = Inr r
    \<and> estimate_generation_cost_usd (Some (pr_provider r)) (Some (pr_model_version r))
        (pr_input_tokens r) (pr_output_tokens r) = None"
proof -
  obtain r where run: "stub_generate (\<lambda>_. replicate 64 (CHR ''0'')) 5 ''ok'' example_input = Inr r"
    by (simp add: stub_generate_def Let_def)
  with stub_cost_is_unknown [OF run] show ?thesis by blast
qed

end
