(* ===== verification/Json_Values.thy ===== *)
theory Json_Values imports Complex_Main Json_Text begin

text \<open>
  What Python does with a value read from JSON: its truth value, its text, equality and membership.
  \<open>float_value\<close> is the double a number literal denotes, none when it is infinite; \<open>odd_str\<close> is
  \<open>str\<close> of a float, a list or a dict.
\<close>

definition json_falsy :: "(string \<Rightarrow> rat option) \<Rightarrow> json \<Rightarrow> bool" where
  "json_falsy float_value j = (case j of
     JNull \<Rightarrow> True | JBool b \<Rightarrow> \<not> b | JInt i \<Rightarrow> i = 0 | JFloat l \<Rightarrow> float_value l = Some 0
   | JStr s \<Rightarrow> s = [] | JArr xs \<Rightarrow> xs = [] | JObj kvs \<Rightarrow> kvs = [])"

definition py_str :: "(json \<Rightarrow> string) \<Rightarrow> json \<Rightarrow> string" where
  "py_str odd_str j = (case j of
     JStr s \<Rightarrow> s | JInt i \<Rightarrow> int_dec i | JBool b \<Rightarrow> (if b then ''True'' else ''False'') | JNull \<Rightarrow> ''None''
   | _ \<Rightarrow> odd_str j)"

text \<open>A number as a sign of infinity or a rational; a bool is a number.\<close>

definition number_of_json :: "(string \<Rightarrow> rat option) \<Rightarrow> json \<Rightarrow> (bool + rat) option" where
  "number_of_json float_value j = (case j of
     JInt i \<Rightarrow> Some (Inr (of_int i))
   | JBool b \<Rightarrow> Some (Inr (if b then 1 else 0))
   | JFloat l \<Rightarrow> Some (case float_value l of Some x \<Rightarrow> Inr x | None \<Rightarrow> Inl (take 1 l = ''-''))
   | _ \<Rightarrow> None)"

lemma json_size_member [termination_simp]: "x \<in> set xs \<Longrightarrow> size x < Suc (size_list size xs)"
  by (induction xs) auto

lemma json_size_pair [termination_simp]: "(k, v) \<in> set kvs \<Longrightarrow> size (v :: json) < Suc (size_list (size_prod size size) kvs)"
  by (induction kvs) auto

function py_eq :: "(string \<Rightarrow> rat option) \<Rightarrow> json \<Rightarrow> json \<Rightarrow> bool" where
  "py_eq fv (JArr xs) b = (case b of
     JArr ys \<Rightarrow> length xs = length ys \<and> list_all (\<lambda>(x, y). py_eq fv x y) (zip xs ys) | _ \<Rightarrow> False)"
| "py_eq fv (JObj kvs) b = (case b of
     JObj lws \<Rightarrow> length kvs = length lws
       \<and> list_all (\<lambda>(k, v). case map_of lws k of None \<Rightarrow> False | Some w \<Rightarrow> py_eq fv v w) kvs
   | _ \<Rightarrow> False)"
| "py_eq fv (JStr s) b = (b = JStr s)"
| "py_eq fv JNull b = (b = JNull)"
| "py_eq fv (JInt i) b = (number_of_json fv b = number_of_json fv (JInt i))"
| "py_eq fv (JBool c) b = (number_of_json fv b = number_of_json fv (JBool c))"
| "py_eq fv (JFloat l) b = (number_of_json fv b = number_of_json fv (JFloat l))"
  by pat_completeness auto

termination
  by (relation "measure (\<lambda>(fv, a, b). size a)")
    (auto dest!: set_zip_leftD simp: json_size_member termination_simp)

text \<open>\<open>value in options\<close>: none when the test itself raises.\<close>

definition py_in :: "(string \<Rightarrow> rat option) \<Rightarrow> json \<Rightarrow> json \<Rightarrow> bool option" where
  "py_in fv v options = (case options of
     JArr xs \<Rightarrow> Some (list_ex (\<lambda>x. py_eq fv v x) xs)
   | JStr s \<Rightarrow> (case v of JStr t \<Rightarrow> Some (sublist t s) | _ \<Rightarrow> None)
   | JObj kvs \<Rightarrow> (case v of JStr k \<Rightarrow> Some (k \<in> set (map fst kvs)) | JArr _ \<Rightarrow> None | JObj _ \<Rightarrow> None | _ \<Rightarrow> Some False)
   | _ \<Rightarrow> None)"

end
