(* ===== verification/Openai_Provider.thy ===== *)
theory Openai_Provider imports Prompt Routing Json_Values begin

text \<open>
  The OpenAI adapter (\<open>app/core/providers/openai_provider.py\<close>): the request payload, the mapping of
  client exceptions and status codes to normalized failures, the bounded retry around one POST, the
  reading of the answer, and the streaming half with its event-stream reader. The HTTP client is a
  parameter: what a POST answers per attempt, and the lines a stream delivers with the exception
  that ends it, if any. \<open>float_value\<close> is the double a number literal denotes, none when it is
  infinite. Log records are not modelled.
\<close>

section \<open>Failures\<close>

text \<open>What the client and the reader can raise, by the classes the handlers distinguish.\<close>

datatype client_exn =
  Httpx_Timeout
| Httpx_Request string
| Httpx_Error string
| Json_Decode_Error
| Raised_Provider provider_error
| Raised_Other string

definition map_httpx_exc :: "client_exn \<Rightarrow> provider_error" where
  "map_httpx_exc e = (case e of
     Httpx_Timeout \<Rightarrow> mk_provider_error Kind_timeout ''provider timeout''
   | Httpx_Request _ \<Rightarrow> mk_provider_error Kind_upstream ''provider upstream error''
   | _ \<Rightarrow> mk_provider_error Kind_unknown ''provider unknown error'')"

definition map_http_status :: "int \<Rightarrow> provider_error" where
  "map_http_status status_code =
     (if status_code = 400 then mk_provider_error Kind_bad_request ''provider request failed''
      else if status_code = 401 \<or> status_code = 403 then mk_provider_error Kind_auth ''provider auth failed''
      else if status_code = 429 then mk_provider_error Kind_rate_limit ''provider rate limited''
      else if 500 \<le> status_code \<and> status_code \<le> 599 then mk_provider_error Kind_upstream ''provider upstream error''
      else if 400 \<le> status_code \<and> status_code \<le> 499 then mk_provider_error Kind_unknown ''provider request failed''
      else mk_provider_error Kind_unknown ''provider request failed'')"

definition transient_kind :: "provider_error_kind \<Rightarrow> bool" where
  "transient_kind k = (k \<in> {Kind_rate_limit, Kind_upstream, Kind_timeout})"

definition should_retry :: "exn \<Rightarrow> bool" where
  "should_retry e = (case e of Provider_Error p \<Rightarrow> transient_kind (pe_kind p) | _ \<Rightarrow> False)"

definition unknown_failure :: exn where
  "unknown_failure = Provider_Error (mk_provider_error Kind_unknown ''provider unknown error'')"

section \<open>Python values of a JSON answer\<close>

text \<open>\<open>int(text)\<close>: blanks around, an optional sign, digits with single underscores between them.\<close>

fun int_digits :: "bool \<Rightarrow> string \<Rightarrow> string option" where
  "int_digits after_digit [] = (if after_digit then Some [] else None)"
| "int_digits after_digit (c # cs) =
     (if is_digit c then map_option (\<lambda>ds. c # ds) (int_digits True cs)
      else if c = CHR ''_'' \<and> after_digit then (if cs = [] then None else int_digits False cs)
      else None)"

definition int_max_digits :: nat where
  "int_max_digits = 4300"

definition digits_value :: "string \<Rightarrow> int option" where
  "digits_value s = (case int_digits False s of
     None \<Rightarrow> None
   | Some ds \<Rightarrow> if int_max_digits < length ds then None else Some (int (dec_val ds)))"

definition int_of_text :: "string \<Rightarrow> int option" where
  "int_of_text s = (let body = py_strip s in
     if py_startswith body ''-'' then map_option uminus (digits_value (tl body))
     else if py_startswith body ''+'' then digits_value (tl body)
     else digits_value body)"

definition truncated_int :: "rat \<Rightarrow> int" where
  "truncated_int x = (if x < 0 then - floor (- x) else floor x)"

definition safe_int :: "(string \<Rightarrow> rat option) \<Rightarrow> json option \<Rightarrow> int option" where
  "safe_int float_value v = (case v of
     None \<Rightarrow> None
   | Some j \<Rightarrow> (case j of
       JNull \<Rightarrow> None
     | JBool b \<Rightarrow> Some (if b then 1 else 0)
     | JInt i \<Rightarrow> Some i
     | JFloat l \<Rightarrow> map_option truncated_int (float_value l)
     | JStr s \<Rightarrow> int_of_text s
     | JArr _ \<Rightarrow> None
     | JObj _ \<Rightarrow> None))"

text \<open>\<open>x or []\<close> and then a loop over it: none when the loop itself raises.\<close>

definition looped_items :: "(string \<Rightarrow> rat option) \<Rightarrow> json option \<Rightarrow> json list option" where
  "looped_items float_value v = (case v of
     None \<Rightarrow> Some []
   | Some j \<Rightarrow> if json_falsy float_value j then Some [] else (case j of JArr xs \<Rightarrow> Some xs | _ \<Rightarrow> None))"

fun part_texts :: "json list \<Rightarrow> string list option" where
  "part_texts [] = Some []"
| "part_texts (JObj kvs # ps) =
     (case (map_of kvs ''type'', map_of kvs ''text'') of
        (Some (JStr t), Some (JStr s)) \<Rightarrow>
          if t = ''output_text'' then map_option (\<lambda>ts. s # ts) (part_texts ps) else part_texts ps
      | _ \<Rightarrow> part_texts ps)"
| "part_texts (_ # ps) = None"

fun item_texts :: "(string \<Rightarrow> rat option) \<Rightarrow> json list \<Rightarrow> string list option" where
  "item_texts float_value [] = Some []"
| "item_texts float_value (JObj kvs # items) =
     (if map_of kvs ''type'' \<noteq> Some (JStr ''message'') then item_texts float_value items
      else if map_of kvs ''role'' \<noteq> Some (JStr ''assistant'') then item_texts float_value items
      else (case looped_items float_value (map_of kvs ''content'') of
              None \<Rightarrow> None
            | Some parts \<Rightarrow> (case part_texts parts of
                None \<Rightarrow> None
              | Some ts \<Rightarrow> map_option (\<lambda>us. ts @ us) (item_texts float_value items))))"
| "item_texts float_value (_ # items) = None"

definition extract_output_text :: "(string \<Rightarrow> rat option) \<Rightarrow> (string \<times> json) list \<Rightarrow> string option" where
  "extract_output_text float_value kvs =
     (case looped_items float_value (map_of kvs ''output'') of
        None \<Rightarrow> None
      | Some items \<Rightarrow> map_option (\<lambda>chunks. let text = py_strip (concat chunks)
            in if text \<noteq> [] then text else ''(empty response)'') (item_texts float_value items))"

definition text_member :: "(string \<times> json) list \<Rightarrow> string \<Rightarrow> string \<Rightarrow> string" where
  "text_member kvs k default_text = (case map_of kvs k of
     Some (JStr s) \<Rightarrow> if s \<noteq> [] then s else default_text
   | _ \<Rightarrow> default_text)"

definition extract_model_version :: "(string \<times> json) list \<Rightarrow> string \<Rightarrow> string" where
  "extract_model_version kvs default_model = text_member kvs ''model'' default_model"

definition extract_prompt_version :: "(string \<times> json) list \<Rightarrow> string" where
  "extract_prompt_version kvs = text_member kvs ''prompt_version'' ''v1''"

text \<open>\<open>data.get("usage") or {}\<close>: none when what is there has no \<open>get\<close>.\<close>

definition usage_members :: "(string \<Rightarrow> rat option) \<Rightarrow> (string \<times> json) list \<Rightarrow> (string \<times> json) list option" where
  "usage_members float_value kvs = (case map_of kvs ''usage'' of
     None \<Rightarrow> Some []
   | Some j \<Rightarrow> if json_falsy float_value j then Some [] else (case j of JObj us \<Rightarrow> Some us | _ \<Rightarrow> None))"

definition total_or_sum :: "int option \<Rightarrow> int option \<Rightarrow> int option \<Rightarrow> int option" where
  "total_or_sum given inp out = (case given of
     Some t \<Rightarrow> Some t
   | None \<Rightarrow> (case (inp, out) of (Some i, Some j) \<Rightarrow> Some (i + j) | _ \<Rightarrow> None))"

definition build_provider_result ::
    "(string \<Rightarrow> rat option) \<Rightarrow> string \<Rightarrow> (string \<times> json) list \<Rightarrow> int \<Rightarrow> provider_result option" where
  "build_provider_result float_value model kvs latency_ms =
     (case usage_members float_value kvs of
        None \<Rightarrow> None
      | Some us \<Rightarrow>
          (let inp = safe_int float_value (map_of us ''input_tokens'');
               out = safe_int float_value (map_of us ''output_tokens'');
               given = safe_int float_value (map_of us ''total_tokens'')
           in map_option (\<lambda>content. \<lparr>pr_content = content, pr_provider = ''openai'',
                pr_model_version = extract_model_version kvs model,
                pr_prompt_version = extract_prompt_version kvs,
                pr_input_tokens = inp, pr_output_tokens = out,
                pr_total_tokens = total_or_sum given inp out,
                pr_latency_ms = Some latency_ms\<rparr>) (extract_output_text float_value kvs)))"


section \<open>Request\<close>

record openai_provider_config =
  op_api_key :: string
  op_model :: string
  op_timeout_s :: rat
  op_max_attempts :: int
  op_backoff_base_ms :: int
  op_backoff_max_ms :: int

definition build_payload :: "openai_provider_config \<Rightarrow> provider_input \<Rightarrow> json" where
  "build_payload cfg i = JObj [
     (''model'', JStr (op_model cfg)),
     (''input'', JArr (map (\<lambda>m. JObj [
        (''role'', JStr (role_text (cm_role m))),
        (''content'', JArr [JObj [(''type'', JStr ''input_text''), (''text'', JStr (cm_content m))]])])
      (messages_for_provider i)))]"

definition openai_retry_policy :: "openai_provider_config \<Rightarrow> retry_policy" where
  "openai_retry_policy cfg = \<lparr>rp_max_attempts = max 1 (op_max_attempts cfg),
     rp_base_delay_ms = op_backoff_base_ms cfg, rp_max_delay_ms = op_backoff_max_ms cfg\<rparr>"

section \<open>Generate\<close>

record http_response =
  hr_status :: int
  hr_body :: string

type_synonym http_post = "json \<Rightarrow> int \<Rightarrow> (client_exn, http_response) result"

definition post_attempt :: "http_post \<Rightarrow> json \<Rightarrow> int \<Rightarrow> (exn, http_response) result" where
  "post_attempt post payload attempt = (case post payload attempt of
     Inl e \<Rightarrow> Inl (Provider_Error (map_httpx_exc e))
   | Inr r \<Rightarrow> if hr_status r \<ge> 400 then Inl (Provider_Error (map_http_status (hr_status r))) else Inr r)"

definition read_answer ::
    "(string \<Rightarrow> rat option) \<Rightarrow> openai_provider_config \<Rightarrow> int \<Rightarrow> http_response \<Rightarrow> (exn, provider_result) result" where
  "read_answer float_value cfg latency_ms r = (case json_loads (hr_body r) of
     Some (JObj kvs) \<Rightarrow> (case build_provider_result float_value (op_model cfg) kvs latency_ms of
         None \<Rightarrow> Inl unknown_failure
       | Some out \<Rightarrow> Inr out)
   | _ \<Rightarrow> Inl unknown_failure)"

text \<open>The outcome with the attempts made and the delays slept; the client it built is closed on every path.\<close>

definition openai_run ::
    "(string \<Rightarrow> rat option) \<Rightarrow> (int \<Rightarrow> int \<Rightarrow> int) \<Rightarrow> openai_provider_config \<Rightarrow> http_post \<Rightarrow> int \<Rightarrow> provider_input
     \<Rightarrow> (exn, provider_result) result \<times> int list \<times> int list" where
  "openai_run float_value jitter cfg post latency_ms i =
     (case retry_async jitter (post_attempt post (build_payload cfg i)) should_retry (openai_retry_policy cfg) of
        (Inl e, attempts, delays) \<Rightarrow>
          (Inl (case e of Provider_Error p \<Rightarrow> Provider_Error p | _ \<Rightarrow> unknown_failure), attempts, delays)
      | (Inr r, attempts, delays) \<Rightarrow> (read_answer float_value cfg latency_ms r, attempts, delays))"

definition openai_generate ::
    "(string \<Rightarrow> rat option) \<Rightarrow> (int \<Rightarrow> int \<Rightarrow> int) \<Rightarrow> openai_provider_config \<Rightarrow> http_post \<Rightarrow> int \<Rightarrow> generate_port" where
  "openai_generate float_value jitter cfg post latency_ms i = fst (openai_run float_value jitter cfg post latency_ms i)"

section \<open>Reading an event stream\<close>

type_synonym stream_event = "string option \<times> (string \<times> json) list"

definition parse_error :: provider_error where
  "parse_error = mk_provider_error Kind_unknown ''provider stream parse error''"

definition parse_sse_event :: "string option \<Rightarrow> string list \<Rightarrow> (client_exn, stream_event option) result" where
  "parse_sse_event event_name data_lines =
     (if data_lines = [] then Inr None
      else let raw_data = py_strip (py_join nl data_lines) in
        if raw_data = [] \<or> raw_data = ''[DONE]'' then Inr None
        else (case json_loads raw_data of
            None \<Rightarrow> Inl Json_Decode_Error
          | Some (JObj kvs) \<Rightarrow> Inr (Some (event_name, kvs))
          | Some _ \<Rightarrow> Inl (Raised_Provider parse_error)))"

definition non_empty :: "string \<Rightarrow> string option" where
  "non_empty s = (if s = [] then None else Some s)"

definition yielded :: "stream_event option \<Rightarrow> stream_event list \<times> client_exn option \<Rightarrow> stream_event list \<times> client_exn option" where
  "yielded ev run = (case ev of None \<Rightarrow> run | Some e \<Rightarrow> (e # fst run, snd run))"

text \<open>The events of the remaining lines, and the exception that ends the iteration. \<open>failure\<close>: what the
  client raises after the last line.\<close>

fun iter_sse_events ::
    "client_exn option \<Rightarrow> string option \<Rightarrow> string list \<Rightarrow> string list \<Rightarrow> stream_event list \<times> client_exn option" where
  "iter_sse_events failure event_name data_lines [] = (case failure of
     Some e \<Rightarrow> ([], Some e)
   | None \<Rightarrow> (case parse_sse_event event_name data_lines of
       Inl e \<Rightarrow> ([], Some e)
     | Inr ev \<Rightarrow> yielded ev ([], None)))"
| "iter_sse_events failure event_name data_lines (raw_line # rest) =
     (let line = py_strip raw_line in
      if line = [] then (case parse_sse_event event_name data_lines of
          Inl e \<Rightarrow> ([], Some e)
        | Inr ev \<Rightarrow> yielded ev (iter_sse_events failure None [] rest))
      else if py_startswith line '':'' then iter_sse_events failure event_name data_lines rest
      else if py_startswith line ''event:''
      then iter_sse_events failure (non_empty (py_strip (drop 6 line))) data_lines rest
      else if py_startswith line ''data:''
      then iter_sse_events failure event_name (data_lines @ [py_lstrip (drop 5 line)]) rest
      else iter_sse_events failure event_name data_lines rest)"

definition stream_payload_type :: "(string \<times> json) list \<Rightarrow> string option" where
  "stream_payload_type payload = (case map_of payload ''type'' of
     Some (JStr s) \<Rightarrow> non_empty s
   | _ \<Rightarrow> None)"

definition event_type :: "stream_event \<Rightarrow> string option" where
  "event_type e = (case fst e of Some n \<Rightarrow> if n \<noteq> [] then Some n else stream_payload_type (snd e)
     | None \<Rightarrow> stream_payload_type (snd e))"

definition extract_stream_delta :: "stream_event \<Rightarrow> string" where
  "extract_stream_delta e =
     (if event_type e = Some ''response.output_text.delta''
      then (case map_of (snd e) ''delta'' of Some (JStr d) \<Rightarrow> d | _ \<Rightarrow> []) else [])"

definition extract_stream_response_payload :: "stream_event \<Rightarrow> (string \<times> json) list option" where
  "extract_stream_response_payload e =
     (if event_type e = Some ''response.completed''
      then (case map_of (snd e) ''response'' of Some (JObj kvs) \<Rightarrow> Some kvs | _ \<Rightarrow> None) else None)"

text \<open>The kind by the error's type: a type that cannot be hashed raises.\<close>

definition kind_of_error_type :: "json option \<Rightarrow> (client_exn, provider_error_kind) result" where
  "kind_of_error_type t = (case t of
     Some (JArr _) \<Rightarrow> Inl (Raised_Other ''TypeError'')
   | Some (JObj _) \<Rightarrow> Inl (Raised_Other ''TypeError'')
   | Some (JStr s) \<Rightarrow>
       Inr (if s = ''invalid_request_error'' then Kind_bad_request
            else if s = ''authentication_error'' \<or> s = ''invalid_api_key'' then Kind_auth
            else if s = ''rate_limit_error'' then Kind_rate_limit
            else Kind_unknown)
   | _ \<Rightarrow> Inr Kind_unknown)"

definition extract_stream_error :: "(string \<Rightarrow> rat option) \<Rightarrow> (string \<times> json) list \<Rightarrow> (client_exn, provider_error option) result" where
  "extract_stream_error float_value payload = (case map_of payload ''error'' of
     Some (JObj err) \<Rightarrow>
       (let status = safe_int float_value (map_of err ''status'') in
        bind_result (case status of
            Some n \<Rightarrow> Inr (pe_kind (map_http_status n))
          | None \<Rightarrow> kind_of_error_type (map_of err ''type''))
          (\<lambda>kind. Inr (Some \<lparr>pe_kind = kind, pe_message = text_member err ''message'' ''provider request failed'',
             pe_provider = ''openai'', pe_http_status = status, pe_retryable = transient_kind kind,
             pe_error_code = (case map_of err ''code'' of Some (JStr c) \<Rightarrow> Some c | _ \<Rightarrow> None)\<rparr>)))
   | _ \<Rightarrow> Inr None)"

section \<open>Consuming a stream\<close>

record consumption =
  co_parts :: "string list"
  co_final :: "(string \<times> json) list option"
  co_error :: "client_exn option"

fun consume_events :: "(string \<Rightarrow> rat option) \<Rightarrow> client_exn option \<Rightarrow> stream_event list \<Rightarrow> consumption \<Rightarrow> consumption" where
  "consume_events float_value failure [] c = c\<lparr>co_error := failure\<rparr>"
| "consume_events float_value failure (e # es) c =
     (case extract_stream_error float_value (snd e) of
        Inl x \<Rightarrow> c\<lparr>co_error := Some x\<rparr>
      | Inr (Some p) \<Rightarrow> c\<lparr>co_error := Some (Raised_Provider p)\<rparr>
      | Inr None \<Rightarrow>
          (let delta = extract_stream_delta e;
               parts = (if delta \<noteq> [] then co_parts c @ [delta] else co_parts c);
               final = (case extract_stream_response_payload e of Some kvs \<Rightarrow> Some kvs | None \<Rightarrow> co_final c)
           in consume_events float_value failure es (c\<lparr>co_parts := parts, co_final := final\<rparr>)))"

definition normalize_stream_error :: "client_exn \<Rightarrow> provider_error" where
  "normalize_stream_error e = (case e of
     Raised_Provider p \<Rightarrow> p
   | Json_Decode_Error \<Rightarrow> parse_error
   | Raised_Other _ \<Rightarrow> mk_provider_error Kind_unknown ''provider unknown error''
   | _ \<Rightarrow> map_httpx_exc e)"

definition final_payload :: "openai_provider_config \<Rightarrow> consumption \<Rightarrow> (string \<times> json) list" where
  "final_payload cfg c = (case co_final c of
     Some (kv # kvs) \<Rightarrow> kv # kvs
   | _ \<Rightarrow> [(''output'', JArr [JObj [
              (''type'', JStr ''message''),
              (''role'', JStr ''assistant''),
              (''content'', JArr [JObj [(''type'', JStr ''output_text''), (''text'', JStr (concat (co_parts c)))]])]]),
           (''model'', JStr (op_model cfg))])"

definition stream_result ::
    "(string \<Rightarrow> rat option) \<Rightarrow> openai_provider_config \<Rightarrow> int \<Rightarrow> consumption \<Rightarrow> (exn, provider_stream_result) result" where
  "stream_result float_value cfg latency_ms c = (case co_error c of
     Some e \<Rightarrow> Inl (Provider_Error (normalize_stream_error e))
   | None \<Rightarrow>
       (case build_provider_result float_value (op_model cfg) (final_payload cfg c) latency_ms of
          None \<Rightarrow> Inl unknown_failure
        | Some r \<Rightarrow>
            (let joined = concat (co_parts c);
                 content = (if joined \<noteq> [] then joined else pr_content r)
             in Inr \<lparr>psr_content = content, psr_provider_result = r\<lparr>pr_content := content\<rparr>\<rparr>)))"

definition consume_stream ::
    "(string \<Rightarrow> rat option) \<Rightarrow> openai_provider_config \<Rightarrow> int \<Rightarrow> string list \<Rightarrow> client_exn option \<Rightarrow> stream_session" where
  "consume_stream float_value cfg latency_ms lines failure =
     (case iter_sse_events failure None [] lines of
        (events, raised) \<Rightarrow>
          (let c = consume_events float_value raised events \<lparr>co_parts = [], co_final = None, co_error = None\<rparr>
           in \<lparr>ss_chunks = co_parts c, ss_failure = None, ss_final = stream_result float_value cfg latency_ms c\<rparr>))"

text \<open>What opening the stream answers: an exception, or a status with the lines that follow.\<close>

record opened_stream =
  os_status :: int
  os_lines :: "string list"
  os_failure :: "client_exn option"

type_synonym http_stream = "json \<Rightarrow> (client_exn, opened_stream) result"

definition stream_payload :: "openai_provider_config \<Rightarrow> provider_input \<Rightarrow> json" where
  "stream_payload cfg i = (case build_payload cfg i of
     JObj kvs \<Rightarrow> JObj (dict_put ''stream'' (JBool True) kvs) | j \<Rightarrow> j)"

definition openai_stream ::
    "(string \<Rightarrow> rat option) \<Rightarrow> openai_provider_config \<Rightarrow> http_stream \<Rightarrow> int \<Rightarrow> provider_input
     \<Rightarrow> (exn, stream_session option) result" where
  "openai_stream float_value cfg opening latency_ms i = (case opening (stream_payload cfg i) of
     Inl (Raised_Provider p) \<Rightarrow> Inl (Provider_Error p)
   | Inl (Raised_Other _) \<Rightarrow> Inl unknown_failure
   | Inl Json_Decode_Error \<Rightarrow> Inl unknown_failure
   | Inl e \<Rightarrow> Inl (Provider_Error (map_httpx_exc e))
   | Inr opened \<Rightarrow>
       if os_status opened \<ge> 400 then Inl (Provider_Error (map_http_status (os_status opened)))
       else Inr (Some (consume_stream float_value cfg latency_ms (os_lines opened) (os_failure opened))))"

definition openai_port ::
    "(string \<Rightarrow> rat option) \<Rightarrow> (int \<Rightarrow> int \<Rightarrow> int) \<Rightarrow> openai_provider_config \<Rightarrow> http_post \<Rightarrow> http_stream \<Rightarrow> int \<Rightarrow> provider_port" where
  "openai_port float_value jitter cfg post opening latency_ms =
     \<lparr>pv_provider_name = None, pv_provider = None, pv_class = ''OpenAIProvider'',
      pv_generate = openai_generate float_value jitter cfg post latency_ms,
      pv_stream = Some (openai_stream float_value cfg opening latency_ms)\<rparr>"


section \<open>The wire format\<close>

text \<open>One event as the service writes it: its name, its payload on one line, a blank line.\<close>

definition wire_event :: "bool \<Rightarrow> stream_event \<Rightarrow> string list" where
  "wire_event ensure_ascii e = (case fst e of Some n \<Rightarrow> [''event: '' @ n] | None \<Rightarrow> [])
     @ [''data: '' @ json_dumps ensure_ascii (JObj (snd e)), []]"

definition delta_event :: "string \<Rightarrow> stream_event" where
  "delta_event d = (Some ''response.output_text.delta'',
     [(''type'', JStr ''response.output_text.delta''), (''delta'', JStr d)])"

definition completed_event :: "(string \<times> json) list \<Rightarrow> stream_event" where
  "completed_event response = (Some ''response.completed'',
     [(''type'', JStr ''response.completed''), (''response'', JObj response)])"

definition name_clean :: "string option \<Rightarrow> bool" where
  "name_clean n = (case n of None \<Rightarrow> True | Some s \<Rightarrow> s \<noteq> [] \<and> \<not> py_space (hd s) \<and> \<not> py_space (last s))"

lemma space_chars [simp]:
  "py_space CHR '' ''" "\<not> py_space CHR ''e''" "\<not> py_space CHR ''d''" "\<not> py_space CHR ''{''" "\<not> py_space CHR ''}''"
  by (simp_all add: py_space_def code_point_def)

lemma py_lstrip_Cons [simp]: "py_lstrip (c # s) = (if py_space c then py_lstrip s else c # s)"
  by (simp add: py_lstrip_def)

lemma object_text:
  obtains t where "json_dumps ea (JObj kvs) = CHR ''{'' # t" "last (json_dumps ea (JObj kvs)) = CHR ''}''"
  by simp

lemma parse_data_line:
  assumes "json_plain (JObj kvs)"
  shows "parse_sse_event n [json_dumps ea (JObj kvs)] = Inr (Some (n, kvs))"
proof -
  obtain t where t: "json_dumps ea (JObj kvs) = CHR ''{'' # t" "last (json_dumps ea (JObj kvs)) = CHR ''}''"
    by (rule object_text)
  then have "py_strip (json_dumps ea (JObj kvs)) = json_dumps ea (JObj kvs)"
    by (intro py_strip_id) (simp del: json_dumps.simps)
  with t(1) loads_dumps [OF assms, of ea] show ?thesis
    by (simp add: parse_sse_event_def del: json_dumps.simps)
qed

lemma data_line:
  "iter_sse_events x n ds ((''data: '' @ json_dumps ea (JObj kvs)) # rest)
     = iter_sse_events x n (ds @ [json_dumps ea (JObj kvs)]) rest"
proof -
  obtain t where t: "json_dumps ea (JObj kvs) = CHR ''{'' # t" "last (json_dumps ea (JObj kvs)) = CHR ''}''"
    by (rule object_text)
  let ?line = "''data: '' @ json_dumps ea (JObj kvs)"
  have "py_strip ?line = ?line"
    using t by (intro py_strip_id) (simp del: json_dumps.simps)
  then show ?thesis using t(1) by (simp add: py_startswith_def Let_def del: json_dumps.simps)
qed

lemma name_line:
  assumes "name_clean (Some s)"
  shows "iter_sse_events x n ds ((''event: '' @ s) # rest) = iter_sse_events x (Some s) ds rest"
proof -
  have "py_strip (''event: '' @ s) = ''event: '' @ s"
    using assms by (intro py_strip_id) (simp add: name_clean_def)
  moreover have "py_strip (CHR '' '' # s) = s"
    using assms py_strip_id [of s] by (cases s) (auto simp: name_clean_def py_strip_def)
  ultimately show ?thesis
    using assms by (simp add: py_startswith_def Let_def non_empty_def name_clean_def)
qed

lemma iter_wire_event:
  assumes "json_plain (JObj (snd e))" "name_clean (fst e)"
  shows "iter_sse_events x None [] (wire_event ea e @ rest) = yielded (Some e) (iter_sse_events x None [] rest)"
proof -
  obtain n kvs where e: "e = (n, kvs)" by (cases e)
  with assms have ok: "json_plain (JObj kvs)" "name_clean n" by simp_all
  have blank: "iter_sse_events x n [json_dumps ea (JObj kvs)] ([] # rest)
      = yielded (Some (n, kvs)) (iter_sse_events x None [] rest)"
    using parse_data_line [OF ok(1), of n ea] by (simp add: py_strip_id del: json_dumps.simps)
  show ?thesis
  proof (cases n)
    case None
    have "wire_event ea (None, kvs) @ rest = (''data: '' @ json_dumps ea (JObj kvs)) # [] # rest"
      by (simp add: wire_event_def)
    with blank None show ?thesis by (simp only: e data_line append_Nil)
  next
    case (Some s)
    have "wire_event ea (Some s, kvs) @ rest = (''event: '' @ s) # (''data: '' @ json_dumps ea (JObj kvs)) # [] # rest"
      by (simp add: wire_event_def)
    with blank Some name_line [of s x None "[]"] ok(2) show ?thesis by (simp only: e data_line append_Nil)
  qed
qed

lemma iter_wire:
  assumes "\<forall>e \<in> set es. json_plain (JObj (snd e)) \<and> name_clean (fst e)"
  shows "iter_sse_events x None [] (concat (map (wire_event ea) es)) = (es, x)"
  using assms
proof (induction es)
  case Nil
  then show ?case by (simp add: parse_sse_event_def yielded_def split: option.split)
next
  case (Cons e es)
  then show ?case by (simp add: iter_wire_event yielded_def del: iter_sse_events.simps)
qed


section \<open>What a stream of text becomes\<close>

lemma py_strip_Nil [simp]: "py_strip [] = []"
  by (simp add: py_strip_id)

lemma delta_event_facts [simp]:
  "json_plain (JObj (snd (delta_event d)))" "name_clean (fst (delta_event d))"
  "extract_stream_error fv (snd (delta_event d)) = Inr None"
  "extract_stream_delta (delta_event d) = d" "extract_stream_response_payload (delta_event d) = None"
  by (simp_all add: delta_event_def name_clean_def py_space_def code_point_def extract_stream_error_def
      extract_stream_delta_def extract_stream_response_payload_def event_type_def)

lemma completed_event_facts [simp]:
  "json_plain (JObj (snd (completed_event r))) = json_plain (JObj r)" "name_clean (fst (completed_event r))"
  "extract_stream_error fv (snd (completed_event r)) = Inr None"
  "extract_stream_delta (completed_event r) = []" "extract_stream_response_payload (completed_event r) = Some r"
  by (simp_all add: completed_event_def name_clean_def py_space_def code_point_def extract_stream_error_def
      extract_stream_delta_def extract_stream_response_payload_def event_type_def)

lemma consume_deltas:
  "consume_events fv x (map delta_event ds @ es) \<lparr>co_parts = ps, co_final = f, co_error = None\<rparr>
     = consume_events fv x es \<lparr>co_parts = ps @ filter (\<lambda>d. d \<noteq> []) ds, co_final = f, co_error = None\<rparr>"
  by (induction ds arbitrary: ps) (simp_all add: Let_def)

lemma concat_non_empty [simp]: "concat (filter (\<lambda>d. d \<noteq> []) ds) = concat ds"
  by (induction ds) auto

definition plain_answer :: "openai_provider_config \<Rightarrow> int \<Rightarrow> string \<Rightarrow> provider_result" where
  "plain_answer cfg latency_ms content = \<lparr>pr_content = content, pr_provider = ''openai'',
     pr_model_version = op_model cfg, pr_prompt_version = ''v1'', pr_input_tokens = None,
     pr_output_tokens = None, pr_total_tokens = None, pr_latency_ms = Some latency_ms\<rparr>"

lemma default_payload_result:
  "build_provider_result fv (op_model cfg) (final_payload cfg \<lparr>co_parts = ps, co_final = None, co_error = None\<rparr>) latency_ms
     = Some (plain_answer cfg latency_ms
         (if py_strip (concat ps) \<noteq> [] then py_strip (concat ps) else ''(empty response)''))"
  by (simp add: build_provider_result_def final_payload_def usage_members_def extract_output_text_def
      looped_items_def json_falsy_def safe_int_def total_or_sum_def extract_model_version_def
      extract_prompt_version_def text_member_def plain_answer_def Let_def)

definition stream_answer :: "string list \<Rightarrow> provider_result \<Rightarrow> provider_stream_result" where
  "stream_answer ds r = (let content = (if concat ds \<noteq> [] then concat ds else pr_content r)
     in \<lparr>psr_content = content, psr_provider_result = r\<lparr>pr_content := content\<rparr>\<rparr>)"

lemma stream_answer_non_empty [simp]: "stream_answer (filter (\<lambda>d. d \<noteq> []) ds) r = stream_answer ds r"
  by (simp add: stream_answer_def)

lemma stream_result_success:
  "co_error c = None \<Longrightarrow> stream_result fv cfg latency_ms c =
     (case build_provider_result fv (op_model cfg) (final_payload cfg c) latency_ms of
        None \<Rightarrow> Inl unknown_failure | Some r \<Rightarrow> Inr (stream_answer (co_parts c) r))"
  by (simp add: stream_result_def stream_answer_def Let_def split: option.split)

lemma consume_wire:
  assumes "\<forall>e \<in> set es. json_plain (JObj (snd e)) \<and> name_clean (fst e)"
  shows "consume_stream fv cfg latency_ms (concat (map (wire_event ea) (map delta_event ds @ es))) x =
    (let c = consume_events fv x es \<lparr>co_parts = filter (\<lambda>d. d \<noteq> []) ds, co_final = None, co_error = None\<rparr>
     in \<lparr>ss_chunks = co_parts c, ss_failure = None, ss_final = stream_result fv cfg latency_ms c\<rparr>)"
proof -
  have "iter_sse_events x None [] (concat (map (wire_event ea) (map delta_event ds @ es))) = (map delta_event ds @ es, x)"
    by (rule iter_wire) (use assms in \<open>auto simp del: json_plain.simps\<close>)
  then show ?thesis by (simp add: consume_stream_def consume_deltas del: map_append map_map)
qed

lemma stream_without_completion:
  "consume_stream fv cfg latency_ms (concat (map (wire_event ea) (map delta_event ds))) None
     = \<lparr>ss_chunks = filter (\<lambda>d. d \<noteq> []) ds, ss_failure = None,
        ss_final = Inr (stream_answer ds (plain_answer cfg latency_ms ''(empty response)''))\<rparr>"
proof -
  have strip: "stream_answer ds (plain_answer cfg latency_ms (py_strip (concat ds)))
      = stream_answer ds (plain_answer cfg latency_ms ''(empty response)'')" if "py_strip (concat ds) \<noteq> []"
    using that by (cases "concat ds = []") (simp_all only: stream_answer_def plain_answer_def py_strip_Nil, simp_all)
  then show ?thesis
    using consume_wire [of "[]" fv cfg latency_ms ea ds None]
    by (simp add: stream_result_success default_payload_result)
qed

section \<open>Properties\<close>

text \<open>C29: the adapter reads what the service sent. Of a stream of text deltas closed by its completion
  event it yields the non-empty deltas in order, and its result is their concatenation with the model and
  usage of the completed response; when the connection fails after the deltas they are yielded all the same and
  the failure comes normalized with the result. A stream that just stops before its completion event is not told
  from a complete one: it is a success without usage.\<close>

theorem openai_stream_reads_what_was_sent:
  assumes "json_plain (JObj response)" "response \<noteq> []"
  shows "consume_stream fv cfg latency_ms (concat (map (wire_event ea) (map delta_event ds @ [completed_event response]))) None
      = \<lparr>ss_chunks = filter (\<lambda>d. d \<noteq> []) ds, ss_failure = None,
         ss_final = (case build_provider_result fv (op_model cfg) response latency_ms of
            None \<Rightarrow> Inl unknown_failure | Some r \<Rightarrow> Inr (stream_answer ds r))\<rparr>
    \<and> consume_stream fv cfg latency_ms (concat (map (wire_event ea) (map delta_event ds))) (Some x)
      = \<lparr>ss_chunks = filter (\<lambda>d. d \<noteq> []) ds, ss_failure = None,
         ss_final = Inl (Provider_Error (normalize_stream_error x))\<rparr>
    \<and> consume_stream fv cfg latency_ms (concat (map (wire_event ea) (map delta_event ds))) None
      = \<lparr>ss_chunks = filter (\<lambda>d. d \<noteq> []) ds, ss_failure = None,
         ss_final = Inr (stream_answer ds (plain_answer cfg latency_ms ''(empty response)''))\<rparr>"
proof (intro conjI)
  obtain kv kvs where "response = kv # kvs" using assms(2) by (cases response) auto
  then show "consume_stream fv cfg latency_ms (concat (map (wire_event ea) (map delta_event ds @ [completed_event response]))) None
      = \<lparr>ss_chunks = filter (\<lambda>d. d \<noteq> []) ds, ss_failure = None,
         ss_final = (case build_provider_result fv (op_model cfg) response latency_ms of
            None \<Rightarrow> Inl unknown_failure | Some r \<Rightarrow> Inr (stream_answer ds r))\<rparr>"
    using assms(1) by (subst consume_wire) (simp_all add: stream_result_success final_payload_def Let_def del: json_plain.simps split: option.split)
  show "consume_stream fv cfg latency_ms (concat (map (wire_event ea) (map delta_event ds))) (Some x)
      = \<lparr>ss_chunks = filter (\<lambda>d. d \<noteq> []) ds, ss_failure = None,
         ss_final = Inl (Provider_Error (normalize_stream_error x))\<rparr>"
    using consume_wire [of "[]" fv cfg latency_ms ea ds "Some x"] by (simp add: stream_result_def)
qed (rule stream_without_completion)


definition example_openai_config :: openai_provider_config where
  "example_openai_config = \<lparr>op_api_key = ''key'', op_model = ''gpt'', op_timeout_s = 30, op_max_attempts = 3,
     op_backoff_base_ms = 200, op_backoff_max_ms = 2000\<rparr>"

theorem openai_stream_reads_what_was_sent_witness:
  "ss_chunks (consume_stream (\<lambda>l. None) example_openai_config 5
      (concat (map (wire_event True) (map delta_event [''a'', [], ''b''] @ [completed_event [(''model'', JStr ''m'')]]))) None)
     = [''a'', ''b'']"
  using openai_stream_reads_what_was_sent [of "[(''model'', JStr ''m'')]" "\<lambda>l. None" example_openai_config 5 True "[''a'', [], ''b'']"]
  by simp

end
