(* ===== verification/Bedrock_Provider.thy ===== *)
theory Bedrock_Provider imports Openai_Provider begin

text \<open>
  The Bedrock adapter (\<open>app/core/providers/bedrock_provider.py\<close>): the request payload, the mapping of SDK
  exceptions and of exception events to normalized failures, the bounded retry around one call of
  \<open>converse\<close>, the reading of its answer, and the streaming half with both kinds of session. The SDK is a
  parameter: whether it is installed, what creating a client raises, and what its two operations answer. The
  lemmas show that a failure carries nothing of the free text of the service, and what a stream becomes.
  Closing the client and log records are not modelled.
\<close>

section \<open>Failures\<close>

text \<open>An exception as the mapping looks at it: its class name, its \<open>response\<close> attribute, and whether it
  is one of the two built-in classes.\<close>

record sdk_exn =
  sx_class :: string
  sx_response :: "json option"
  sx_timeout :: bool
  sx_connection :: bool

definition bedrock_default_message :: "provider_error_kind \<Rightarrow> string" where
  "bedrock_default_message kind =
     (if kind = Kind_timeout then ''provider timeout''
      else if kind = Kind_auth then ''provider auth failed''
      else if kind = Kind_rate_limit then ''provider rate limited''
      else if kind = Kind_bad_request then ''provider request failed''
      else if kind = Kind_upstream then ''provider upstream error''
      else ''provider unknown error'')"

definition bedrock_kind_of_code :: "string \<Rightarrow> provider_error_kind" where
  "bedrock_kind_of_code code = (let normalized_code = py_lower code in
     if normalized_code \<in> {''accesstokenexception'', ''accessdeniedexception'', ''unrecognizedclientexception'', ''securityexception''}
     then Kind_auth
     else if normalized_code \<in> {''throttlingexception'', ''toomanyrequestsexception''} then Kind_rate_limit
     else if normalized_code \<in> {''validationexception'', ''resourcenotfoundexception''} then Kind_bad_request
     else if normalized_code \<in> {''modeltimeoutexception'', ''timeoutexception'', ''timeouterror''} then Kind_timeout
     else if normalized_code \<in> {''internalserverexception'', ''serviceunavailableexception'', ''modelstreamerrorexception'',
       ''modelstreamexception'', ''modelnotreadyexception''} then Kind_upstream
     else Kind_unknown)"

definition bedrock_failure :: "provider_error_kind \<Rightarrow> string \<Rightarrow> int option \<Rightarrow> bool \<Rightarrow> string option \<Rightarrow> provider_error" where
  "bedrock_failure kind message status retryable code = \<lparr>pe_kind = kind, pe_message = message, pe_provider = ''bedrock'',
     pe_http_status = status, pe_retryable = retryable, pe_error_code = code\<rparr>"

text \<open>The message of the service is an argument the code does not use.\<close>

definition provider_error_from_code :: "string \<Rightarrow> string option \<Rightarrow> int option \<Rightarrow> provider_error" where
  "provider_error_from_code code message http_status =
     (let kind = bedrock_kind_of_code code
      in bedrock_failure kind (bedrock_default_message kind) http_status (kind \<in> {Kind_rate_limit, Kind_timeout, Kind_upstream}) (Some code))"

definition dict_member :: "json option \<Rightarrow> string \<Rightarrow> json option" where
  "dict_member v k = (case v of Some (JObj kvs) \<Rightarrow> map_of kvs k | _ \<Rightarrow> None)"

definition str_member :: "json option \<Rightarrow> string \<Rightarrow> string option" where
  "str_member v k = (case dict_member v k of Some (JStr s) \<Rightarrow> Some s | _ \<Rightarrow> None)"

definition map_bedrock_exc :: "(string \<Rightarrow> rat option) \<Rightarrow> sdk_exn \<Rightarrow> provider_error" where
  "map_bedrock_exc float_value e =
     (let err = dict_member (sx_response e) ''Error'';
          http_status = safe_int float_value (dict_member (dict_member (sx_response e) ''ResponseMetadata'') ''HTTPStatusCode'');
          exc_name = py_lower (sx_class e)
      in case str_member err ''Code'' of
           Some code \<Rightarrow> provider_error_from_code code (str_member err ''Message'') http_status
         | None \<Rightarrow>
             if sx_timeout e then provider_error_from_code ''TimeoutError'' None http_status
             else if sx_connection e then bedrock_failure Kind_upstream ''provider upstream error'' http_status True None
             else if sublist ''timeout'' exc_name then provider_error_from_code ''TimeoutError'' None http_status
             else if sublist ''connection'' exc_name \<or> sublist ''endpoint'' exc_name
             then bedrock_failure Kind_upstream ''provider upstream error'' http_status True None
             else bedrock_failure Kind_unknown ''provider unknown error'' http_status False None)"

definition attribute_error :: sdk_exn where
  "attribute_error = \<lparr>sx_class = ''AttributeError'', sx_response = None, sx_timeout = False, sx_connection = False\<rparr>"

definition bedrock_should_retry :: "exn \<Rightarrow> bool" where
  "bedrock_should_retry e = (case e of Provider_Error p \<Rightarrow> pe_retryable p | _ \<Rightarrow> False)"

section \<open>Request\<close>

record bedrock_provider_config =
  bp_region :: string
  bp_model :: string
  bp_prompt_version :: string
  bp_max_attempts :: int
  bp_backoff_base_ms :: int
  bp_backoff_max_ms :: int

definition bedrock_payload :: "bedrock_provider_config \<Rightarrow> provider_input \<Rightarrow> json" where
  "bedrock_payload cfg i =
     (let all = messages_for_provider i;
          system = map (\<lambda>m. JObj [(''text'', JStr (cm_content m))]) (filter (\<lambda>m. cm_role m = System) all);
          messages = map (\<lambda>m. JObj [(''role'', JStr (role_text (cm_role m))), (''content'', JArr [JObj [(''text'', JStr (cm_content m))]])])
            (filter (\<lambda>m. cm_role m \<noteq> System) all);
          inference = (case pi_temperature i of Some t \<Rightarrow> [(''temperature'', t)] | None \<Rightarrow> [])
            @ (case pi_max_tokens i of Some n \<Rightarrow> [(''maxTokens'', JInt n)] | None \<Rightarrow> [])
      in JObj ([(''modelId'', JStr (bp_model cfg)), (''messages'', JArr messages)]
           @ (if system \<noteq> [] then [(''system'', JArr system)] else [])
           @ (if inference \<noteq> [] then [(''inferenceConfig'', JObj inference)] else [])))"

definition bedrock_retry_policy :: "bedrock_provider_config \<Rightarrow> retry_policy" where
  "bedrock_retry_policy cfg = \<lparr>rp_max_attempts = max 1 (bp_max_attempts cfg),
     rp_base_delay_ms = bp_backoff_base_ms cfg, rp_max_delay_ms = bp_backoff_max_ms cfg\<rparr>"

text \<open>The SDK, and a client given to the constructor instead. An opened stream is its events and the
  exception ending the iteration, if any.\<close>

record opened_events =
  oe_events :: "json list"
  oe_failure :: "sdk_exn option"

record bedrock_sdk =
  bs_injected :: bool
  bs_installed :: bool
  bs_creation :: "exn option"
  bs_converse :: "json \<Rightarrow> int \<Rightarrow> (sdk_exn, (string \<times> json) list) result"
  bs_converse_stream :: "json \<Rightarrow> int \<Rightarrow> (sdk_exn, opened_events) result"

definition build_client :: "bedrock_sdk \<Rightarrow> (exn, unit) result" where
  "build_client sdk =
     (if bs_injected sdk then Inr ()
      else if \<not> bs_installed sdk then Inl (Provider_Error (bedrock_failure Kind_unknown ''bedrock sdk not installed'' None False None))
      else (case bs_creation sdk of Some e \<Rightarrow> Inl e | None \<Rightarrow> Inr ()))"

section \<open>Answers\<close>

definition text_or_empty :: "string \<Rightarrow> string" where
  "text_or_empty s = (if py_strip s \<noteq> [] then py_strip s else ''(empty response)'')"

text \<open>The texts of the blocks: none when a block has no \<open>get\<close>.\<close>

fun block_texts :: "json list \<Rightarrow> string list option" where
  "block_texts [] = Some []"
| "block_texts (JObj kvs # bs) = map_option (\<lambda>ts. (case map_of kvs ''text'' of Some (JStr s) \<Rightarrow> s # ts | _ \<Rightarrow> ts)) (block_texts bs)"
| "block_texts (_ # bs) = None"

definition extract_text_content :: "json list \<Rightarrow> string option" where
  "extract_text_content blocks = map_option (\<lambda>ts. text_or_empty (concat ts)) (block_texts blocks)"

definition bedrock_result_from_parts ::
    "(string \<Rightarrow> rat option) \<Rightarrow> bedrock_provider_config \<Rightarrow> string \<Rightarrow> (string \<times> json) list \<Rightarrow> int \<Rightarrow> provider_result" where
  "bedrock_result_from_parts float_value cfg content usage latency_ms =
     (let inp = safe_int float_value (map_of usage ''inputTokens'');
          out = safe_int float_value (map_of usage ''outputTokens'');
          total = safe_int float_value (map_of usage ''totalTokens'')
      in \<lparr>pr_content = content, pr_provider = ''bedrock'', pr_model_version = bp_model cfg,
          pr_prompt_version = bp_prompt_version cfg, pr_input_tokens = inp, pr_output_tokens = out,
          pr_total_tokens = total_or_sum total inp out, pr_latency_ms = Some (max 0 latency_ms)\<rparr>)"

definition dict_or_empty :: "json option \<Rightarrow> (string \<times> json) list" where
  "dict_or_empty v = (case v of Some (JObj kvs) \<Rightarrow> kvs | _ \<Rightarrow> [])"

definition answer_blocks :: "(string \<times> json) list \<Rightarrow> json list" where
  "answer_blocks data = (case dict_member (dict_member (map_of data ''output'') ''message'') ''content'' of
     Some (JArr blocks) \<Rightarrow> blocks | _ \<Rightarrow> [])"

definition build_bedrock_result ::
    "(string \<Rightarrow> rat option) \<Rightarrow> bedrock_provider_config \<Rightarrow> int \<Rightarrow> (string \<times> json) list \<Rightarrow> (exn, provider_result) result" where
  "build_bedrock_result float_value cfg latency_ms data =
     (let measured = safe_int float_value (map_of (dict_or_empty (map_of data ''metrics'')) ''latencyMs'')
      in case extract_text_content (answer_blocks data) of
           None \<Rightarrow> Inl (Other_Error ''AttributeError'' [])
         | Some content \<Rightarrow> Inr (bedrock_result_from_parts float_value cfg content (dict_or_empty (map_of data ''usage''))
             (case measured of Some n \<Rightarrow> n | None \<Rightarrow> latency_ms)))"

section \<open>Generate\<close>

definition call_attempt :: "(string \<Rightarrow> rat option) \<Rightarrow> (json \<Rightarrow> int \<Rightarrow> (sdk_exn, 'a) result) \<Rightarrow> json \<Rightarrow> int \<Rightarrow> (exn, 'a) result" where
  "call_attempt float_value oper payload attempt = (case oper payload attempt of
     Inl e \<Rightarrow> Inl (Provider_Error (map_bedrock_exc float_value e)) | Inr r \<Rightarrow> Inr r)"

text \<open>The outcome with the attempts made and the delays slept.\<close>

definition bedrock_run ::
    "(string \<Rightarrow> rat option) \<Rightarrow> (int \<Rightarrow> int \<Rightarrow> int) \<Rightarrow> bedrock_provider_config \<Rightarrow> bedrock_sdk \<Rightarrow> int \<Rightarrow> provider_input
     \<Rightarrow> (exn, provider_result) result \<times> int list \<times> int list" where
  "bedrock_run float_value jitter cfg sdk latency_ms i = (case build_client sdk of
     Inl e \<Rightarrow> (Inl e, [], [])
   | Inr _ \<Rightarrow>
       (case retry_async jitter (call_attempt float_value (bs_converse sdk) (bedrock_payload cfg i)) bedrock_should_retry (bedrock_retry_policy cfg) of
          (Inl e, attempts, delays) \<Rightarrow> (Inl e, attempts, delays)
        | (Inr data, attempts, delays) \<Rightarrow> (build_bedrock_result float_value cfg latency_ms data, attempts, delays)))"

definition bedrock_generate ::
    "(string \<Rightarrow> rat option) \<Rightarrow> (int \<Rightarrow> int \<Rightarrow> int) \<Rightarrow> bedrock_provider_config \<Rightarrow> bedrock_sdk \<Rightarrow> int \<Rightarrow> generate_port" where
  "bedrock_generate float_value jitter cfg sdk latency_ms i = fst (bedrock_run float_value jitter cfg sdk latency_ms i)"

section \<open>Streams\<close>

definition event_delta :: "(string \<times> json) list \<Rightarrow> string" where
  "event_delta event = (case str_member (dict_member (map_of event ''contentBlockDelta'') ''delta'') ''text'' of Some s \<Rightarrow> s | None \<Rightarrow> [])"

definition exception_message :: "json \<Rightarrow> string option" where
  "exception_message v = (case str_member (Some v) ''message'' of Some m \<Rightarrow> if m \<noteq> [] then Some m else None | None \<Rightarrow> None)"

definition event_error :: "(string \<times> json) list \<Rightarrow> provider_error option" where
  "event_error event = map_option (\<lambda>(k, v). provider_error_from_code k (exception_message v) None)
     (find (\<lambda>(k, v). py_endswith k ''Exception'') event)"

record bedrock_consumption =
  bk_parts :: "string list"
  bk_usage :: "(string \<times> json) list option"
  bk_latency_ms :: "int option"
  bk_error :: "provider_error option"

definition read_event_metadata :: "(string \<Rightarrow> rat option) \<Rightarrow> (string \<times> json) list \<Rightarrow> bedrock_consumption \<Rightarrow> bedrock_consumption" where
  "read_event_metadata float_value event c =
     (let metadata = dict_or_empty (map_of event ''metadata'')
      in c\<lparr>bk_usage := (case map_of metadata ''usage'' of Some (JObj us) \<Rightarrow> Some us | _ \<Rightarrow> bk_usage c),
           bk_latency_ms := (case map_of metadata ''metrics'' of
             Some (JObj ms) \<Rightarrow> safe_int float_value (map_of ms ''latencyMs'') | _ \<Rightarrow> bk_latency_ms c)\<rparr>)"

fun consume_bedrock_events ::
    "(string \<Rightarrow> rat option) \<Rightarrow> sdk_exn option \<Rightarrow> json list \<Rightarrow> bedrock_consumption \<Rightarrow> bedrock_consumption" where
  "consume_bedrock_events float_value failure [] c = c\<lparr>bk_error := map_option (map_bedrock_exc float_value) failure\<rparr>"
| "consume_bedrock_events float_value failure (JObj event # es) c = (case event_error event of
     Some p \<Rightarrow> c\<lparr>bk_error := Some p\<rparr>
   | None \<Rightarrow>
       (let delta = event_delta event
        in consume_bedrock_events float_value failure es
             (read_event_metadata float_value event (if delta \<noteq> [] then c\<lparr>bk_parts := bk_parts c @ [delta]\<rparr> else c))))"
| "consume_bedrock_events float_value failure (_ # es) c = c\<lparr>bk_error := Some (map_bedrock_exc float_value attribute_error)\<rparr>"

definition bedrock_stream_result ::
    "(string \<Rightarrow> rat option) \<Rightarrow> bedrock_provider_config \<Rightarrow> int \<Rightarrow> bedrock_consumption \<Rightarrow> (exn, provider_stream_result) result" where
  "bedrock_stream_result float_value cfg latency_ms c = (case bk_error c of
     Some p \<Rightarrow> Inl (Provider_Error p)
   | None \<Rightarrow>
       (let content = text_or_empty (concat (bk_parts c))
        in Inr \<lparr>psr_content = content, psr_provider_result = bedrock_result_from_parts float_value cfg content
             (case bk_usage c of Some us \<Rightarrow> us | None \<Rightarrow> [])
             (case bk_latency_ms c of Some n \<Rightarrow> n | None \<Rightarrow> latency_ms)\<rparr>))"

text \<open>What the consumer of a session sees: the same for a session filled by a thread and for the inline one.\<close>

definition consume_bedrock_stream ::
    "(string \<Rightarrow> rat option) \<Rightarrow> bedrock_provider_config \<Rightarrow> int \<Rightarrow> opened_events \<Rightarrow> stream_session" where
  "consume_bedrock_stream float_value cfg latency_ms opened =
     (let c = consume_bedrock_events float_value (oe_failure opened) (oe_events opened)
            \<lparr>bk_parts = [], bk_usage = None, bk_latency_ms = None, bk_error = None\<rparr>
      in \<lparr>ss_chunks = bk_parts c, ss_failure = None, ss_final = bedrock_stream_result float_value cfg latency_ms c\<rparr>)"

text \<open>A client given to the constructor is called once; a client of its own is retried.\<close>

definition bedrock_open_stream ::
    "(string \<Rightarrow> rat option) \<Rightarrow> (int \<Rightarrow> int \<Rightarrow> int) \<Rightarrow> bedrock_provider_config \<Rightarrow> bedrock_sdk \<Rightarrow> json \<Rightarrow> (exn, opened_events) result" where
  "bedrock_open_stream float_value jitter cfg sdk payload =
     (if bs_injected sdk then call_attempt float_value (bs_converse_stream sdk) payload 1
      else fst (retry_async jitter (call_attempt float_value (bs_converse_stream sdk) payload) bedrock_should_retry (bedrock_retry_policy cfg)))"

definition bedrock_stream ::
    "(string \<Rightarrow> rat option) \<Rightarrow> (int \<Rightarrow> int \<Rightarrow> int) \<Rightarrow> bedrock_provider_config \<Rightarrow> bedrock_sdk \<Rightarrow> int \<Rightarrow> provider_input
     \<Rightarrow> (exn, stream_session option) result" where
  "bedrock_stream float_value jitter cfg sdk latency_ms i =
     bind_result (build_client sdk) (\<lambda>_.
     bind_result (bedrock_open_stream float_value jitter cfg sdk (bedrock_payload cfg i)) (\<lambda>opened.
       Inr (Some (consume_bedrock_stream float_value cfg latency_ms opened))))"

definition bedrock_port ::
    "(string \<Rightarrow> rat option) \<Rightarrow> (int \<Rightarrow> int \<Rightarrow> int) \<Rightarrow> bedrock_provider_config \<Rightarrow> bedrock_sdk \<Rightarrow> int \<Rightarrow> provider_port" where
  "bedrock_port float_value jitter cfg sdk latency_ms =
     \<lparr>pv_provider_name = None, pv_provider = None, pv_class = ''BedrockProvider'',
      pv_generate = bedrock_generate float_value jitter cfg sdk latency_ms,
      pv_stream = Some (bedrock_stream float_value jitter cfg sdk latency_ms)\<rparr>"

section \<open>Nothing of the service's text\<close>

text \<open>The same SDK with every free text blanked out: the message of a service error and whatever an
  exception event carries.\<close>

definition map_members :: "(string \<Rightarrow> json \<Rightarrow> json) \<Rightarrow> (string \<times> json) list \<Rightarrow> (string \<times> json) list" where
  "map_members f kvs = map (\<lambda>(k, v). (k, f k v)) kvs"

definition map_dict :: "(string \<Rightarrow> json \<Rightarrow> json) \<Rightarrow> json \<Rightarrow> json" where
  "map_dict f j = (case j of JObj kvs \<Rightarrow> JObj (map_members f kvs) | _ \<Rightarrow> j)"

definition blank_member :: "string \<Rightarrow> string \<Rightarrow> json \<Rightarrow> json" where
  "blank_member name k v = (if k = name then (case v of JStr _ \<Rightarrow> JStr ''***'' | _ \<Rightarrow> v) else v)"

definition redact_response :: "json \<Rightarrow> json" where
  "redact_response = map_dict (\<lambda>k v. if k = ''Error'' then map_dict (blank_member ''Message'') v else v)"

definition redact_exn :: "sdk_exn \<Rightarrow> sdk_exn" where
  "redact_exn e = e\<lparr>sx_response := map_option redact_response (sx_response e)\<rparr>"

definition redact_event :: "json \<Rightarrow> json" where
  "redact_event = map_dict (\<lambda>k v. if py_endswith k ''Exception'' then JNull else v)"

definition redact_opened :: "opened_events \<Rightarrow> opened_events" where
  "redact_opened o' = \<lparr>oe_events = map redact_event (oe_events o'), oe_failure = map_option redact_exn (oe_failure o')\<rparr>"

definition redacted :: "bedrock_sdk \<Rightarrow> bedrock_sdk" where
  "redacted sdk = sdk\<lparr>bs_converse := (\<lambda>p a. case bs_converse sdk p a of Inl e \<Rightarrow> Inl (redact_exn e) | Inr r \<Rightarrow> Inr r),
     bs_converse_stream := (\<lambda>p a. case bs_converse_stream sdk p a of Inl e \<Rightarrow> Inl (redact_exn e) | Inr r \<Rightarrow> Inr (redact_opened r))\<rparr>"

lemma map_of_map_members: "map_of (map_members f kvs) k = map_option (f k) (map_of kvs k)"
  by (induction kvs) (auto simp: map_members_def)

lemma dict_member_map_dict: "dict_member (map_option (map_dict f) v) k = map_option (f k) (dict_member v k)"
  by (auto simp: dict_member_def map_dict_def map_of_map_members split: option.split json.split)

lemma error_from_code_message: "provider_error_from_code code (Some m) s = provider_error_from_code code None s"
  by (simp add: provider_error_from_code_def)

lemma error_from_code_any: "provider_error_from_code code m s = provider_error_from_code code m' s"
  by (cases m; cases m') (simp_all add: error_from_code_message)

lemma response_members:
  "dict_member (map_option redact_response r) ''ResponseMetadata'' = dict_member r ''ResponseMetadata''"
  "dict_member (map_option redact_response r) ''Error'' = map_option (map_dict (blank_member ''Message'')) (dict_member r ''Error'')"
  by (simp_all add: redact_response_def dict_member_map_dict option.map_id[unfolded id_def])

lemma redacted_code: "str_member (map_option (map_dict (blank_member ''Message'')) v) ''Code'' = str_member v ''Code''"
  by (cases "dict_member v ''Code''") (simp_all add: str_member_def dict_member_map_dict blank_member_def)

lemma map_bedrock_exc_redacted: "map_bedrock_exc fv (redact_exn e) = map_bedrock_exc fv e"
proof -
  have "provider_error_from_code c (str_member (map_option (map_dict (blank_member ''Message'')) (dict_member r ''Error'')) ''Message'') s
      = provider_error_from_code c (str_member (dict_member r ''Error'') ''Message'') s" for c r s
    by (rule error_from_code_any)
  then show ?thesis
    by (simp add: map_bedrock_exc_def redact_exn_def response_members redacted_code Let_def cong: if_cong option.case_cong)
qed

lemma event_error_redacted: "event_error (map_members (\<lambda>k v. if py_endswith k ''Exception'' then JNull else v) event) = event_error event"
  by (induction event) (auto simp: event_error_def map_members_def intro: error_from_code_any)

lemma untouched_member:
  "\<not> py_endswith k ''Exception'' \<Longrightarrow> map_of (map_members (\<lambda>k v. if py_endswith k ''Exception'' then JNull else v) event) k = map_of event k"
  by (cases "map_of event k") (simp_all add: map_of_map_members)

lemma plain_members: "\<not> py_endswith ''contentBlockDelta'' ''Exception''" "\<not> py_endswith ''metadata'' ''Exception''"
  by (simp_all add: py_endswith_def)

lemma consume_events_redacted:
  "consume_bedrock_events fv (map_option redact_exn x) (map redact_event es) c = consume_bedrock_events fv x es c"
proof (induction es arbitrary: c)
  case Nil
  then show ?case by (simp add: option.map_comp comp_def map_bedrock_exc_redacted)
next
  case (Cons e es)
  show ?case
  proof (cases e)
    case (JObj event)
    have "redact_event (JObj event) = JObj (map_members (\<lambda>k v. if py_endswith k ''Exception'' then JNull else v) event)"
      by (simp add: redact_event_def map_dict_def)
    then show ?thesis
      using Cons.IH by (simp add: JObj event_error_redacted event_delta_def read_event_metadata_def untouched_member plain_members Let_def
          split: option.split)
  qed (simp_all add: redact_event_def map_dict_def)
qed

lemma consume_stream_redacted: "consume_bedrock_stream fv cfg t (redact_opened opened) = consume_bedrock_stream fv cfg t opened"
  by (simp add: consume_bedrock_stream_def redact_opened_def consume_events_redacted)

lemma call_redacted: "call_attempt fv (bs_converse (redacted sdk)) = call_attempt fv (bs_converse sdk)"
  by (rule ext)+ (simp add: call_attempt_def redacted_def map_bedrock_exc_redacted split: sum.split)

lemma redacted_simps [simp]:
  "bs_injected (redacted sdk) = bs_injected sdk" "build_client (redacted sdk) = build_client sdk"
  by (simp_all add: redacted_def build_client_def)

lemma bedrock_generate_redacted: "bedrock_generate fv jitter cfg (redacted sdk) t i = bedrock_generate fv jitter cfg sdk t i"
  unfolding bedrock_generate_def bedrock_run_def call_redacted redacted_simps ..

lemma retry_from_map:
  "retry_from jitter (\<lambda>k. map_sum (\<lambda>e. e) g (f k)) sr p n = apfst (map_sum (\<lambda>e. e) g) (retry_from jitter f sr p n)"
proof (induction jitter f sr p n rule: retry_from.induct)
  case (1 jitter f sr p n)
  then show ?case
    unfolding retry_from.simps[of jitter f sr p n] retry_from.simps[of jitter "\<lambda>k. map_sum (\<lambda>e. e) g (f k)" sr p n]
    by (cases "f n"; cases "retry_from jitter f sr p (n + 1)") (simp_all add: Let_def)
qed

lemma stream_call_redacted:
  "call_attempt fv (bs_converse_stream (redacted sdk)) payload = (\<lambda>k. map_sum (\<lambda>e. e) redact_opened (call_attempt fv (bs_converse_stream sdk) payload k))"
  by (rule ext) (simp add: call_attempt_def redacted_def map_bedrock_exc_redacted split: sum.split)

lemma opened_redacted:
  "bedrock_open_stream fv jitter cfg (redacted sdk) payload = map_sum (\<lambda>e. e) redact_opened (bedrock_open_stream fv jitter cfg sdk payload)"
  by (simp add: bedrock_open_stream_def stream_call_redacted retry_async_def retry_from_map)

lemma bedrock_stream_redacted: "bedrock_stream fv jitter cfg (redacted sdk) t i = bedrock_stream fv jitter cfg sdk t i"
  unfolding bedrock_stream_def opened_redacted redacted_simps
  by (auto simp: bind_result_def consume_stream_redacted split: sum.split)

text \<open>The failures of the adapter.\<close>

definition bedrock_messages :: "string list" where
  "bedrock_messages = [''provider timeout'', ''provider auth failed'', ''provider rate limited'', ''provider request failed'',
     ''provider upstream error'', ''provider unknown error'', ''bedrock sdk not installed'']"

definition bedrock_safe :: "exn \<Rightarrow> bool" where
  "bedrock_safe e = (case e of Provider_Error p \<Rightarrow> pe_message p \<in> set bedrock_messages \<and> pe_provider p = ''bedrock''
     \<and> pe_retryable p = transient_kind (pe_kind p) | _ \<Rightarrow> False)"

lemma bedrock_safe_failure [simp]: "bedrock_safe (Provider_Error p) \<longleftrightarrow> pe_message p \<in> set bedrock_messages \<and> pe_provider p = ''bedrock''
     \<and> pe_retryable p = transient_kind (pe_kind p)"
  by (simp add: bedrock_safe_def)

lemma code_failure_safe: "bedrock_safe (Provider_Error (provider_error_from_code code m s))"
  by (cases "bedrock_kind_of_code code")
    (simp_all add: provider_error_from_code_def bedrock_failure_def bedrock_default_message_def bedrock_messages_def transient_kind_def)

lemma mapped_failure_safe: "bedrock_safe (Provider_Error (map_bedrock_exc fv e))"
  using code_failure_safe
  by (auto simp: map_bedrock_exc_def Let_def bedrock_failure_def bedrock_messages_def transient_kind_def split: option.split)

lemma event_failure_safe: "event_error ev = Some p \<Longrightarrow> bedrock_safe (Provider_Error p)"
  using code_failure_safe by (auto simp: event_error_def)

text \<open>What the documented shape of an answer is: content blocks are objects.\<close>

definition answers_ok :: "bedrock_sdk \<Rightarrow> bool" where
  "answers_ok sdk \<longleftrightarrow> (bs_creation sdk = None \<or> bs_injected sdk \<or> \<not> bs_installed sdk)
     \<and> (\<forall>payload attempt data. bs_converse sdk payload attempt = Inr data \<longrightarrow> block_texts (answer_blocks data) \<noteq> None)"

lemma retry_outcome:
  assumes "fst (retry_async jitter oper sr (bedrock_retry_policy cfg)) = r"
  obtains k where "oper k = r"
proof -
  obtain as ds where "retry_from jitter oper sr (bedrock_retry_policy cfg) 1 = (r, as, ds)"
    using assms by (cases "retry_async jitter oper sr (bedrock_retry_policy cfg)") (auto simp: retry_async_def)
  then show thesis using retry_from_attempts[of jitter oper sr "bedrock_retry_policy cfg" 1 r as ds] that
    by (auto simp: bedrock_retry_policy_def)
qed

lemma call_attempt_failure: "call_attempt fv oper payload k = Inl e \<Longrightarrow> bedrock_safe e"
  using mapped_failure_safe by (auto simp: call_attempt_def split: sum.splits)

lemma build_client_failure: "build_client sdk = Inl e \<Longrightarrow> answers_ok sdk \<Longrightarrow> bedrock_safe e"
  by (auto simp: build_client_def answers_ok_def bedrock_failure_def bedrock_messages_def transient_kind_def split: if_splits option.splits)

lemma bedrock_generate_failure:
  assumes "bedrock_generate fv jitter cfg sdk t i = Inl e" and "answers_ok sdk"
  shows "bedrock_safe e"
proof (cases "build_client sdk")
  case (Inl x)
  then show ?thesis using assms build_client_failure by (simp add: bedrock_generate_def bedrock_run_def)
next
  case (Inr u)
  obtain r as ds where run: "retry_async jitter (call_attempt fv (bs_converse sdk) (bedrock_payload cfg i)) bedrock_should_retry (bedrock_retry_policy cfg) = (r, as, ds)"
    by (rule prod_cases3)
  then obtain k where k: "call_attempt fv (bs_converse sdk) (bedrock_payload cfg i) k = r"
    using retry_outcome by (metis fst_conv)
  show ?thesis
  proof (cases r)
    case (Inl x)
    then show ?thesis using assms(1) Inr run call_attempt_failure[OF k[unfolded Inl]] by (simp add: bedrock_generate_def bedrock_run_def)
  next
    case (Inr data)
    then have "block_texts (answer_blocks data) \<noteq> None"
      using k assms(2) by (auto simp: answers_ok_def call_attempt_def split: sum.splits)
    then show ?thesis using assms(1) \<open>build_client sdk = Inr u\<close> run Inr
      by (auto simp: bedrock_generate_def bedrock_run_def build_bedrock_result_def extract_text_content_def Let_def)
  qed
qed

lemma open_stream_failure: "bedrock_open_stream fv jitter cfg sdk payload = Inl e \<Longrightarrow> bedrock_safe e"
  unfolding bedrock_open_stream_def using call_attempt_failure by (auto split: if_splits elim!: retry_outcome)

lemma bedrock_stream_failure: "bedrock_stream fv jitter cfg sdk t i = Inl e \<Longrightarrow> answers_ok sdk \<Longrightarrow> bedrock_safe e"
  using build_client_failure open_stream_failure by (auto simp: bedrock_stream_def bind_result_def split: sum.splits)

lemma consumed_failure_safe: "bk_error (consume_bedrock_events fv x es c) = Some p \<Longrightarrow> bedrock_safe (Provider_Error p)"
proof (induction fv x es c rule: consume_bedrock_events.induct)
  case (2 fv x event es c)
  then show ?case using event_failure_safe by (auto simp: Let_def split: option.splits)
qed (use mapped_failure_safe in \<open>auto simp del: bedrock_safe_failure\<close>)

text \<open>What a session yields.\<close>

lemma consumed_parts: "[] \<notin> set (bk_parts c) \<Longrightarrow> [] \<notin> set (bk_parts (consume_bedrock_events fv x es c))"
  by (induction fv x es c rule: consume_bedrock_events.induct)
    (auto simp: Let_def read_event_metadata_def split: option.split)

definition delta_json :: "string \<Rightarrow> json" where
  "delta_json d = JObj [(''contentBlockDelta'', JObj [(''delta'', JObj [(''text'', JStr d)]), (''contentBlockIndex'', JInt 0)])]"

definition metadata_json :: "(string \<times> json) list \<Rightarrow> json" where
  "metadata_json usage = JObj [(''metadata'', JObj [(''usage'', JObj usage)])]"

lemma delta_facts [simp]:
  "event_error [(''contentBlockDelta'', v)] = None" "event_error [(''metadata'', v)] = None"
  "event_delta [(''contentBlockDelta'', JObj [(''delta'', JObj [(''text'', JStr d)]), w])] = d" "event_delta [(''metadata'', v)] = []"
  "read_event_metadata fv [(''contentBlockDelta'', v)] c = c"
  by (simp_all add: event_error_def py_endswith_def event_delta_def str_member_def dict_member_def read_event_metadata_def dict_or_empty_def)

lemma consume_deltas_json:
  "consume_bedrock_events fv x (map delta_json ds @ es) c
     = consume_bedrock_events fv x es (c\<lparr>bk_parts := bk_parts c @ filter (\<lambda>d. d \<noteq> []) ds\<rparr>)"
  by (induction ds arbitrary: c) (simp_all add: delta_json_def Let_def)

section \<open>Properties\<close>


text \<open>
  What a Bedrock stream becomes. Of a stream of text deltas closed by its metadata the session yields
  the non-empty deltas in order; its result is their concatenation without the blanks around it, or a
  placeholder when nothing is left, with the usage of the metadata. When the connection fails after the
  deltas they are yielded all the same and the failure comes normalized.
\<close>

theorem bedrock_stream_trims_what_it_sent:
  "consume_bedrock_stream fv cfg t \<lparr>oe_events = map delta_json ds @ [metadata_json usage], oe_failure = None\<rparr>
     = \<lparr>ss_chunks = filter (\<lambda>d. d \<noteq> []) ds, ss_failure = None,
        ss_final = Inr \<lparr>psr_content = text_or_empty (concat ds),
          psr_provider_result = bedrock_result_from_parts fv cfg (text_or_empty (concat ds)) usage t\<rparr>\<rparr>
   \<and> consume_bedrock_stream fv cfg t \<lparr>oe_events = map delta_json ds, oe_failure = Some x\<rparr>
     = \<lparr>ss_chunks = filter (\<lambda>d. d \<noteq> []) ds, ss_failure = None, ss_final = Inl (Provider_Error (map_bedrock_exc fv x))\<rparr>"
  using consume_deltas_json[of fv "Some x" ds "[]"]
  by (simp add: consume_bedrock_stream_def consume_deltas_json bedrock_stream_result_def metadata_json_def read_event_metadata_def
      dict_or_empty_def Let_def)

section \<open>Witnesses\<close>

definition example_bedrock_config :: bedrock_provider_config where
  "example_bedrock_config = \<lparr>bp_region = ''us-east-1'', bp_model = ''nova'', bp_prompt_version = ''v1'', bp_max_attempts = 1,
     bp_backoff_base_ms = 200, bp_backoff_max_ms = 2000\<rparr>"

text \<open>A service that refuses the request and quotes it.\<close>

definition example_refusal :: sdk_exn where
  "example_refusal = \<lparr>sx_class = ''ClientError'', sx_response = Some (JObj [(''Error'',
     JObj [(''Code'', JStr ''ValidationException''), (''Message'', JStr ''prompt: secret'')])]), sx_timeout = False, sx_connection = False\<rparr>"

definition example_sdk :: bedrock_sdk where
  "example_sdk = \<lparr>bs_injected = False, bs_installed = True, bs_creation = None,
     bs_converse = (\<lambda>p a. Inl example_refusal), bs_converse_stream = (\<lambda>p a. Inl example_refusal)\<rparr>"


end
