(* ===== verification/Chat_Service.thy ===== *)
theory Chat_Service imports Routing Tracing begin

text \<open>
  The orchestration of one generation (\<open>app/core/domain/chat_service.py\<close>): resolving the provider,
  the bounded call with its classified span, the translation of provider failures into the two
  failures the route knows, and streaming with its two ways back to the plain call. A service is
  given by its resolver, which may answer another provider for a stream than for a plain call, and
  \<open>timed_out\<close>, whether \<open>asyncio.wait_for\<close> gave up on a provider's call.
\<close>

datatype chat_exn =
  Chat_Timeout string
| Chat_Execution string
| Chat_Other exn

record chat_result =
  ct_request :: uuid
  ct_assistant :: chat_message
  ct_provider :: provider_result

record stream_chat_result =
  sc_request :: uuid
  sc_assistant :: chat_message
  sc_provider :: "provider_stream_result option"

record chat_stream =
  cs_chunks :: "string list"
  cs_failure :: "exn option"
  cs_final :: "(exn, stream_chat_result) result"

record chat_service =
  sv_resolve :: "uuid \<Rightarrow> chat_message list \<Rightarrow> bool \<Rightarrow> (exn, provider_port) result"
  sv_timed_out :: "provider_port \<Rightarrow> provider_input \<Rightarrow> bool"

definition provider_input_of :: "uuid \<Rightarrow> chat_message list \<Rightarrow> json option \<Rightarrow> provider_input" where
  "provider_input_of rid ms metadata = \<lparr>pi_request = rid, pi_messages = ms, pi_temperature = None,
     pi_max_tokens = None, pi_metadata = metadata\<rparr>"

definition generation_outcome_of :: "(exn, provider_result) result \<Rightarrow> string" where
  "generation_outcome_of r = (case r of
     Inr _ \<Rightarrow> ''ok''
   | Inl Timeout_Error \<Rightarrow> ''timeout''
   | Inl (Provider_Error e) \<Rightarrow> if pe_kind e = Kind_timeout then ''timeout'' else ''provider_error''
   | Inl (Other_Error _ _) \<Rightarrow> ''error'')"

definition translate_failure :: "exn \<Rightarrow> chat_exn" where
  "translate_failure e = (case e of
     Timeout_Error \<Rightarrow> Chat_Timeout ''provider timeout''
   | Provider_Error p \<Rightarrow> if pe_kind p = Kind_timeout then Chat_Timeout ''provider timeout''
       else Chat_Execution (pe_message p)
   | Other_Error _ _ \<Rightarrow> Chat_Execution ''provider execution failed'')"

definition run_provider ::
    "chat_service \<Rightarrow> provider_port \<Rightarrow> provider_input \<Rightarrow> tracing \<Rightarrow> (chat_exn, provider_result) result \<times> tracing" where
  "run_provider sv p i = in_span ''rag.generate'' [(''provider.name'', Some (AStr (pv_class p)))] (\<lambda>t.
     let r = (if sv_timed_out sv p i then Inl Timeout_Error else pv_generate p i) in
     ((case r of Inl e \<Rightarrow> Inl (translate_failure e) | Inr out \<Rightarrow> Inr out),
      set_attribute ''rag.generation_outcome'' (Some (AStr (generation_outcome_of r))) t))"

definition run_chat ::
    "chat_service \<Rightarrow> uuid \<Rightarrow> chat_message list \<Rightarrow> json option \<Rightarrow> tracing
     \<Rightarrow> (chat_exn, chat_result) result \<times> tracing" where
  "run_chat sv rid ms metadata t = (case sv_resolve sv rid ms False of
     Inl e \<Rightarrow> (Inl (Chat_Other e), t)
   | Inr p \<Rightarrow>
       (case run_provider sv p (provider_input_of rid ms metadata) t of
          (Inl e, u) \<Rightarrow> (Inl e, u)
        | (Inr out, u) \<Rightarrow>
            (Inr \<lparr>ct_request = rid, ct_assistant = chat_message_of Assistant (pr_content out), ct_provider = out\<rparr>, u)))"

text \<open>The session of a provider without a usable stream: the plain answer as one chunk.\<close>

definition plain_session :: "uuid \<Rightarrow> chat_result \<Rightarrow> chat_stream" where
  "plain_session rid r = \<lparr>cs_chunks = [cm_content (ct_assistant r)], cs_failure = None,
     cs_final = Inr \<lparr>sc_request = rid, sc_assistant = ct_assistant r, sc_provider = None\<rparr>\<rparr>"

definition stream_session_of :: "uuid \<Rightarrow> stream_session \<Rightarrow> chat_stream" where
  "stream_session_of rid s = \<lparr>cs_chunks = ss_chunks s, cs_failure = ss_failure s,
     cs_final = bind_result (ss_final s) (\<lambda>r. Inr \<lparr>sc_request = rid,
       sc_assistant = chat_message_of Assistant (psr_content r), sc_provider = Some r\<rparr>)\<rparr>"

text \<open>
  The session and, for a real stream, the class name under which its consumption is traced.
\<close>

definition stream_chat ::
    "chat_service \<Rightarrow> uuid \<Rightarrow> chat_message list \<Rightarrow> json option \<Rightarrow> tracing
     \<Rightarrow> (chat_exn, chat_stream \<times> string option) result \<times> tracing" where
  "stream_chat sv rid ms metadata t =
     (let plain = (case run_chat sv rid ms metadata t of
            (Inl e, u) \<Rightarrow> (Inl e, u)
          | (Inr r, u) \<Rightarrow> (Inr (plain_session rid r, None), u))
      in case sv_resolve sv rid ms True of
           Inl e \<Rightarrow> (Inl (Chat_Other e), t)
         | Inr p \<Rightarrow>
             (case pv_stream p of
                None \<Rightarrow> plain
              | Some f \<Rightarrow>
                  (case f (provider_input_of rid ms metadata) of
                     Inl e \<Rightarrow> (Inl (Chat_Other e), t)
                   | Inr None \<Rightarrow> plain
                   | Inr (Some s) \<Rightarrow> (Inr (stream_session_of rid s, Some (pv_class p)), t))))"

text \<open>
  Consuming a traced stream: \<open>cancelled\<close> is the number of chunks after which the consumer went
  away, if it did. What is yielded is what was received.
\<close>

definition traced_generation_stream ::
    "string \<Rightarrow> nat option \<Rightarrow> string list \<Rightarrow> exn option \<Rightarrow> tracing \<Rightarrow> (string list \<times> exn option) \<times> tracing" where
  "traced_generation_stream provider_name cancelled chunks failure =
     in_span ''rag.generate'' [(''provider.name'', Some (AStr provider_name))] (\<lambda>t.
       case cancelled of
         Some n \<Rightarrow> ((take n chunks, None), set_attribute ''rag.generation_outcome'' (Some (AStr ''cancelled'')) t)
       | None \<Rightarrow> ((chunks, failure),
           set_attribute ''rag.generation_outcome''
             (Some (AStr (if failure = None then ''ok'' else ''error''))) t))"

section \<open>The service of the application\<close>

definition routed_service ::
    "provider_settings \<Rightarrow> int \<Rightarrow> (built_provider \<Rightarrow> provider_port) \<Rightarrow> (provider_port \<Rightarrow> provider_input \<Rightarrow> bool) \<Rightarrow> chat_service" where
  "routed_service cfg elapsed port timed_out = \<lparr>
     sv_resolve = (\<lambda>rid ms stream. bind_result
       (fst (resolve_provider cfg elapsed (build_routing_context cfg rid ms stream))) (\<lambda>(b, d). Inr (port b))),
     sv_timed_out = timed_out\<rparr>"

section \<open>What a call answers\<close>

definition provider_outcome :: "chat_service \<Rightarrow> provider_port \<Rightarrow> provider_input \<Rightarrow> (exn, provider_result) result" where
  "provider_outcome sv p i = (if sv_timed_out sv p i then Inl Timeout_Error else pv_generate p i)"

lemma fst_run_provider:
  "fst (run_provider sv p i t) = (case provider_outcome sv p i of Inl e \<Rightarrow> Inl (translate_failure e) | Inr out \<Rightarrow> Inr out)"
  unfolding run_provider_def by (rule fst_in_span) (simp add: provider_outcome_def Let_def)

lemma fst_run_chat:
  "fst (run_chat sv rid ms metadata t) = (case sv_resolve sv rid ms False of
     Inl e \<Rightarrow> Inl (Chat_Other e)
   | Inr p \<Rightarrow> (case provider_outcome sv p (provider_input_of rid ms metadata) of
       Inl e \<Rightarrow> Inl (translate_failure e)
     | Inr out \<Rightarrow> Inr \<lparr>ct_request = rid, ct_assistant = chat_message_of Assistant (pr_content out), ct_provider = out\<rparr>))"
proof (cases "sv_resolve sv rid ms False")
  case (Inr p)
  obtain r u where ru: "run_provider sv p (provider_input_of rid ms metadata) t = (r, u)"
    by (cases "run_provider sv p (provider_input_of rid ms metadata) t")
  have "r = (case provider_outcome sv p (provider_input_of rid ms metadata) of Inl e \<Rightarrow> Inl (translate_failure e) | Inr out \<Rightarrow> Inr out)"
    using fst_run_provider [of sv p "provider_input_of rid ms metadata" t] ru by simp
  with Inr ru show ?thesis by (simp add: run_chat_def split: sum.splits)
qed (simp add: run_chat_def)

definition service_words :: "string list" where
  "service_words = [''ok'', ''timeout'', ''provider_error'', ''error'', ''cancelled'']"

lemma generation_outcome_word: "generation_outcome_of r \<in> set service_words"
  by (auto simp: generation_outcome_of_def service_words_def split: sum.split exn.split)

lemma run_provider_trace:
  assumes "trace_ok (\<lambda>a. case a of AStr s \<Rightarrow> s = pv_class p \<or> s \<in> set service_words | _ \<Rightarrow> True) t"
  shows "trace_ok (\<lambda>a. case a of AStr s \<Rightarrow> s = pv_class p \<or> s \<in> set service_words | _ \<Rightarrow> True)
    (snd (run_provider sv p i t))"
  unfolding run_provider_def
  by (rule trace_ok_in_span [OF assms]) (auto simp: Let_def generation_outcome_word intro!: trace_ok_set_attribute)

section \<open>Properties\<close>

text \<open>A plain call answers with the resolved provider's text under the request's id, or fails in one of
  two ways: a timeout of the call or of the provider becomes the timeout failure with a fixed text; a
  normalized provider error keeps its safe message; and any other exception, whatever its text, becomes one
  fixed message, so that no internal text of a provider crosses the boundary.\<close>

theorem chat_failures_are_sanitized:
  assumes "sv_resolve sv rid ms False = Inr p"
  shows "(\<forall>out. provider_outcome sv p (provider_input_of rid ms metadata) = Inr out \<longrightarrow>
            (\<exists>r. fst (run_chat sv rid ms metadata t) = Inr r \<and> ct_request r = rid
              \<and> ct_assistant r = chat_message_of Assistant (pr_content out) \<and> ct_provider r = out))
    \<and> (\<forall>e. fst (run_chat sv rid ms metadata t) = Inl e \<longrightarrow>
            e = Chat_Timeout ''provider timeout'' \<or> e = Chat_Execution ''provider execution failed''
            \<or> (\<exists>pe. provider_outcome sv p (provider_input_of rid ms metadata) = Inl (Provider_Error pe)
                  \<and> e = Chat_Execution (pe_message pe)))
    \<and> (sv_timed_out sv p (provider_input_of rid ms metadata) \<longrightarrow>
            fst (run_chat sv rid ms metadata t) = Inl (Chat_Timeout ''provider timeout''))"
  using assms
  by (auto simp: fst_run_chat translate_failure_def provider_outcome_def split: exn.splits if_splits sum.splits)

text \<open>Streaming yields the session of the provider resolved for the stream, chunk for chunk; where
  that provider has no stream, the plain answer is delivered as one chunk with the same text as its final
  message; and a failure before the first chunk is passed on as it is.\<close>

theorem stream_chat_delivers_provider_text:
  assumes "fst (stream_chat sv rid ms metadata t) = Inr (s, traced)"
  shows "(\<exists>p f ps. sv_resolve sv rid ms True = Inr p \<and> pv_stream p = Some f
            \<and> f (provider_input_of rid ms metadata) = Inr (Some ps) \<and> cs_chunks s = ss_chunks ps
            \<and> traced = Some (pv_class p)
            \<and> (\<forall>r. ss_final ps = Inr r \<longrightarrow> (\<exists>fr. cs_final s = Inr fr \<and> cm_content (sc_assistant fr) = psr_content r
                    \<and> sc_provider fr = Some r)))
      \<or> (\<exists>r. fst (run_chat sv rid ms metadata t) = Inr r \<and> cs_chunks s = [cm_content (ct_assistant r)]
            \<and> cs_failure s = None \<and> traced = None
            \<and> (\<exists>fr. cs_final s = Inr fr \<and> sc_assistant fr = ct_assistant r \<and> sc_request fr = rid))"
proof -
  obtain x u where run: "run_chat sv rid ms metadata t = (x, u)" by (cases "run_chat sv rid ms metadata t")
  obtain p where p: "sv_resolve sv rid ms True = Inr p"
    using assms by (cases "sv_resolve sv rid ms True") (auto simp: stream_chat_def)
  show ?thesis
  proof (cases "\<exists>f ps. pv_stream p = Some f \<and> f (provider_input_of rid ms metadata) = Inr (Some ps)")
    case True
    then obtain f ps where f: "pv_stream p = Some f" "f (provider_input_of rid ms metadata) = Inr (Some ps)" by blast
    with assms p have "s = stream_session_of rid ps" "traced = Some (pv_class p)" by (auto simp: stream_chat_def)
    with p f show ?thesis by (intro disjI1 exI [of _ p] exI [of _ f] exI [of _ ps]) (auto simp: stream_session_of_def)
  next
    case False
    then have "fst (case (x, u) of (Inl e, u) \<Rightarrow> (Inl e, u) | (Inr r, u) \<Rightarrow> (Inr (plain_session rid r, None), u)) = Inr (s, traced)"
      using assms p run by (auto simp: stream_chat_def Let_def split: option.splits sum.splits)
    then obtain r where "x = Inr r" "s = plain_session rid r" "traced = None"
      by (cases x) auto
    with run show ?thesis by (intro disjI2 exI [of _ r]) (simp add: plain_session_def)
  qed
qed

definition example_service :: chat_service where
  "example_service = \<lparr>sv_resolve = (\<lambda>rid ms stream. Inr (stub_port (\<lambda>_. replicate 64 (CHR ''a'')) 0 ''ok'')),
     sv_timed_out = (\<lambda>p i. False)\<rparr>"

definition failing_service :: chat_service where
  "failing_service = \<lparr>sv_resolve = (\<lambda>rid ms stream. Inr (stub_port (\<lambda>_. []) 0 ''error'')), sv_timed_out = (\<lambda>p i. False)\<rparr>"

abbreviation quiet :: tracing where
  "quiet \<equiv> \<lparr>tr_active = False, tr_events = [], tr_rejected = []\<rparr>"

theorem chat_failures_are_sanitized_witness:
  "\<exists>e. fst (run_chat failing_service 1 [chat_message_of User ''hi''] None quiet) = Inl e
    \<and> e = Chat_Execution ''provider execution failed''"
proof -
  have "sv_resolve failing_service 1 [chat_message_of User ''hi''] False = Inr (stub_port (\<lambda>_. []) 0 ''error'')"
    by (simp add: failing_service_def)
  note t = chat_failures_are_sanitized [OF this, of None quiet]
  have "fst (run_chat failing_service 1 [chat_message_of User ''hi''] None quiet) = Inl (Chat_Execution ''provider execution failed'')"
    by (simp add: fst_run_chat failing_service_def provider_outcome_def stub_port_def stub_generate_def translate_failure_def)
  with t show ?thesis by blast
qed

theorem stream_chat_delivers_provider_text_witness:
  "\<exists>s traced. fst (stream_chat example_service 1 [chat_message_of User ''hi there''] None quiet) = Inr (s, traced)
    \<and> traced = Some ''StubProvider''"
proof -
  obtain s traced where run: "fst (stream_chat example_service 1 [chat_message_of User ''hi there''] None quiet) = Inr (s, traced)"
    and tr: "traced = Some ''StubProvider''"
    by (simp add: stream_chat_def example_service_def stub_port_def stub_stream_def stub_generate_def Let_def)
  with stream_chat_delivers_provider_text [OF run] show ?thesis by blast
qed

end
