(* ===== verification/Response_Cache.thy ===== *)
theory Response_Cache imports Chat_Service begin

text \<open>
  The answer cache of \<open>app/services/chat_response_cache.py\<close>: the key, reading and writing through a
  Redis client, and its best-effort log. The client is a parameter, a record of its two operations;
  \<open>redis_law\<close> is what the documentation of \<open>GET\<close> and \<open>SET\<close> promises within the time to live. \<open>sha256_hex\<close>
  is the hexadecimal SHA-256 of a text. The lemmas show that the key determines tenant and
  conversation, and that a stored answer is read back as it was written, without its latency.
\<close>

section \<open>Client, environment and log\<close>

record 'r redis_port =
  rd_get :: "'r \<Rightarrow> string \<Rightarrow> (exn, string option) result"
  rd_set :: "'r \<Rightarrow> string \<Rightarrow> string \<Rightarrow> int \<Rightarrow> (exn, 'r) result"

definition redis_law :: "'r redis_port \<Rightarrow> bool" where
  "redis_law rd = (\<forall>r k v ttl r'. rd_set rd r k v ttl = Inr r' \<longrightarrow>
     rd_get rd r' k = Inr (Some v) \<and> (\<forall>q. q \<noteq> k \<longrightarrow> rd_get rd r' q = rd_get rd r q))"

datatype cache_log =
  Cache_Error string string
| Cache_Miss string
| Cache_Hit string
| Cache_Bypass string

text \<open>\<open>accepts\<close>: the logging call for this record did not raise. \<open>py_str\<close> and \<open>py_trunc\<close> are \<open>str\<close> and
  \<open>int\<close> on the JSON values that are neither scalar nor text (floats, lists and objects).\<close>

record 'r cache_env =
  ce_settings :: provider_settings
  ce_sha256_hex :: "string \<Rightarrow> string"
  ce_redis :: "'r redis_port"
  ce_ttl_s :: int
  ce_accepts :: "cache_log \<Rightarrow> bool"
  ce_py_str :: "json \<Rightarrow> string"
  ce_py_trunc :: "json \<Rightarrow> int option"

definition cache_emit :: "'r cache_env \<Rightarrow> cache_log \<Rightarrow> cache_log list \<Rightarrow> cache_log list" where
  "cache_emit ce l logs = (if ce_accepts ce l then logs @ [l] else logs)"

definition log_bypass :: "'r cache_env \<Rightarrow> string \<Rightarrow> cache_log list \<Rightarrow> cache_log list" where
  "log_bypass ce reason logs = cache_emit ce (Cache_Bypass reason) logs"

section \<open>The key\<close>

definition message_json :: "chat_message \<Rightarrow> json" where
  "message_json m = JObj [(''role'', JStr (role_text (cm_role m))), (''content'', JStr (cm_content m))]"

definition opt_text :: "string option \<Rightarrow> json" where
  "opt_text v = (case v of Some s \<Rightarrow> JStr s | None \<Rightarrow> JNull)"

definition fingerprint :: "provider_settings \<Rightarrow> chat_message list \<Rightarrow> json" where
  "fingerprint cfg ms = JObj [
     (''messages'', JArr (map message_json ms)),
     (''provider'', JStr (sg_provider cfg)),
     (''fallback_provider'', opt_text (sg_fallback_provider cfg)),
     (''openai_model'', JStr (sg_openai_model cfg)),
     (''bedrock_model'', opt_text (sg_bedrock_model cfg)),
     (''bedrock_prompt_version'', JStr (sg_bedrock_prompt_version cfg)),
     (''stub_provider_mode'', JStr (sg_stub_mode cfg))]"

definition fingerprint_text :: "provider_settings \<Rightarrow> chat_message list \<Rightarrow> string" where
  "fingerprint_text cfg ms = json_dumps True (json_sort (fingerprint cfg ms))"

definition cache_key :: "'r cache_env \<Rightarrow> chat_message list \<Rightarrow> string \<Rightarrow> string" where
  "cache_key ce ms tenant =
     ''chat:response:'' @ tenant @ '':'' @ ce_sha256_hex ce (fingerprint_text (ce_settings ce) ms)"

section \<open>Reading and writing\<close>

definition opt_int :: "int option \<Rightarrow> json" where
  "opt_int v = (case v of Some i \<Rightarrow> JInt i | None \<Rightarrow> JNull)"

definition cache_payload :: "chat_result \<Rightarrow> json" where
  "cache_payload r = JObj [
     (''assistant_content'', JStr (cm_content (ct_assistant r))),
     (''provider_result'', JObj [
        (''provider'', JStr (pr_provider (ct_provider r))),
        (''model_version'', JStr (pr_model_version (ct_provider r))),
        (''prompt_version'', JStr (pr_prompt_version (ct_provider r))),
        (''input_tokens'', opt_int (pr_input_tokens (ct_provider r))),
        (''output_tokens'', opt_int (pr_output_tokens (ct_provider r))),
        (''total_tokens'', opt_int (pr_total_tokens (ct_provider r)))])]"

text \<open>\<open>str(value)\<close> and \<open>_as_int_or_none(value)\<close>; the outer \<open>None\<close> of the latter is a raise.\<close>

definition text_of_json :: "(json \<Rightarrow> string) \<Rightarrow> json \<Rightarrow> string" where
  "text_of_json py_str j = (case j of
     JStr s \<Rightarrow> s | JNull \<Rightarrow> ''None'' | JBool b \<Rightarrow> (if b then ''True'' else ''False'')
   | JInt i \<Rightarrow> int_dec i | _ \<Rightarrow> py_str j)"

definition as_int_or_none :: "(json \<Rightarrow> int option) \<Rightarrow> json \<Rightarrow> int option option" where
  "as_int_or_none py_trunc j = (case j of
     JNull \<Rightarrow> Some None | JInt i \<Rightarrow> Some (Some i) | JBool b \<Rightarrow> Some (Some (if b then 1 else 0))
   | JStr s \<Rightarrow> map_option Some (py_int10 s)
   | JFloat l \<Rightarrow> map_option Some (py_trunc j)
   | _ \<Rightarrow> None)"

definition get_or_null :: "(string \<times> json) list \<Rightarrow> string \<Rightarrow> json" where
  "get_or_null kvs k = (case map_of kvs k of Some v \<Rightarrow> v | None \<Rightarrow> JNull)"

definition decode_provider_result :: "'r cache_env \<Rightarrow> string \<Rightarrow> (string \<times> json) list \<Rightarrow> provider_result option" where
  "decode_provider_result ce content p =
     (case (map_of p ''provider'', map_of p ''model_version'', map_of p ''prompt_version'') of
        (Some prov, Some model, Some prompt) \<Rightarrow>
          (case (as_int_or_none (ce_py_trunc ce) (get_or_null p ''input_tokens''),
                 as_int_or_none (ce_py_trunc ce) (get_or_null p ''output_tokens''),
                 as_int_or_none (ce_py_trunc ce) (get_or_null p ''total_tokens'')) of
             (Some it, Some ot, Some tt) \<Rightarrow> Some \<lparr>pr_content = content,
               pr_provider = text_of_json (ce_py_str ce) prov,
               pr_model_version = text_of_json (ce_py_str ce) model,
               pr_prompt_version = text_of_json (ce_py_str ce) prompt,
               pr_input_tokens = it, pr_output_tokens = ot, pr_total_tokens = tt, pr_latency_ms = None\<rparr>
           | _ \<Rightarrow> None)
      | _ \<Rightarrow> None)"

definition decode_payload :: "'r cache_env \<Rightarrow> string \<Rightarrow> provider_result option" where
  "decode_payload ce raw = (case json_loads raw of
     Some (JObj kvs) \<Rightarrow>
       (case (map_of kvs ''provider_result'', map_of kvs ''assistant_content'') of
          (Some (JObj p), Some content) \<Rightarrow> decode_provider_result ce (text_of_json (ce_py_str ce) content) p
        | _ \<Rightarrow> None)
   | _ \<Rightarrow> None)"

definition cache_get ::
    "'r cache_env \<Rightarrow> 'r \<Rightarrow> uuid \<Rightarrow> chat_message list \<Rightarrow> string \<Rightarrow> cache_log list
     \<Rightarrow> chat_result option \<times> cache_log list" where
  "cache_get ce r rid ms tenant logs = (case rd_get (ce_redis ce) r (cache_key ce ms tenant) of
     Inl e \<Rightarrow> (None, cache_emit ce (Cache_Error ''read'' tenant) logs)
   | Inr None \<Rightarrow> (None, cache_emit ce (Cache_Miss tenant) logs)
   | Inr (Some raw) \<Rightarrow>
       if raw = [] then (None, cache_emit ce (Cache_Miss tenant) logs)
       else (case decode_payload ce raw of
          None \<Rightarrow> (None, cache_emit ce (Cache_Error ''decode'' tenant) logs)
        | Some p \<Rightarrow> (Some \<lparr>ct_request = rid, ct_assistant = chat_message_of Assistant (pr_content p),
              ct_provider = p\<rparr>, cache_emit ce (Cache_Hit tenant) logs)))"

definition cache_set ::
    "'r cache_env \<Rightarrow> 'r \<Rightarrow> chat_message list \<Rightarrow> chat_result \<Rightarrow> string \<Rightarrow> cache_log list \<Rightarrow> 'r \<times> cache_log list" where
  "cache_set ce r ms res tenant logs =
     (case rd_set (ce_redis ce) r (cache_key ce ms tenant) (json_dumps True (cache_payload res)) (ce_ttl_s ce) of
        Inl e \<Rightarrow> (r, cache_emit ce (Cache_Error ''write'' tenant) logs)
      | Inr r' \<Rightarrow> (r', logs))"

section \<open>What a key determines\<close>

lemma message_json_sort_inject:
  "json_sort (message_json m) = json_sort (message_json n) \<longleftrightarrow> m = n"
proof
  assume eq: "json_sort (message_json m) = json_sort (message_json n)"
  note inj = json_sort_eqD [OF eq [unfolded message_json_def]]
  have "json_sort (JStr (role_text (cm_role m))) = json_sort (JStr (role_text (cm_role n)))"
    by (rule inj [of "''role''"]) simp_all
  moreover have "json_sort (JStr (cm_content m)) = json_sort (JStr (cm_content n))"
    by (rule inj [of "''content''"]) simp_all
  ultimately show "m = n" by simp
qed simp

lemma opt_text_inject [simp]: "json_sort (opt_text a) = json_sort (opt_text b) \<longleftrightarrow> a = b"
  by (auto simp: opt_text_def split: option.splits)

text \<open>The members of a fingerprint: the conversation and the settings that choose the model.\<close>

definition answering_setup :: "provider_settings \<Rightarrow> (string \<times> string option \<times> string \<times> string option \<times> string \<times> string)" where
  "answering_setup cfg = (sg_provider cfg, sg_fallback_provider cfg, sg_openai_model cfg,
     sg_bedrock_model cfg, sg_bedrock_prompt_version cfg, sg_stub_mode cfg)"

lemma fingerprint_keys: "distinct (map fst kvs)" if "fingerprint cfg ms = JObj kvs"
  using that by (auto simp: fingerprint_def)

lemma fingerprint_inject:
  assumes "json_sort (fingerprint cfg ms) = json_sort (fingerprint cfg' ns)"
  shows "ms = ns \<and> answering_setup cfg = answering_setup cfg'"
proof -
  note inj = json_sort_eqD [OF assms [unfolded fingerprint_def]]
  have "json_sort (JArr (map message_json ms)) = json_sort (JArr (map message_json ns))"
    by (rule inj [of "''messages''"]) simp_all
  then have "map (\<lambda>m. json_sort (message_json m)) ms = map (\<lambda>m. json_sort (message_json m)) ns"
    by (simp add: comp_def)
  then have "ms = ns"
    by (rule map_injective) (simp add: inj_def message_json_sort_inject)
  moreover have "json_sort (JStr (sg_provider cfg)) = json_sort (JStr (sg_provider cfg'))"
    by (rule inj [of "''provider''"]) simp_all
  moreover have "json_sort (opt_text (sg_fallback_provider cfg)) = json_sort (opt_text (sg_fallback_provider cfg'))"
    by (rule inj [of "''fallback_provider''"]) simp_all
  moreover have "json_sort (JStr (sg_openai_model cfg)) = json_sort (JStr (sg_openai_model cfg'))"
    by (rule inj [of "''openai_model''"]) simp_all
  moreover have "json_sort (opt_text (sg_bedrock_model cfg)) = json_sort (opt_text (sg_bedrock_model cfg'))"
    by (rule inj [of "''bedrock_model''"]) simp_all
  moreover have "json_sort (JStr (sg_bedrock_prompt_version cfg)) = json_sort (JStr (sg_bedrock_prompt_version cfg'))"
    by (rule inj [of "''bedrock_prompt_version''"]) simp_all
  moreover have "json_sort (JStr (sg_stub_mode cfg)) = json_sort (JStr (sg_stub_mode cfg'))"
    by (rule inj [of "''stub_provider_mode''"]) simp_all
  ultimately show ?thesis by (simp add: answering_setup_def)
qed

lemma fingerprint_plain: "json_plain (fingerprint cfg ms)"
  by (auto simp: fingerprint_def message_json_def opt_text_def list_all_iff split: option.splits)

lemma fingerprint_text_inject:
  assumes "fingerprint_text cfg ms = fingerprint_text cfg' ns"
  shows "ms = ns \<and> answering_setup cfg = answering_setup cfg'"
proof -
  have "json_sort (fingerprint cfg ms) = json_sort (fingerprint cfg' ns)"
    using assms json_codec.enc_inject [of "json_sort (fingerprint cfg ms)" "json_sort (fingerprint cfg' ns)" True]
    by (simp add: fingerprint_text_def fingerprint_plain json_plain_sort)
  then show ?thesis by (rule fingerprint_inject)
qed

lemma cache_key_split:
  assumes "length (ce_sha256_hex ce a) = 64" "length (ce_sha256_hex ce b) = 64"
    and "''chat:response:'' @ t @ '':'' @ ce_sha256_hex ce a = ''chat:response:'' @ u @ '':'' @ ce_sha256_hex ce b"
  shows "t = u \<and> ce_sha256_hex ce a = ce_sha256_hex ce b"
proof -
  have "(t @ '':'') @ ce_sha256_hex ce a = (u @ '':'') @ ce_sha256_hex ce b" using assms(3) by simp
  then show ?thesis using assms(1,2) append_eq_append_conv [of "ce_sha256_hex ce a" "ce_sha256_hex ce b"]
    by (metis append_eq_append_conv butlast_snoc)
qed

section \<open>Storing and reading back\<close>

definition stored_answer :: "uuid \<Rightarrow> chat_result \<Rightarrow> chat_result" where
  "stored_answer rid res = \<lparr>ct_request = rid,
     ct_assistant = chat_message_of Assistant (cm_content (ct_assistant res)),
     ct_provider = (ct_provider res)\<lparr>pr_content := cm_content (ct_assistant res), pr_latency_ms := None\<rparr>\<rparr>"

lemma as_int_opt_int [simp]: "as_int_or_none f (opt_int v) = Some v"
  by (cases v) (simp_all add: as_int_or_none_def opt_int_def)

lemma opt_int_plain [simp]: "json_plain (opt_int v)"
  by (cases v) (simp_all add: opt_int_def)

lemma cache_payload_plain: "json_plain (cache_payload res)"
  by (simp add: cache_payload_def)

lemma decode_cache_payload:
  "decode_payload ce (json_dumps True (cache_payload res)) = Some (ct_provider (stored_answer rid res))"
proof -
  have "json_loads (json_dumps True (cache_payload res)) = Some (cache_payload res)"
    by (rule json_codec.dec_enc [OF cache_payload_plain])
  then show ?thesis
    by (cases "ct_provider res")
      (simp add: decode_payload_def cache_payload_def decode_provider_result_def text_of_json_def
        get_or_null_def stored_answer_def)
qed

lemma dumps_object_not_Nil [simp]: "json_dumps ea (cache_payload res) \<noteq> []"
  by (simp add: cache_payload_def)

lemma fst_cache_get: "fst (cache_get ce r rid ms tenant logs) = (case rd_get (ce_redis ce) r (cache_key ce ms tenant) of
     Inr (Some raw) \<Rightarrow> if raw = [] then None else map_option (\<lambda>p. \<lparr>ct_request = rid,
       ct_assistant = chat_message_of Assistant (pr_content p), ct_provider = p\<rparr>) (decode_payload ce raw)
   | _ \<Rightarrow> None)"
  by (simp add: cache_get_def split: sum.splits option.splits)

lemma cache_key_inject:
  assumes "\<forall>x. length (ce_sha256_hex ce x) = 64"
    and "ce_sha256_hex ce (fingerprint_text (ce_settings ce) ms) = ce_sha256_hex ce (fingerprint_text (ce_settings ce) ns)
      \<Longrightarrow> fingerprint_text (ce_settings ce) ms = fingerprint_text (ce_settings ce) ns"
  shows "cache_key ce ms t = cache_key ce ns u \<longleftrightarrow> ms = ns \<and> t = u"
proof
  assume "cache_key ce ms t = cache_key ce ns u"
  from cache_key_split [OF _ _ this [unfolded cache_key_def]] assms(1)
  have "t = u" "ce_sha256_hex ce (fingerprint_text (ce_settings ce) ms) = ce_sha256_hex ce (fingerprint_text (ce_settings ce) ns)"
    by blast+
  with assms(2) fingerprint_text_inject [of "ce_settings ce" ms "ce_settings ce" ns] show "ms = ns \<and> t = u" by blast
qed simp

section \<open>Properties\<close>

text \<open>C17: within the time to live the cache is a map from tenant and conversation to an answer. What was
  stored is answered to the same tenant asking the same conversation, as the text and usage it was, under
  the new request's id and without a latency; no other tenant and no other conversation sees it, as long as
  the two fingerprints do not collide; a failed write changes nothing, and a failed read is a miss.\<close>

theorem response_cache_is_a_map:
  assumes law: "redis_law (ce_redis ce)" and len: "\<forall>x. length (ce_sha256_hex ce x) = 64"
    and no_collision: "ce_sha256_hex ce (fingerprint_text (ce_settings ce) ms) = ce_sha256_hex ce (fingerprint_text (ce_settings ce) ns)
      \<Longrightarrow> fingerprint_text (ce_settings ce) ms = fingerprint_text (ce_settings ce) ns"
    and set: "fst (cache_set ce r ms res t logs) = r'"
  shows "fst (cache_get ce r' rid ns u l) =
      (if ns = ms \<and> u = t \<and> (\<exists>q. rd_set (ce_redis ce) r (cache_key ce ms t)
            (json_dumps True (cache_payload res)) (ce_ttl_s ce) = Inr q)
       then Some (stored_answer rid res) else fst (cache_get ce r rid ns u l))
    \<and> (\<forall>e. rd_get (ce_redis ce) r (cache_key ce ns u) = Inl e \<longrightarrow> fst (cache_get ce r rid ns u l) = None)"
proof (cases "rd_set (ce_redis ce) r (cache_key ce ms t) (json_dumps True (cache_payload res)) (ce_ttl_s ce)")
  case (Inl e)
  with set have "r' = r" by (simp add: cache_set_def)
  with Inl show ?thesis by (simp add: fst_cache_get)
next
  case (Inr q)
  with set have "r' = q" by (simp add: cache_set_def)
  moreover have "rd_get (ce_redis ce) q (cache_key ce ms t) = Inr (Some (json_dumps True (cache_payload res)))"
    "\<And>k. k \<noteq> cache_key ce ms t \<Longrightarrow> rd_get (ce_redis ce) q k = rd_get (ce_redis ce) r k"
    using law Inr by (auto simp: redis_law_def)
  moreover note cache_key_inject [OF len no_collision, of t u] decode_cache_payload [of ce res rid]
  ultimately show ?thesis
    using Inr by (auto simp: fst_cache_get stored_answer_def)
qed

definition map_redis :: "(string \<Rightarrow> string option) redis_port" where
  "map_redis = \<lparr>rd_get = (\<lambda>m k. Inr (m k)), rd_set = (\<lambda>m k v ttl. Inr (m(k \<mapsto> v)))\<rparr>"

lemma map_redis_law: "redis_law map_redis"
  by (simp add: redis_law_def map_redis_def)

text \<open>A digest of 64 characters that tells apart the texts of the witness.\<close>

definition example_cache :: "(string \<Rightarrow> string option) cache_env" where
  "example_cache = \<lparr>ce_settings = example_provider_settings,
     ce_sha256_hex = (\<lambda>t. take 64 (drop 40 t @ replicate 64 (CHR ''0''))),
     ce_redis = map_redis, ce_ttl_s = 60, ce_accepts = (\<lambda>_. True), ce_py_str = (\<lambda>_. []), ce_py_trunc = (\<lambda>_. None)\<rparr>"

definition example_answer :: chat_result where
  "example_answer = \<lparr>ct_request = 1, ct_assistant = chat_message_of Assistant ''hello'',
     ct_provider = \<lparr>pr_content = ''hello'', pr_provider = ''stub'', pr_model_version = ''stub-1'',
       pr_prompt_version = ''stub-prompt-1'', pr_input_tokens = Some 1, pr_output_tokens = Some 1,
       pr_total_tokens = Some 2, pr_latency_ms = Some 12\<rparr>\<rparr>"

theorem response_cache_is_a_map_witness:
  "fst (cache_get example_cache (fst (cache_set example_cache Map.empty [chat_message_of User ''hi''] example_answer ''acme'' []))
      7 [chat_message_of User ''hi''] ''acme'' []) = Some (stored_answer 7 example_answer)
   \<and> fst (cache_get example_cache (fst (cache_set example_cache Map.empty [chat_message_of User ''hi''] example_answer ''acme'' []))
      7 [chat_message_of User ''hi''] ''globex'' []) = None"
proof -
  have law: "redis_law (ce_redis example_cache)" by (simp add: example_cache_def map_redis_law)
  have len: "\<forall>x. length (ce_sha256_hex example_cache x) = 64" by (auto simp: example_cache_def min_def)
  have empty: "rd_get (ce_redis example_cache) Map.empty k = Inr None"
    "\<exists>q. rd_set (ce_redis example_cache) Map.empty k v ttl = Inr q" for k v ttl
    by (simp_all add: example_cache_def map_redis_def)
  note use = response_cache_is_a_map [OF law len _ refl, of "[chat_message_of User ''hi'']" "[chat_message_of User ''hi'']"
      Map.empty example_answer "''acme''" "[]" 7 _ "[]", OF refl]
  from use [of "''acme''"] use [of "''globex''"] empty show ?thesis by (simp add: fst_cache_get)
qed

end
