(* ===== verification/Chat_Turn.thy ===== *)
theory Chat_Turn imports Response_Cache Budget Http_Context Store Costs begin

text \<open>
  The non-streaming half of \<open>POST /chat\<close> (\<open>app/api/routes/chat.py\<close>): preparing the two contexts
  under the added-context cap, the single write transaction around the generation, the error
  replies with their usage row, the answer cache and the metrics row. A transaction works on a copy
  of the store and either replaces it or is rolled back; sequence values it drew stay drawn.
  \<open>db_faults\<close> says which of the flushes and commits raise.
\<close>

section \<open>Requests, configuration and environment\<close>

record chat_config =
  cc_rag_augmentation :: bool
  cc_ebm25 :: bool
  cc_history :: bool
  cc_max_added_chars :: int
  cc_max_assistant_chars :: int
  cc_max_error_chars :: int
  cc_metrics :: bool
  cc_provider :: string

record chat_request =
  cq_stream :: bool
  cq_conversation :: "uuid option"
  cq_message :: string

text \<open>\<open>ChatRequest.message_not_blank\<close>, the route's own validator on top of the length limits.\<close>

definition message_not_blank :: "string \<Rightarrow> bool" where
  "message_not_blank v = (v \<noteq> [] \<and> py_strip v \<noteq> [])"

record db_faults =
  df_conversation :: "exn option"
  df_user :: "exn option"
  df_assistant :: "exn option"
  df_usage_refused :: bool
  df_commit :: "exn option"
  df_error_commit :: "exn option"

record turn_ids =
  ti_conversation :: uuid
  ti_user :: uuid
  ti_assistant :: uuid

datatype metric =
  Metric_None
| Metric_Int int
| Metric_Text string

record metrics_row =
  mx_instance :: uuid
  mx_request :: "uuid option"
  mx_tenant :: string
  mx_mode :: string
  mx_retrieval_outcome :: metric
  mx_memory_outcome :: metric
  mx_selected :: metric
  mx_cost :: "rat option"
  mx_generation_outcome :: string
  mx_input_tokens :: "int option"
  mx_output_tokens :: "int option"
  mx_latency :: int
  mx_history_truncated :: bool
  mx_row_cap_reached :: bool

text \<open>
  What one call of the route is given, the readings of the clock included: \<open>en_latency\<close> where the
  usage row is built, \<open>en_total_latency\<close> at the end. \<open>en_provider_attrs\<close> are the \<open>provider\<close> and
  \<open>provider_name\<close> attributes of the service's provider; \<open>en_released\<close> is what \<open>in_transaction()\<close>
  says in the \<open>finally\<close> block; \<open>en_metrics_fails\<close>: the metrics insert raised or timed out.
\<close>

record 'r chat_env =
  en_config :: chat_config
  en_cache :: "'r cache_env"
  en_service :: chat_service
  en_faults :: db_faults
  en_ids :: turn_ids
  en_request :: uuid
  en_tenant :: string
  en_latency :: int
  en_total_latency :: int
  en_provider_attrs :: "string option \<times> string option"
  en_collector :: "metric collector option"
  en_has_request :: bool
  en_released :: bool
  en_metrics_fails :: bool

record 'r route_state =
  rt_store :: store
  rt_redis :: 'r
  rt_cache_log :: "cache_log list"
  rt_metrics :: "metrics_row list"
  rt_tracing :: tracing

definition cache_bypass_reason :: "chat_config \<Rightarrow> string option" where
  "cache_bypass_reason cfg =
     (if cc_rag_augmentation cfg then Some ''rag_augmentation''
      else if cc_ebm25 cfg then Some ''ebm25_memory'' else None)"

definition error_provider_name :: "chat_config \<Rightarrow> string option \<times> string option \<Rightarrow> string" where
  "error_provider_name cfg attrs =
     (if set_text (fst attrs) then the (fst attrs)
      else if set_text (snd attrs) then the (snd attrs) else cc_provider cfg)"

section \<open>Preparation\<close>

record public_source =
  ps_citation :: string
  ps_document :: uuid
  ps_chunk :: uuid
  ps_rank :: int

definition public_source_of :: "rag_source \<Rightarrow> public_source" where
  "public_source_of s = \<lparr>ps_citation = sr_citation s, ps_document = sr_document s,
     ps_chunk = sr_chunk s, ps_rank = sr_rank s\<rparr>"

record prepared =
  pp_memory :: memory_context
  pp_collector :: "metric collector option"
  pp_messages :: "chat_message list"
  pp_metadata :: "json option"
  pp_sources :: "public_source list"

definition record_budget_outcome :: "string option \<Rightarrow> metric collector option \<Rightarrow> metric collector option" where
  "record_budget_outcome outcome c = (case outcome of
     None \<Rightarrow> c
   | Some w \<Rightarrow> map_option (collector_record [(''memory_outcome'', Some (Metric_Text w))]) c)"

definition prepare_turn ::
    "chat_config \<Rightarrow> chat_request \<Rightarrow> rag_context \<Rightarrow> memory_context \<Rightarrow> metric collector option \<Rightarrow> prepared" where
  "prepare_turn cfg q rag memory c =
     (let rag0 = (if cc_rag_augmentation cfg then rag else no_rag);
          memory0 = (if cc_history cfg then memory else no_memory)
      in case enforce_added_context_cap memory0 rag0 (cq_message q) (cc_max_added_chars cfg) of
           (memory1, rag1, outcome) \<Rightarrow>
             \<lparr>pp_memory = memory1, pp_collector = record_budget_outcome outcome c,
              pp_messages = mm_messages memory1 @ [chat_message_of User (cq_message q)],
              pp_metadata = merge_metadata rag1 memory1,
              pp_sources = map public_source_of (rg_sources rag1)\<rparr>)"

section \<open>Metrics row\<close>

definition metric_text :: "metric \<Rightarrow> string" where
  "metric_text m = (case m of Metric_None \<Rightarrow> ''None'' | Metric_Int i \<Rightarrow> int_dec i | Metric_Text t \<Rightarrow> t)"

definition metric_falsy :: "metric \<Rightarrow> bool" where
  "metric_falsy m = (m = Metric_None \<or> m = Metric_Int 0 \<or> m = Metric_Text [])"

definition snapshot_get :: "(string \<times> metric) list \<Rightarrow> string \<Rightarrow> metric" where
  "snapshot_get snap k = (case map_of snap k of Some v \<Rightarrow> v | None \<Rightarrow> Metric_None)"

definition metrics_row_of ::
    "'r chat_env \<Rightarrow> string \<Rightarrow> provider_result option \<Rightarrow> memory_context \<Rightarrow> (string \<times> metric) list
     \<Rightarrow> uuid \<Rightarrow> uuid option \<Rightarrow> metrics_row" where
  "metrics_row_of en outcome pr memory snap inst corr = \<lparr>
     mx_instance = inst, mx_request = corr, mx_tenant = en_tenant en,
     mx_mode = (if cc_ebm25 (en_config en) then ''B'' else ''A''),
     mx_retrieval_outcome = snapshot_get snap ''retrieval_outcome'',
     mx_memory_outcome = snapshot_get snap ''memory_outcome'',
     mx_selected = snapshot_get snap ''ebm25_selected_count'',
     mx_cost = estimate_generation_cost_usd (map_option pr_provider pr) (map_option pr_model_version pr)
       (case pr of Some p \<Rightarrow> pr_input_tokens p | None \<Rightarrow> None) (case pr of Some p \<Rightarrow> pr_output_tokens p | None \<Rightarrow> None),
     mx_generation_outcome = outcome,
     mx_input_tokens = (case pr of Some p \<Rightarrow> pr_input_tokens p | None \<Rightarrow> None),
     mx_output_tokens = (case pr of Some p \<Rightarrow> pr_output_tokens p | None \<Rightarrow> None),
     mx_latency = max 0 (en_total_latency en),
     mx_history_truncated = mm_truncated memory, mx_row_cap_reached = mm_row_cap_reached memory\<rparr>"

definition new_metrics_rows ::
    "'r chat_env \<Rightarrow> metric collector option \<Rightarrow> string \<Rightarrow> provider_result option \<Rightarrow> memory_context \<Rightarrow> metrics_row list" where
  "new_metrics_rows en c outcome pr memory =
     (if \<not> cc_metrics (en_config en) \<or> \<not> en_has_request en then []
      else (case c of
         None \<Rightarrow> []
       | Some collector \<Rightarrow>
           (let snap = collector_snapshot Metric_Text Metric_None collector;
                raw = snapshot_get snap ''request_instance_id'';
                raw_request = snapshot_get snap ''request_id''
            in if metric_falsy raw then []
               else (case uuid_parse (metric_text raw) of
                  None \<Rightarrow> []
                | Some inst \<Rightarrow>
                    if \<not> metric_falsy raw_request \<and> uuid_parse (metric_text raw_request) = None then []
                    else if en_metrics_fails en then []
                    else [metrics_row_of en outcome pr memory snap inst
                       (if metric_falsy raw_request then None else uuid_parse (metric_text raw_request))]))))"

definition write_metrics ::
    "'r chat_env \<Rightarrow> metric collector option \<Rightarrow> string \<Rightarrow> provider_result option \<Rightarrow> memory_context
     \<Rightarrow> 'r route_state \<Rightarrow> 'r route_state" where
  "write_metrics en c outcome pr memory st =
     (if en_released en then st\<lparr>rt_metrics := rt_metrics st @ new_metrics_rows en c outcome pr memory\<rparr> else st)"

section \<open>Rows of a turn\<close>

datatype route_exn =
  Conversation_Not_Found
| Service_Failure chat_exn
| Db_Failure exn

definition flushed :: "exn option \<Rightarrow> store \<Rightarrow> (route_exn, store) result" where
  "flushed fault s = (case fault of Some e \<Rightarrow> Inl (Db_Failure e) | None \<Rightarrow> Inr s)"

definition open_conversation ::
    "db_faults \<Rightarrow> uuid option \<Rightarrow> uuid \<Rightarrow> string \<Rightarrow> store \<Rightarrow> (route_exn, store) result" where
  "open_conversation fl requested cid tenant s =
     (if requested = None
      then flushed (df_conversation fl) (s\<lparr>st_conversations := st_conversations s @ [\<lparr>cv_id = cid, cv_tenant = tenant\<rparr>]\<rparr>)
      else if get_conversation s cid tenant = None then Inl Conversation_Not_Found else Inr s)"

definition add_message :: "uuid \<Rightarrow> uuid \<Rightarrow> string \<Rightarrow> role \<Rightarrow> string \<Rightarrow> store \<Rightarrow> store" where
  "add_message mid cid tenant role content s = s\<lparr>
     st_messages := st_messages s @ [\<lparr>mr_id = mid, mr_sequence = st_next_sequence s, mr_conversation = cid,
       mr_tenant = tenant, mr_role = role, mr_content = content\<rparr>],
     st_next_sequence := st_next_sequence s + 1\<rparr>"

definition add_usage :: "usage_row \<Rightarrow> store \<Rightarrow> store" where
  "add_usage u s = s\<lparr>st_usage := st_usage s @ [u]\<rparr>"

definition rolled_back :: "store \<Rightarrow> store \<Rightarrow> store" where
  "rolled_back before during = before\<lparr>st_next_sequence := st_next_sequence during\<rparr>"

definition as_int_or_zero :: "int option \<Rightarrow> int" where
  "as_int_or_zero v = max 0 (case v of Some i \<Rightarrow> i | None \<Rightarrow> 0)"

definition turn_usage :: "'r chat_env \<Rightarrow> provider_result \<Rightarrow> usage_row" where
  "turn_usage en pr = \<lparr>ue_request = en_request en, ue_provider = pr_provider pr,
     ue_model_version = pr_model_version pr, ue_prompt_version = pr_prompt_version pr,
     ue_status = Some ''success'', ue_error_message = None, ue_conversation = None,
     ue_message = Some (ti_assistant (en_ids en)),
     ue_input_tokens = Some (as_int_or_zero (pr_input_tokens pr)),
     ue_output_tokens = Some (as_int_or_zero (pr_output_tokens pr)),
     ue_total_tokens = Some (as_int_or_zero (pr_total_tokens pr)),
     ue_latency_ms = Some (max 0 (en_latency en))\<rparr>"

definition error_usage :: "'r chat_env \<Rightarrow> string \<Rightarrow> usage_row" where
  "error_usage en message = \<lparr>ue_request = en_request en,
     ue_provider = error_provider_name (en_config en) (en_provider_attrs en),
     ue_model_version = ''local'', ue_prompt_version = ''v0'', ue_status = Some ''error'',
     ue_error_message = Some message, ue_conversation = None, ue_message = None,
     ue_input_tokens = None, ue_output_tokens = None, ue_total_tokens = None,
     ue_latency_ms = Some (max 0 (en_latency en))\<rparr>"

text \<open>The messages of a turn: what the flushes and the commit leave of the store.\<close>

definition conversation_of :: "'r chat_env \<Rightarrow> chat_request \<Rightarrow> uuid" where
  "conversation_of en q = (case cq_conversation q of Some c \<Rightarrow> c | None \<Rightarrow> ti_conversation (en_ids en))"

section \<open>The transaction\<close>

text \<open>An answer, and whether it is to be written to the cache.\<close>

definition obtain_answer ::
    "'r chat_env \<Rightarrow> prepared \<Rightarrow> 'r route_state \<Rightarrow> (route_exn, chat_result \<times> bool) result \<times> 'r route_state" where
  "obtain_answer en p st =
     (let (cached, logs) = (case cache_bypass_reason (en_config en) of
            Some reason \<Rightarrow> (None, log_bypass (en_cache en) reason (rt_cache_log st))
          | None \<Rightarrow> cache_get (en_cache en) (rt_redis st) (en_request en) (pp_messages p) (en_tenant en) (rt_cache_log st));
          st1 = st\<lparr>rt_cache_log := logs\<rparr>
      in case cached of
           Some r \<Rightarrow> (Inr (r, False), st1)
         | None \<Rightarrow>
             (case run_chat (en_service en) (en_request en) (pp_messages p) (pp_metadata p) (rt_tracing st) of
                (Inl e, t) \<Rightarrow> (Inl (Service_Failure e), st1\<lparr>rt_tracing := t\<rparr>)
              | (Inr r, t) \<Rightarrow> (Inr (r, cache_bypass_reason (en_config en) = None), st1\<lparr>rt_tracing := t\<rparr>)))"

record turn_result =
  tu_content :: string
  tu_provider :: provider_result
  tu_cache_write :: "chat_result option"

text \<open>
  The outcome, the provider result the metrics row will carry (set before the commit) and the state
  after commit or rollback.
\<close>

definition turn_transaction ::
    "'r chat_env \<Rightarrow> chat_request \<Rightarrow> prepared \<Rightarrow> 'r route_state
     \<Rightarrow> (route_exn, turn_result) result \<times> provider_result option \<times> 'r route_state" where
  "turn_transaction en q p st =
     (let s0 = rt_store st; cid = conversation_of en q; fl = en_faults en; ids = en_ids en in
      case open_conversation fl (cq_conversation q) cid (en_tenant en) s0 of
        Inl e \<Rightarrow> (Inl e, None, st)
      | Inr s1 \<Rightarrow>
          (let s2 = add_message (ti_user ids) cid (en_tenant en) User (cq_message q) s1 in
           case flushed (df_user fl) s2 of
             Inl e \<Rightarrow> (Inl e, None, st\<lparr>rt_store := rolled_back s0 s2\<rparr>)
           | Inr _ \<Rightarrow>
               (case obtain_answer en p st of
                  (Inl e, st1) \<Rightarrow> (Inl e, None, st1\<lparr>rt_store := rolled_back s0 s2\<rparr>)
                | (Inr (res, write), st1) \<Rightarrow>
                    (let content = py_truncate (cm_content (ct_assistant res)) (cc_max_assistant_chars (en_config en));
                         pr = ct_provider res;
                         s3 = add_message (ti_assistant ids) cid (en_tenant en) Assistant content s2
                     in case flushed (df_assistant fl) s3 of
                          Inl e \<Rightarrow> (Inl e, None, st1\<lparr>rt_store := rolled_back s0 s3\<rparr>)
                        | Inr _ \<Rightarrow>
                            (let s4 = (if df_usage_refused fl then s3 else add_usage (turn_usage en pr) s3)
                             in case flushed (df_commit fl) s4 of
                                  Inl e \<Rightarrow> (Inl e, Some pr, st1\<lparr>rt_store := rolled_back s0 s4\<rparr>)
                                | Inr s \<Rightarrow> (Inr \<lparr>tu_content = content, tu_provider = pr,
                                      tu_cache_write = (if write then Some res else None)\<rparr>,
                                    Some pr, st1\<lparr>rt_store := s\<rparr>))))))"

section \<open>The reply\<close>

record chat_response =
  rs_request :: uuid
  rs_conversation :: uuid
  rs_user_message :: "uuid option"
  rs_assistant_message :: "uuid option"
  rs_content :: "string option"
  rs_sources :: "public_source list"
  rs_success :: bool
  rs_error :: "string option"

datatype route_reply =
  Replied chat_response
| Http_404 string

definition success_reply :: "'r chat_env \<Rightarrow> chat_request \<Rightarrow> prepared \<Rightarrow> turn_result \<Rightarrow> chat_response" where
  "success_reply en q p tu = \<lparr>rs_request = en_request en, rs_conversation = conversation_of en q,
     rs_user_message = Some (ti_user (en_ids en)), rs_assistant_message = Some (ti_assistant (en_ids en)),
     rs_content = Some (tu_content tu), rs_sources = pp_sources p, rs_success = True, rs_error = None\<rparr>"

definition error_reply :: "'r chat_env \<Rightarrow> chat_request \<Rightarrow> string \<Rightarrow> chat_response" where
  "error_reply en q message = \<lparr>rs_request = en_request en, rs_conversation = conversation_of en q,
     rs_user_message = None, rs_assistant_message = None, rs_content = None, rs_sources = [],
     rs_success = False, rs_error = Some message\<rparr>"

text \<open>The text a failure shows to the caller, the text its usage row keeps and its outcome.\<close>

definition failure_texts :: "int \<Rightarrow> route_exn \<Rightarrow> string \<times> string \<times> string" where
  "failure_texts max_chars e = (case e of
     Service_Failure (Chat_Timeout m) \<Rightarrow>
       (sanitize_error_message m max_chars, sanitize_error_message m max_chars, ''timeout'')
   | Service_Failure (Chat_Execution m) \<Rightarrow>
       (sanitize_error_message m max_chars, sanitize_error_message m max_chars, ''error'')
   | Service_Failure (Chat_Other x) \<Rightarrow>
       (sanitize_error_message ''internal error'' max_chars, sanitize_error_message (exn_text x) max_chars, ''error'')
   | Db_Failure x \<Rightarrow>
       (sanitize_error_message ''internal error'' max_chars, sanitize_error_message (exn_text x) max_chars, ''error'')
   | Conversation_Not_Found \<Rightarrow> ([], [], ''not_found''))"

definition commit_error_usage :: "'r chat_env \<Rightarrow> string \<Rightarrow> 'r route_state \<Rightarrow> 'r route_state" where
  "commit_error_usage en message st = (case df_error_commit (en_faults en) of
     Some _ \<Rightarrow> st
   | None \<Rightarrow> st\<lparr>rt_store := add_usage (error_usage en message) (rt_store st)\<rparr>)"

definition store_in_cache :: "'r chat_env \<Rightarrow> prepared \<Rightarrow> turn_result \<Rightarrow> 'r route_state \<Rightarrow> 'r route_state" where
  "store_in_cache en p tu st = (case tu_cache_write tu of
     None \<Rightarrow> st
   | Some res \<Rightarrow>
       (case cache_set (en_cache en) (rt_redis st) (pp_messages p) res (en_tenant en) (rt_cache_log st) of
          (r, logs) \<Rightarrow> st\<lparr>rt_redis := r, rt_cache_log := logs\<rparr>))"

definition chat_turn ::
    "'r chat_env \<Rightarrow> chat_request \<Rightarrow> rag_context \<Rightarrow> memory_context \<Rightarrow> 'r route_state
     \<Rightarrow> route_reply \<times> 'r route_state" where
  "chat_turn en q rag memory st =
     (let p = prepare_turn (en_config en) q rag memory (en_collector en) in
      case turn_transaction en q p st of
        (Inr tu, pr, st1) \<Rightarrow>
          (Replied (success_reply en q p tu),
           write_metrics en (pp_collector p) ''ok'' pr (pp_memory p) (store_in_cache en p tu st1))
      | (Inl Conversation_Not_Found, pr, st1) \<Rightarrow>
          (Http_404 ''conversation_id not found'',
           write_metrics en (pp_collector p) ''not_found'' pr (pp_memory p) st1)
      | (Inl e, pr, st1) \<Rightarrow>
          (case failure_texts (cc_max_error_chars (en_config en)) e of
             (shown, kept, outcome) \<Rightarrow>
               (Replied (error_reply en q shown),
                write_metrics en (pp_collector p) outcome pr (pp_memory p) (commit_error_usage en kept st1))))"

section \<open>What commits and what is undone\<close>

text \<open>\<open>same_rows\<close>: nothing that a query can see differs.\<close>

definition same_rows :: "store \<Rightarrow> store \<Rightarrow> bool" where
  "same_rows s s' = (st_conversations s' = st_conversations s \<and> st_messages s' = st_messages s
     \<and> st_usage s' = st_usage s \<and> st_next_sequence s \<le> st_next_sequence s')"

definition turn_rows :: "'r chat_env \<Rightarrow> chat_request \<Rightarrow> string \<Rightarrow> int \<Rightarrow> message_row list" where
  "turn_rows en q content n = [
     \<lparr>mr_id = ti_user (en_ids en), mr_sequence = n, mr_conversation = conversation_of en q,
      mr_tenant = en_tenant en, mr_role = User, mr_content = cq_message q\<rparr>,
     \<lparr>mr_id = ti_assistant (en_ids en), mr_sequence = n + 1, mr_conversation = conversation_of en q,
      mr_tenant = en_tenant en, mr_role = Assistant, mr_content = content\<rparr>]"

definition new_conversation :: "'r chat_env \<Rightarrow> chat_request \<Rightarrow> conversation_row list" where
  "new_conversation en q = (if cq_conversation q = None
     then [\<lparr>cv_id = conversation_of en q, cv_tenant = en_tenant en\<rparr>] else [])"

text \<open>
  \<open>turn_committed\<close>: the store gained one complete turn, in a conversation of the tenant, and at most
  the usage rows \<open>us\<close>.
\<close>

definition turn_committed ::
    "'r chat_env \<Rightarrow> chat_request \<Rightarrow> string \<Rightarrow> usage_row list \<Rightarrow> store \<Rightarrow> store \<Rightarrow> bool" where
  "turn_committed en q content us s s' =
     (st_messages s' = st_messages s @ turn_rows en q content (st_next_sequence s)
      \<and> st_next_sequence s' = st_next_sequence s + 2
      \<and> st_conversations s' = st_conversations s @ new_conversation en q
      \<and> (cq_conversation q = None \<or> get_conversation s (conversation_of en q) (en_tenant en) \<noteq> None)
      \<and> (st_usage s' = st_usage s \<or> st_usage s' = st_usage s @ us))"

lemma same_rows_refl [simp]: "same_rows s s"
  by (simp add: same_rows_def)

lemma flushed_Inr [simp]: "flushed f s = Inr s' \<longleftrightarrow> f = None \<and> s' = s"
  by (auto simp: flushed_def split: option.splits)

lemma flushed_Inl [simp]: "flushed f s = Inl e \<longleftrightarrow> (\<exists>x. f = Some x \<and> e = Db_Failure x)"
  by (auto simp: flushed_def split: option.splits)

lemma open_conversation_InrD:
  "open_conversation fl req cid tenant s = Inr s1 \<Longrightarrow>
    st_messages s1 = st_messages s \<and> st_usage s1 = st_usage s \<and> st_next_sequence s1 = st_next_sequence s
    \<and> st_conversations s1 = st_conversations s @ (if req = None then [\<lparr>cv_id = cid, cv_tenant = tenant\<rparr>] else [])
    \<and> (req = None \<or> get_conversation s cid tenant \<noteq> None)"
  by (auto simp: open_conversation_def split: if_splits)

lemma rolled_back_add [simp]:
  "same_rows s (rolled_back s (add_message m c t r x s1)) \<longleftrightarrow> st_next_sequence s \<le> st_next_sequence s1 + 1"
  "same_rows s (rolled_back s (add_usage u s1)) \<longleftrightarrow> st_next_sequence s \<le> st_next_sequence s1"
  by (auto simp: same_rows_def rolled_back_def add_message_def add_usage_def)

lemma next_sequence_add [simp]:
  "st_next_sequence (add_message m c t r x s) = st_next_sequence s + 1"
  "st_next_sequence (add_usage u s) = st_next_sequence s"
  by (simp_all add: add_message_def add_usage_def)

text \<open>What the generation leaves alone.\<close>

lemma obtain_answer_frame [frame_simps]:
  "rt_store (snd (obtain_answer en p st)) = rt_store st"
  "rt_redis (snd (obtain_answer en p st)) = rt_redis st"
  "rt_metrics (snd (obtain_answer en p st)) = rt_metrics st"
  by (auto simp: obtain_answer_def Let_def split: option.splits sum.splits prod.splits)

lemma obtain_answer_frameD:
  assumes "obtain_answer en p st = (r, st1)"
  shows "rt_store st1 = rt_store st" "rt_redis st1 = rt_redis st" "rt_metrics st1 = rt_metrics st"
  using obtain_answer_frame [of en p st] assms by simp_all

lemma turn_transaction_rolls_back:
  assumes "turn_transaction en q p st = (Inl e, pr, st1)"
  shows "same_rows (rt_store st) (rt_store st1) \<and> rt_redis st1 = rt_redis st \<and> rt_metrics st1 = rt_metrics st"
proof (cases "open_conversation (en_faults en) (cq_conversation q) (conversation_of en q) (en_tenant en) (rt_store st)")
  case (Inl e')
  with assms show ?thesis by (simp add: turn_transaction_def Let_def)
next
  case (Inr s1)
  note opened = open_conversation_InrD [OF Inr]
  obtain r st2 where got: "obtain_answer en p st = (r, st2)" by (cases "obtain_answer en p st")
  from assms Inr got show ?thesis
    using opened obtain_answer_frameD [OF got]
    by (auto simp: turn_transaction_def Let_def flushed_def split: option.splits sum.splits prod.splits if_splits)
qed

lemma turn_transaction_commits:
  assumes "turn_transaction en q p st = (Inr tu, pr, st1)"
  shows "turn_committed en q (tu_content tu) [turn_usage en (tu_provider tu)] (rt_store st) (rt_store st1)
    \<and> rt_redis st1 = rt_redis st \<and> rt_metrics st1 = rt_metrics st \<and> pr = Some (tu_provider tu)
    \<and> (\<exists>x. tu_content tu = py_truncate x (cc_max_assistant_chars (en_config en)))"
proof (cases "open_conversation (en_faults en) (cq_conversation q) (conversation_of en q) (en_tenant en) (rt_store st)")
  case (Inl e')
  with assms show ?thesis by (simp add: turn_transaction_def Let_def)
next
  case (Inr s1)
  note opened = open_conversation_InrD [OF Inr]
  obtain r st2 where got: "obtain_answer en p st = (r, st2)" by (cases "obtain_answer en p st")
  from assms Inr got show ?thesis
    using opened obtain_answer_frameD [OF got]
    by (auto simp: turn_transaction_def Let_def flushed_def turn_committed_def turn_rows_def new_conversation_def
        add_message_def add_usage_def split: option.splits sum.splits prod.splits if_splits)
qed

lemma write_metrics_frame [simp, frame_simps]:
  "rt_store (write_metrics en c o' pr m st) = rt_store st" "rt_redis (write_metrics en c o' pr m st) = rt_redis st"
  "rt_tracing (write_metrics en c o' pr m st) = rt_tracing st" "rt_cache_log (write_metrics en c o' pr m st) = rt_cache_log st"
  by (simp_all add: write_metrics_def)

lemma store_in_cache_frame [simp, frame_simps]:
  "rt_store (store_in_cache en p tu st) = rt_store st" "rt_metrics (store_in_cache en p tu st) = rt_metrics st"
  by (simp_all add: store_in_cache_def split: option.split prod.split)

lemma chat_turn_success:
  assumes "turn_transaction en q (prepare_turn (en_config en) q rag memory (en_collector en)) st = (Inr tu, pr, st1)"
  shows "chat_turn en q rag memory st =
    (let p = prepare_turn (en_config en) q rag memory (en_collector en) in
     (Replied (success_reply en q p tu), write_metrics en (pp_collector p) ''ok'' pr (pp_memory p) (store_in_cache en p tu st1)))"
  using assms by (simp add: chat_turn_def Let_def)

lemma chat_turn_failure:
  assumes "turn_transaction en q (prepare_turn (en_config en) q rag memory (en_collector en)) st = (Inl e, pr, st1)"
    and "e \<noteq> Conversation_Not_Found" "failure_texts (cc_max_error_chars (en_config en)) e = (shown, kept, out)"
  shows "chat_turn en q rag memory st =
    (let p = prepare_turn (en_config en) q rag memory (en_collector en) in
     (Replied (error_reply en q shown), write_metrics en (pp_collector p) out pr (pp_memory p) (commit_error_usage en kept st1)))"
  using assms by (cases e) (simp_all add: chat_turn_def Let_def)

lemma commit_error_usage_rows:
  assumes "same_rows s (rt_store st)"
  shows "st_messages (rt_store (commit_error_usage en m st)) = st_messages s
    \<and> st_conversations (rt_store (commit_error_usage en m st)) = st_conversations s
    \<and> st_usage (rt_store (commit_error_usage en m st))
        = st_usage s @ (if df_error_commit (en_faults en) = None then [error_usage en m] else [])
    \<and> st_next_sequence s \<le> st_next_sequence (rt_store (commit_error_usage en m st))"
  using assms by (auto simp: commit_error_usage_def same_rows_def add_usage_def split: option.split)

section \<open>Outcomes of a turn\<close>

text \<open>The three ways a turn can end, by the reply.\<close>

lemma chat_turn_cases:
  assumes "chat_turn en q rag memory st = (reply, st')"
  obtains (committed) tu p where "reply = Replied (success_reply en q p tu)"
      "turn_committed en q (tu_content tu) [turn_usage en (tu_provider tu)] (rt_store st) (rt_store st')"
      "\<exists>x. tu_content tu = py_truncate x (cc_max_assistant_chars (en_config en))"
  | (failed) e shown kept out where "reply = Replied (error_reply en q shown)" "e \<noteq> Conversation_Not_Found"
      "failure_texts (cc_max_error_chars (en_config en)) e = (shown, kept, out)"
      "st_messages (rt_store st') = st_messages (rt_store st)"
      "st_conversations (rt_store st') = st_conversations (rt_store st)"
      "st_next_sequence (rt_store st) \<le> st_next_sequence (rt_store st')"
      "st_usage (rt_store st') = st_usage (rt_store st)
         @ (if df_error_commit (en_faults en) = None then [error_usage en kept] else [])"
  | (not_found) "reply = Http_404 ''conversation_id not found''" "same_rows (rt_store st) (rt_store st')"
proof -
  let ?p = "prepare_turn (en_config en) q rag memory (en_collector en)"
  obtain r pr st1 where run: "turn_transaction en q ?p st = (r, pr, st1)" by (cases "turn_transaction en q ?p st")
  show thesis
  proof (cases r)
    case (Inr tu)
    with run have tt: "turn_transaction en q ?p st = (Inr tu, pr, st1)" by simp
    from chat_turn_success [OF tt] turn_transaction_commits [OF tt] assms show thesis
      by (intro committed [of ?p tu]) (auto simp: Let_def)
  next
    case (Inl e)
    with run have tt: "turn_transaction en q ?p st = (Inl e, pr, st1)" by simp
    note undone = turn_transaction_rolls_back [OF tt]
    show thesis
    proof (cases "e = Conversation_Not_Found")
      case True
      with tt assms undone show thesis by (intro not_found) (auto simp: chat_turn_def Let_def)
    next
      case False
      obtain shown kept out where texts: "failure_texts (cc_max_error_chars (en_config en)) e = (shown, kept, out)"
        by (cases "failure_texts (cc_max_error_chars (en_config en)) e")
      from chat_turn_failure [OF tt False texts] assms commit_error_usage_rows [of "rt_store st" st1 en kept] undone False texts
      show thesis by (intro failed [of shown e kept out]) (auto simp: Let_def)
    qed
  qed
qed

section \<open>The cache under added context\<close>

lemma obtain_answer_bypass:
  assumes "cache_bypass_reason (en_config en) \<noteq> None" "obtain_answer en p st = (x, s)"
  shows "obtain_answer en p (st\<lparr>rt_redis := r\<rparr>) = (x, s\<lparr>rt_redis := r\<rparr>)" "x = Inr (res, w) \<Longrightarrow> \<not> w"
  using assms by (auto simp: obtain_answer_def Let_def split: option.splits sum.splits prod.splits)

lemma turn_transaction_bypass:
  assumes bypass: "cache_bypass_reason (en_config en) \<noteq> None" and run: "turn_transaction en q p st = (x, pr, s)"
  shows "turn_transaction en q p (st\<lparr>rt_redis := r\<rparr>) = (x, pr, s\<lparr>rt_redis := r\<rparr>)
    \<and> (\<forall>tu. x = Inr tu \<longrightarrow> tu_cache_write tu = None)"
proof (cases "open_conversation (en_faults en) (cq_conversation q) (conversation_of en q) (en_tenant en) (rt_store st)")
  case (Inl e)
  with run show ?thesis by (auto simp: turn_transaction_def Let_def)
next
  case (Inr s1)
  obtain y st2 where got: "obtain_answer en p st = (y, st2)" by (cases "obtain_answer en p st")
  note same = obtain_answer_bypass [OF bypass got]
  from run Inr got same show ?thesis
    by (auto simp: turn_transaction_def Let_def flushed_def split: option.splits sum.splits prod.splits if_splits)
qed

lemma write_metrics_redis [simp]:
  "write_metrics en c o' pr m (st\<lparr>rt_redis := r\<rparr>) = (write_metrics en c o' pr m st)\<lparr>rt_redis := r\<rparr>"
  by (simp add: write_metrics_def)

lemma commit_error_usage_redis [simp]:
  "commit_error_usage en m (st\<lparr>rt_redis := r\<rparr>) = (commit_error_usage en m st)\<lparr>rt_redis := r\<rparr>"
  by (simp add: commit_error_usage_def split: option.split)

lemma chat_turn_bypass:
  assumes bypass: "cache_bypass_reason (en_config en) \<noteq> None" and run: "chat_turn en q rag memory st = (reply, st')"
  shows "chat_turn en q rag memory (st\<lparr>rt_redis := r\<rparr>) = (reply, st'\<lparr>rt_redis := r\<rparr>)"
proof -
  let ?p = "prepare_turn (en_config en) q rag memory (en_collector en)"
  obtain x pr s where tt: "turn_transaction en q ?p st = (x, pr, s)" by (cases "turn_transaction en q ?p st")
  note same = turn_transaction_bypass [OF bypass tt, of r]
  show ?thesis
  proof (cases x)
    case (Inr tu)
    with same have none: "tu_cache_write tu = None" by blast
    with Inr tt same run show ?thesis by (auto simp: chat_turn_def Let_def store_in_cache_def)
  next
    case (Inl e)
    with tt same run show ?thesis
      by (cases e) (auto simp: chat_turn_def Let_def split: prod.splits)
  qed
qed

section \<open>Properties\<close>

text \<open>C18: a turn is all or nothing. A success reply means that the transaction committed the user's
  message and the answer, truncated as replied, next to each other under the tenant, in a conversation of
  the tenant (the new one, if none was named), with at most one usage row that names the answer; every
  other reply means that conversations and messages are exactly what they were and at most one usage row
  with the sanitized, bounded error text was added, none after a 404.\<close>

theorem chat_turn_is_atomic:
  assumes "chat_turn en q rag memory st = (reply, st')"
    and "0 \<le> cc_max_error_chars (en_config en)" "0 \<le> cc_max_assistant_chars (en_config en)"
  shows "case reply of
      Replied r \<Rightarrow>
        (if rs_success r
         then (\<exists>content pr. turn_committed en q content [turn_usage en pr] (rt_store st) (rt_store st')
                \<and> rs_content r = Some content \<and> rs_error r = None
                \<and> rs_user_message r = Some (ti_user (en_ids en)) \<and> rs_assistant_message r = Some (ti_assistant (en_ids en))
                \<and> ilen content \<le> cc_max_assistant_chars (en_config en))
         else st_messages (rt_store st') = st_messages (rt_store st)
           \<and> st_conversations (rt_store st') = st_conversations (rt_store st)
           \<and> rs_user_message r = None \<and> rs_assistant_message r = None \<and> rs_content r = None
           \<and> (\<exists>shown kept. rs_error r = Some shown \<and> ilen shown \<le> cc_max_error_chars (en_config en)
                \<and> ilen kept \<le> cc_max_error_chars (en_config en)
                \<and> (st_usage (rt_store st') = st_usage (rt_store st)
                   \<or> st_usage (rt_store st') = st_usage (rt_store st) @ [error_usage en kept])))
    | Http_404 _ \<Rightarrow> same_rows (rt_store st) (rt_store st')"
  using assms(1)
proof (cases rule: chat_turn_cases)
  case (committed tu p)
  moreover have "ilen (tu_content tu) \<le> cc_max_assistant_chars (en_config en)"
    using committed(3) ilen_py_truncate [OF assms(3)] by auto
  ultimately show ?thesis by (auto simp: success_reply_def)
next
  case (failed e shown kept out)
  have "ilen shown \<le> cc_max_error_chars (en_config en) \<and> ilen kept \<le> cc_max_error_chars (en_config en)"
    using failed(2,3) sanitize_error_message_bound [OF assms(2)]
    by (cases e) (auto simp: failure_texts_def split: chat_exn.splits)
  with failed show ?thesis by (auto simp: error_reply_def)
next
  case not_found
  then show ?thesis by simp
qed

text \<open>C19: while documental augmentation or retrieved memory is on, the answer cache plays no part in a turn:
  whatever it holds, the reply and every other effect are the same and its contents stay what they were,
  since its key knows nothing of the added context.\<close>

theorem added_context_bypasses_cache:
  assumes "cc_rag_augmentation (en_config en) \<or> cc_ebm25 (en_config en)"
    and "chat_turn en q rag memory st = (reply, st')"
  shows "rt_redis st' = rt_redis st
    \<and> chat_turn en q rag memory (st\<lparr>rt_redis := r\<rparr>) = (reply, st'\<lparr>rt_redis := r\<rparr>)"
proof -
  have bypass: "cache_bypass_reason (en_config en) \<noteq> None" using assms(1) by (auto simp: cache_bypass_reason_def)
  have "chat_turn en q rag memory (st\<lparr>rt_redis := rt_redis st\<rparr>) = (reply, st'\<lparr>rt_redis := rt_redis st\<rparr>)"
    by (rule chat_turn_bypass [OF bypass assms(2)])
  with assms(2) have "st' = st'\<lparr>rt_redis := rt_redis st\<rparr>" by simp
  then have "rt_redis st' = rt_redis st" by (metis route_state.select_convs(2) route_state.surjective route_state.update_convs(2))
  with chat_turn_bypass [OF bypass assms(2)] show ?thesis by blast
qed


section \<open>Witnesses\<close>

definition no_faults :: db_faults where
  "no_faults = \<lparr>df_conversation = None, df_user = None, df_assistant = None, df_usage_refused = False,
     df_commit = None, df_error_commit = None\<rparr>"

definition example_chat_config :: chat_config where
  "example_chat_config = \<lparr>cc_rag_augmentation = True, cc_ebm25 = False, cc_history = True, cc_max_added_chars = 1000,
     cc_max_assistant_chars = 4000, cc_max_error_chars = 300, cc_metrics = True, cc_provider = ''stub''\<rparr>"

definition example_env :: "(string \<Rightarrow> string option) chat_env" where
  "example_env = \<lparr>en_config = example_chat_config, en_cache = example_cache, en_service = example_service,
     en_faults = no_faults, en_ids = \<lparr>ti_conversation = 50, ti_user = 51, ti_assistant = 52\<rparr>, en_request = 7,
     en_tenant = ''acme'', en_latency = 5, en_total_latency = 9, en_provider_attrs = (None, None),
     en_collector = None, en_has_request = True, en_released = True, en_metrics_fails = False\<rparr>"

definition example_state :: "(string \<Rightarrow> string option) route_state" where
  "example_state = \<lparr>rt_store = example_store, rt_redis = Map.empty, rt_cache_log = [], rt_metrics = [], rt_tracing = quiet\<rparr>"

definition example_question :: chat_request where
  "example_question = \<lparr>cq_stream = False, cq_conversation = Some 1, cq_message = ''hi again''\<rparr>"

lemma example_conversations: "get_conversation example_store 1 ''acme'' = Some \<lparr>cv_id = 1, cv_tenant = ''acme''\<rparr>"
  "get_conversation example_store 2 ''acme'' = None"
  by (simp_all add: example_store_def get_conversation_def)

lemma example_env_simps [simp]:
  "en_config example_env = example_chat_config" "en_service example_env = example_service"
  "en_faults example_env = no_faults" "en_tenant example_env = ''acme''" "en_collector example_env = None"
  "cq_conversation example_question = Some 1" "rt_store example_state = example_store"
  "cache_bypass_reason example_chat_config = Some ''rag_augmentation''"
  by (simp_all add: example_env_def example_question_def example_state_def cache_bypass_reason_def example_chat_config_def)

lemma example_service_answers: "\<exists>r t'. run_chat example_service rid ms metadata t = (Inr r, t')"
proof -
  have "\<exists>r. fst (run_chat example_service rid ms metadata t) = Inr r"
    by (simp add: fst_run_chat example_service_def provider_outcome_def stub_port_def stub_generate_def Let_def)
  then show ?thesis by (metis prod.collapse)
qed

lemma example_turn_succeeds:
  "\<exists>r st'. chat_turn example_env example_question no_rag no_memory example_state = (Replied r, st') \<and> rs_success r"
proof -
  let ?p = "prepare_turn example_chat_config example_question no_rag no_memory None"
  have "\<exists>r w st1. obtain_answer example_env ?p example_state = (Inr (r, w), st1)"
    using example_service_answers [of "en_request example_env" "pp_messages ?p" "pp_metadata ?p" "rt_tracing example_state"]
    by (auto simp: obtain_answer_def)
  then obtain r w st1 where "obtain_answer example_env ?p example_state = (Inr (r, w), st1)" by blast
  then have "\<exists>tu pr s. turn_transaction example_env example_question ?p example_state = (Inr tu, pr, s)"
    by (simp add: turn_transaction_def Let_def conversation_of_def open_conversation_def example_conversations(1) [unfolded One_nat_def]
        no_faults_def flushed_def)
  then obtain tu pr s where "turn_transaction example_env example_question ?p example_state = (Inr tu, pr, s)" by blast
  with chat_turn_success [of example_env example_question no_rag no_memory example_state tu pr s]
  show ?thesis by (simp add: Let_def success_reply_def)
qed

theorem chat_turn_is_atomic_witness:
  "\<exists>r st' content pr. chat_turn example_env example_question no_rag no_memory example_state = (Replied r, st')
    \<and> turn_committed example_env example_question content [turn_usage example_env pr] example_store (rt_store st')
    \<and> rs_content r = Some content"
proof -
  obtain r st' where run: "chat_turn example_env example_question no_rag no_memory example_state = (Replied r, st')"
    and ok: "rs_success r" using example_turn_succeeds by blast
  have "rt_store example_state = example_store" by (simp add: example_state_def)
  with chat_turn_is_atomic [OF run] ok run show ?thesis
    by (fastforce simp: example_env_def example_chat_config_def)
qed

theorem added_context_bypasses_cache_witness:
  "\<exists>reply st'. chat_turn example_env example_question no_rag no_memory example_state = (reply, st')
    \<and> chat_turn example_env example_question no_rag no_memory (example_state\<lparr>rt_redis := \<lambda>k. Some ''{}''\<rparr>)
        = (reply, st'\<lparr>rt_redis := \<lambda>k. Some ''{}''\<rparr>)"
proof -
  obtain reply st' where run: "chat_turn example_env example_question no_rag no_memory example_state = (reply, st')"
    by (cases "chat_turn example_env example_question no_rag no_memory example_state")
  have "cc_rag_augmentation (en_config example_env) \<or> cc_ebm25 (en_config example_env)"
    by (simp add: example_env_def example_chat_config_def)
  from added_context_bypasses_cache [OF this run] run show ?thesis by blast
qed


end
