(* ===== verification/Chat_Stream.thy ===== *)
theory Chat_Stream imports Chat_Turn begin

text \<open>
  The streaming half of \<open>POST /chat\<close> (\<open>app/api/routes/chat.py\<close>): server-sent event frames, the
  generator that yields the provider's chunks and persists the turn only after the last one, its
  error frames, and a client that disconnects while the generator is suspended at a frame. A frame
  is an event name with its payload; \<open>sse\<close> is its text. \<open>sse_events\<close> is the reader that the
  event-stream format prescribes, the specification of what a client reconstructs.
\<close>

section \<open>Frames\<close>

definition data_line :: "string \<Rightarrow> string" where
  "data_line line = ''data: '' @ line"

definition event_line :: "string \<Rightarrow> string" where
  "event_line event = ''event: '' @ event"

definition sse :: "string \<Rightarrow> string \<Rightarrow> string" where
  "sse event data = event_line event @ nl
     @ py_join nl (map data_line (py_split (CHR 0x0A) data)) @ nl @ nl"

definition sse_json :: "string \<Rightarrow> json \<Rightarrow> string" where
  "sse_json event payload = sse event (json_dumps True payload)"

type_synonym frame = "string \<times> string"

definition json_frame :: "string \<Rightarrow> json \<Rightarrow> frame" where
  "json_frame event payload = (event, json_dumps True payload)"

definition frame_text :: "frame \<Rightarrow> string" where
  "frame_text f = sse (fst f) (snd f)"

lemma frame_text_json: "frame_text (json_frame event payload) = sse_json event payload"
  by (simp add: frame_text_def json_frame_def sse_json_def)

section \<open>The reader of an event stream\<close>

text \<open>A line ends at a line feed, a carriage return, or the two together; an unfinished line is dropped.\<close>

fun es_lines :: "string \<Rightarrow> string \<Rightarrow> string list" where
  "es_lines acc [] = []"
| "es_lines acc (c # cs) =
     (if c = CHR 0x0A then rev acc # es_lines [] cs
      else if c = CHR 0x0D then rev acc # es_lines [] (if take 1 cs = [CHR 0x0A] then tl cs else cs)
      else es_lines (c # acc) cs)"

definition strip_space :: "string \<Rightarrow> string" where
  "strip_space s = (case s of c # cs \<Rightarrow> if c = CHR '' '' then cs else s | [] \<Rightarrow> [])"

definition es_field :: "string \<Rightarrow> string \<times> string" where
  "es_field line = (let name = takeWhile (\<lambda>c. c \<noteq> CHR '':'') line in
     (name, if name = line then [] else strip_space (drop (length name + 1) line)))"

text \<open>The pending event name and data lines; a blank line dispatches unless there was no data.\<close>

fun es_dispatch :: "string \<Rightarrow> string list \<Rightarrow> string list \<Rightarrow> frame list" where
  "es_dispatch ev ds [] = []"
| "es_dispatch ev ds (l # ls) =
     (if l = [] then (if ds = [] then [] else [(if ev = [] then ''message'' else ev, py_join nl ds)]) @ es_dispatch [] [] ls
      else (case es_field l of (name, value) \<Rightarrow>
        if name = ''data'' then es_dispatch ev (ds @ [value]) ls
        else if name = ''event'' then es_dispatch value ds ls
        else es_dispatch ev ds ls))"

definition sse_events :: "string \<Rightarrow> frame list" where
  "sse_events text = es_dispatch [] [] (es_lines [] text)"

section \<open>The persisted part\<close>

definition stream_usage :: "'r chat_env \<Rightarrow> provider_result option \<Rightarrow> usage_row" where
  "stream_usage en pr = \<lparr>ue_request = en_request en,
     ue_provider = (case pr of Some p \<Rightarrow> pr_provider p | None \<Rightarrow> ''unknown''),
     ue_model_version = (case pr of Some p \<Rightarrow> pr_model_version p | None \<Rightarrow> ''unknown''),
     ue_prompt_version = (case pr of Some p \<Rightarrow> pr_prompt_version p | None \<Rightarrow> ''unknown''),
     ue_status = Some ''success'', ue_error_message = None, ue_conversation = None,
     ue_message = Some (ti_assistant (en_ids en)),
     ue_input_tokens = (case pr of Some p \<Rightarrow> pr_input_tokens p | None \<Rightarrow> None),
     ue_output_tokens = (case pr of Some p \<Rightarrow> pr_output_tokens p | None \<Rightarrow> None),
     ue_total_tokens = (case pr of Some p \<Rightarrow> pr_total_tokens p | None \<Rightarrow> None),
     ue_latency_ms = Some (case pr of
        Some p \<Rightarrow> (case pr_latency_ms p of Some l \<Rightarrow> l | None \<Rightarrow> max 0 (en_latency en))
      | None \<Rightarrow> max 0 (en_latency en))\<rparr>"

text \<open>The single transaction after the stream: its outcome, the metrics provider and the store.\<close>

definition stream_transaction ::
    "'r chat_env \<Rightarrow> chat_request \<Rightarrow> string \<Rightarrow> provider_result option \<Rightarrow> store
     \<Rightarrow> (route_exn, unit) result \<times> provider_result option \<times> store" where
  "stream_transaction en q content pr s0 =
     (let cid = conversation_of en q; fl = en_faults en; ids = en_ids en in
      case open_conversation fl (cq_conversation q) cid (en_tenant en) s0 of
        Inl e \<Rightarrow> (Inl e, None, s0)
      | Inr s1 \<Rightarrow>
          (let s2 = add_message (ti_user ids) cid (en_tenant en) User (cq_message q) s1 in
           case flushed (df_user fl) s2 of
             Inl e \<Rightarrow> (Inl e, None, rolled_back s0 s2)
           | Inr _ \<Rightarrow>
               (let s3 = add_message (ti_assistant ids) cid (en_tenant en) Assistant content s2 in
                case flushed (df_assistant fl) s3 of
                  Inl e \<Rightarrow> (Inl e, None, rolled_back s0 s3)
                | Inr _ \<Rightarrow>
                    (let s4 = (if df_usage_refused fl then s3 else add_usage (stream_usage en pr) s3)
                     in case flushed (df_commit fl) s4 of
                          Inl e \<Rightarrow> (Inl e, pr, rolled_back s0 s4)
                        | Inr s \<Rightarrow> (Inr (), pr, s)))))"

section \<open>The generator\<close>

definition source_json :: "public_source \<Rightarrow> json" where
  "source_json s = JObj [(''citation'', JStr (ps_citation s)), (''document_id'', JStr (uuid_str (ps_document s))),
     (''chunk_id'', JStr (uuid_str (ps_chunk s))), (''rank'', JInt (ps_rank s))]"

definition done_frame :: "'r chat_env \<Rightarrow> chat_request \<Rightarrow> prepared \<Rightarrow> frame" where
  "done_frame en q p = json_frame ''done'' (JObj [
     (''request_id'', JStr (uuid_str (en_request en))),
     (''conversation_id'', JStr (uuid_str (conversation_of en q))),
     (''user_message_id'', JStr (uuid_str (ti_user (en_ids en)))),
     (''assistant_message_id'', JStr (uuid_str (ti_assistant (en_ids en)))),
     (''status'', JStr ''success''),
     (''sources'', JArr (map source_json (pp_sources p)))])"

definition not_found_frame :: frame where
  "not_found_frame = json_frame ''error'' (JObj [(''error_kind'', JStr ''not_found'')])"

definition internal_frame :: frame where
  "internal_frame = json_frame ''error'' (JObj [(''error_kind'', JStr ''internal'')])"

definition failure_frame :: "exn \<Rightarrow> frame" where
  "failure_frame e = (case e of
     Provider_Error p \<Rightarrow> json_frame ''error'' (JObj [
       (''error_kind'', JStr (kind_value (pe_kind p))), (''retryable'', JBool (pe_retryable p))])
   | _ \<Rightarrow> internal_frame)"

definition service_failure_frame :: "chat_exn \<Rightarrow> frame" where
  "service_failure_frame e = (case e of Chat_Other x \<Rightarrow> failure_frame x | _ \<Rightarrow> internal_frame)"

definition token_frames :: "string list \<Rightarrow> frame list" where
  "token_frames chunks = map (\<lambda>c. (''token'', c)) chunks"

text \<open>
  What follows a fully consumed stream: the last frame, the outcome and provider of the metrics row
  and the store.
\<close>

definition persist_stream ::
    "'r chat_env \<Rightarrow> chat_request \<Rightarrow> prepared \<Rightarrow> (exn, stream_chat_result) result \<Rightarrow> store
     \<Rightarrow> frame \<times> string \<times> provider_result option \<times> store" where
  "persist_stream en q p fin s = (case fin of
     Inl e \<Rightarrow> (failure_frame e, ''error'', None, s)
   | Inr r \<Rightarrow>
       (let content = py_truncate (cm_content (sc_assistant r)) (cc_max_assistant_chars (en_config en));
            pr = map_option psr_provider_result (sc_provider r)
        in case stream_transaction en q content pr s of
             (Inl Conversation_Not_Found, mp, s') \<Rightarrow> (not_found_frame, ''not_found'', mp, s')
           | (Inl (Db_Failure e), mp, s') \<Rightarrow> (failure_frame e, ''error'', mp, s')
           | (Inl (Service_Failure e), mp, s') \<Rightarrow> (service_failure_frame e, ''error'', mp, s')
           | (Inr _, mp, s') \<Rightarrow> (done_frame en q p, ''ok'', mp, s')))"

text \<open>
  \<open>gone\<close>: the number of the frame at which the client went away, counted from 0, if it did. At a
  token the generator is finalized before anything was written. At the \<open>not_found\<close> frame the
  transaction is still open, and the metrics row depends on \<open>en_released\<close>; at any other last frame
  the work is done.
\<close>

definition departed :: "nat option \<Rightarrow> nat \<Rightarrow> nat option" where
  "departed gone n = (case gone of Some k \<Rightarrow> if k < n then Some (Suc k) else None | None \<Rightarrow> None)"

definition stream_turn ::
    "'r chat_env \<Rightarrow> chat_request \<Rightarrow> rag_context \<Rightarrow> memory_context \<Rightarrow> nat option \<Rightarrow> 'r route_state
     \<Rightarrow> frame list \<times> 'r route_state" where
  "stream_turn en q rag memory gone st =
     (let p = prepare_turn (en_config en) q rag memory (en_collector en);
          fine = en\<lparr>en_released := True\<rparr>
      in case stream_chat (en_service en) (en_request en) (pp_messages p) (pp_metadata p) (rt_tracing st) of
        (Inl e, t) \<Rightarrow> ([service_failure_frame e],
            write_metrics fine (pp_collector p) ''error'' None (pp_memory p) (st\<lparr>rt_tracing := t\<rparr>))
      | (Inr (session, traced), t) \<Rightarrow>
          (let tokens = token_frames (cs_chunks session);
               left = departed gone (length (cs_chunks session));
               t1 = (case traced of None \<Rightarrow> t
                 | Some name \<Rightarrow> snd (traced_generation_stream name left (cs_chunks session) (cs_failure session) t));
               st1 = st\<lparr>rt_tracing := t1\<rparr>
           in case left of
                Some n \<Rightarrow> (take n tokens, write_metrics fine (pp_collector p) ''cancelled'' None (pp_memory p) st1)
              | None \<Rightarrow>
                  (case cs_failure session of
                     Some e \<Rightarrow> (tokens @ [failure_frame e],
                       write_metrics fine (pp_collector p) ''error'' None (pp_memory p) st1)
                   | None \<Rightarrow>
                       (case persist_stream en q p (cs_final session) (rt_store st1) of
                          (frame, outcome, mp, s') \<Rightarrow> (tokens @ [frame],
                            write_metrics (if outcome = ''not_found'' \<and> gone = Some (length tokens) then en else fine)
                              (pp_collector p) outcome mp (pp_memory p) (st1\<lparr>rt_store := s'\<rparr>))))))"

text \<open>The route: the flag of the request chooses the half, and a stream never uses the cache.\<close>

datatype chat_answer =
  Json_Answer route_reply
| Event_Stream "frame list"

definition chat_route ::
    "'r chat_env \<Rightarrow> chat_request \<Rightarrow> rag_context \<Rightarrow> memory_context \<Rightarrow> nat option \<Rightarrow> 'r route_state
     \<Rightarrow> chat_answer \<times> 'r route_state" where
  "chat_route en q rag memory gone st =
     (if cq_stream q
      then
        (let logs = log_bypass (en_cache en)
               (case cache_bypass_reason (en_config en) of Some r \<Rightarrow> r | None \<Rightarrow> ''streaming'') (rt_cache_log st)
         in case stream_turn en q rag memory gone (st\<lparr>rt_cache_log := logs\<rparr>) of (fs, st') \<Rightarrow> (Event_Stream fs, st'))
      else (case chat_turn en q rag memory st of (r, st') \<Rightarrow> (Json_Answer r, st')))"

section \<open>Frames survive the wire\<close>

definition line_clean :: "string \<Rightarrow> bool" where
  "line_clean s = (CHR 0x0A \<notin> set s \<and> CHR 0x0D \<notin> set s)"

definition frame_clean :: "frame \<Rightarrow> bool" where
  "frame_clean f = (fst f \<noteq> [] \<and> line_clean (fst f) \<and> CHR 0x0D \<notin> set (snd f))"

lemma line_clean_simps [simp]:
  "line_clean []" "line_clean (c # s) \<longleftrightarrow> c \<noteq> CHR 0x0A \<and> c \<noteq> CHR 0x0D \<and> line_clean s"
  "line_clean (s @ r) \<longleftrightarrow> line_clean s \<and> line_clean r"
  by (auto simp: line_clean_def)

lemma es_lines_line: "line_clean l \<Longrightarrow> es_lines acc (l @ CHR 0x0A # r) = (rev acc @ l) # es_lines [] r"
  by (induction l arbitrary: acc) auto

lemma es_lines_joined:
  "ls \<noteq> [] \<Longrightarrow> \<forall>l \<in> set ls. line_clean l \<Longrightarrow> es_lines [] (py_join nl ls @ CHR 0x0A # r) = ls @ es_lines [] r"
proof (induction ls)
  case (Cons l ls)
  then show ?case by (cases "ls = []") (simp_all add: py_join_Cons es_lines_line)
qed simp

lemma set_py_join_member: "p \<in> set ps \<Longrightarrow> set p \<subseteq> set (py_join sep ps)"
  by (induction ps) (auto simp: py_join_Cons)

lemma split_lines_clean: "CHR 0x0D \<notin> set s \<Longrightarrow> l \<in> set (py_split (CHR 0x0A) s) \<Longrightarrow> line_clean l"
  using set_py_join_member [of l "py_split (CHR 0x0A) s" nl] py_split_no_sep [of l "CHR 0x0A" s]
  by (auto simp: line_clean_def)

lemma line_clean_prefixed [simp]:
  "line_clean (data_line l) \<longleftrightarrow> line_clean l" "line_clean (event_line l) \<longleftrightarrow> line_clean l"
  by (simp_all add: data_line_def event_line_def)

lemma es_field_known [simp]:
  "es_field (data_line l) = (''data'', l)" "es_field (event_line l) = (''event'', l)"
  by (simp_all add: es_field_def Let_def strip_space_def data_line_def event_line_def)

lemma prefixed_not_Nil [simp]: "data_line l \<noteq> []" "event_line l \<noteq> []"
  by (simp_all add: data_line_def event_line_def)

lemma es_dispatch_data:
  "es_dispatch ev ds (map data_line ls @ [] # r)
    = (if ds @ ls = [] then [] else [(if ev = [] then ''message'' else ev, py_join nl (ds @ ls))]) @ es_dispatch [] [] r"
  by (induction ls arbitrary: ds) simp_all

lemma es_dispatch_frame:
  assumes "ev \<noteq> []" "ls \<noteq> []"
  shows "es_dispatch [] [] (event_line ev # map data_line ls @ [] # r) = (ev, py_join nl ls) # es_dispatch [] [] r"
  using assms es_dispatch_data [of ev "[]" ls r] by simp

lemma es_lines_frame:
  assumes "frame_clean f"
  shows "es_lines [] (frame_text f @ r)
    = event_line (fst f) # map data_line (py_split (CHR 0x0A) (snd f)) @ [] # es_lines [] r"
proof -
  let ?ls = "map data_line (py_split (CHR 0x0A) (snd f))"
  have clean: "\<forall>l \<in> set ?ls. line_clean l" "line_clean (event_line (fst f))"
    using assms split_lines_clean by (auto simp: frame_clean_def)
  have "frame_text f @ r = event_line (fst f) @ CHR 0x0A # (py_join nl ?ls @ CHR 0x0A # (CHR 0x0A # r))"
    by (simp add: frame_text_def sse_def)
  moreover have "es_lines [] (event_line (fst f) @ CHR 0x0A # (py_join nl ?ls @ CHR 0x0A # (CHR 0x0A # r)))
      = event_line (fst f) # es_lines [] (py_join nl ?ls @ CHR 0x0A # (CHR 0x0A # r))"
    using es_lines_line [OF clean(2), of "[]"] by simp
  moreover have "es_lines [] (py_join nl ?ls @ CHR 0x0A # (CHR 0x0A # r)) = ?ls @ [] # es_lines [] r"
    using es_lines_joined [OF _ clean(1), of "CHR 0x0A # r"] by simp
  ultimately show ?thesis by simp
qed

lemma sse_events_frame:
  assumes "frame_clean f"
  shows "es_dispatch [] [] (es_lines [] (frame_text f @ r)) = f # es_dispatch [] [] (es_lines [] r)"
proof -
  have "fst f \<noteq> []" using assms by (simp add: frame_clean_def)
  from es_dispatch_frame [OF this py_split_not_Nil] es_lines_frame [OF assms, of r] show ?thesis by simp
qed

lemma json_frame_clean:
  assumes "json_plain v" "ev \<noteq> []" "line_clean ev"
  shows "frame_clean (json_frame ev v)"
proof -
  have "CHR 0x0D \<notin> set (json_dumps True v)"
    using json_dumps_clean [OF assms(1), of "CHR 0x0D" True] by (auto simp: code_point_def)
  with assms show ?thesis by (simp add: frame_clean_def json_frame_def)
qed

section \<open>What a stream persists\<close>

lemma stream_transaction_rolls_back:
  "stream_transaction en q content pr s = (Inl e, mp, s') \<Longrightarrow> same_rows s s'"
  by (auto simp: stream_transaction_def Let_def flushed_def dest: open_conversation_InrD
      split: option.splits sum.splits if_splits)

lemma stream_transaction_commits:
  "stream_transaction en q content pr s = (Inr u, mp, s') \<Longrightarrow> turn_committed en q content [stream_usage en pr] s s'"
  by (auto simp: stream_transaction_def Let_def flushed_def turn_committed_def turn_rows_def new_conversation_def
      add_message_def add_usage_def dest: open_conversation_InrD split: option.splits sum.splits if_splits)

lemma persist_stream_cases:
  assumes "persist_stream en q p fin s = (frame, outcome, mp, s')"
  obtains (persisted) r where "fin = Inr r" "frame = done_frame en q p" "outcome = ''ok''"
      "turn_committed en q (py_truncate (cm_content (sc_assistant r)) (cc_max_assistant_chars (en_config en)))
         [stream_usage en (map_option psr_provider_result (sc_provider r))] s s'"
  | (refused) "fst frame = ''error''" "same_rows s s'"
proof (cases fin)
  case (Inl e)
  with assms show thesis
    by (intro refused) (auto simp: persist_stream_def failure_frame_def internal_frame_def json_frame_def split: exn.splits)
next
  case (Inr r)
  let ?c = "py_truncate (cm_content (sc_assistant r)) (cc_max_assistant_chars (en_config en))"
  let ?pr = "map_option psr_provider_result (sc_provider r)"
  obtain x mp' s1 where tt: "stream_transaction en q ?c ?pr s = (x, mp', s1)" by (cases "stream_transaction en q ?c ?pr s")
  show thesis
  proof (cases x)
    case (Inl e)
    with tt stream_transaction_rolls_back [of en q ?c ?pr s e mp' s1] Inr assms show thesis
      by (intro refused; cases e)
        (auto simp: persist_stream_def Let_def not_found_frame_def service_failure_frame_def failure_frame_def
          internal_frame_def json_frame_def split: exn.splits chat_exn.splits)
  next
    case (Inr u)
    with tt stream_transaction_commits [of en q ?c ?pr s u mp' s1] \<open>fin = Inr r\<close> assms show thesis
      by (intro persisted [of r]) (auto simp: persist_stream_def Let_def)
  qed
qed

lemma failure_frames [simp]: "fst (failure_frame e) = ''error''" "fst (service_failure_frame x) = ''error''"
  by (auto simp: failure_frame_def service_failure_frame_def internal_frame_def json_frame_def split: exn.split chat_exn.split)

lemma done_frame_event [simp]: "fst (done_frame en q p) = ''done''"
  by (simp add: done_frame_def json_frame_def)

lemma token_frames_simps [simp]:
  "token_frames [] = []" "length (token_frames cs) = length cs" "take n (token_frames cs) = token_frames (take n cs)"
  by (simp_all add: token_frames_def take_map)

text \<open>How a stream can end, by its frames.\<close>

lemma stream_turn_cases:
  assumes "stream_turn en q rag memory gone st = (fs, st')"
  obtains (persisted) session traced r p where
      "fst (stream_chat (en_service en) (en_request en) (pp_messages p) (pp_metadata p) (rt_tracing st)) = Inr (session, traced)"
      "cs_failure session = None" "cs_final session = Inr r" "p = prepare_turn (en_config en) q rag memory (en_collector en)"
      "fs = token_frames (cs_chunks session) @ [done_frame en q p]"
      "turn_committed en q (py_truncate (cm_content (sc_assistant r)) (cc_max_assistant_chars (en_config en)))
         [stream_usage en (map_option psr_provider_result (sc_provider r))] (rt_store st) (rt_store st')"
  | (unsaved) chunks rest where "fs = token_frames chunks @ rest" "rest = [] \<or> (\<exists>f. rest = [f] \<and> fst f = ''error'')"
      "same_rows (rt_store st) (rt_store st')"
proof -
  let ?p = "prepare_turn (en_config en) q rag memory (en_collector en)"
  obtain x t where sess: "stream_chat (en_service en) (en_request en) (pp_messages ?p) (pp_metadata ?p) (rt_tracing st) = (x, t)"
    by (cases "stream_chat (en_service en) (en_request en) (pp_messages ?p) (pp_metadata ?p) (rt_tracing st)")
  show thesis
  proof (cases x)
    case (Inl e)
    have fs: "fs = [service_failure_frame e]" and st': "rt_store st' = rt_store st"
      using sess assms Inl by (auto simp: stream_turn_def Let_def)
    show thesis
      by (rule unsaved [where chunks = "[]" and rest = "[service_failure_frame e]"]) (simp_all add: fs st' token_frames_def)
  next
    case (Inr st0)
    obtain session traced where s0: "st0 = (session, traced)" by (cases st0)
    let ?tokens = "token_frames (cs_chunks session)"
    define left where "left = departed gone (length (cs_chunks session))"
    show thesis
    proof (cases left)
      case (Some n)
      with sess Inr s0 assms show thesis
        by (intro unsaved [of "take n (cs_chunks session)" "[]"])
          (auto simp: stream_turn_def Let_def left_def [symmetric])
    next
      case None
      show thesis
      proof (cases "cs_failure session")
        case (Some e)
        with None sess Inr s0 assms show thesis
          by (intro unsaved [of "cs_chunks session" "[failure_frame e]"]) (auto simp: stream_turn_def Let_def left_def [symmetric])
      next
        case nofail: None
        obtain frame outcome mp s' where per: "persist_stream en q ?p (cs_final session) (rt_store st) = (frame, outcome, mp, s')"
          by (cases "persist_stream en q ?p (cs_final session) (rt_store st)")
        from assms have fs: "fs = ?tokens @ [frame]" and st': "rt_store st' = s'"
          using sess Inr s0 None nofail per by (auto simp: stream_turn_def Let_def left_def [symmetric])
        from per show thesis
        proof (cases rule: persist_stream_cases)
          case (persisted r)
          with fs st' sess Inr s0 nofail show thesis by (intro that(1) [of ?p session traced r]) auto
        next
          case refused
          with fs st' show thesis by (intro unsaved [of "cs_chunks session" "[frame]"]) auto
        qed
      qed
    qed
  qed
qed

section \<open>Streaming and plain turns persist the same rows\<close>

text \<open>Whether the transaction of a turn goes through, whichever half runs it.\<close>

definition turn_goes_through :: "'r chat_env \<Rightarrow> chat_request \<Rightarrow> store \<Rightarrow> bool" where
  "turn_goes_through en q s =
     ((if cq_conversation q = None then df_conversation (en_faults en) = None
       else get_conversation s (conversation_of en q) (en_tenant en) \<noteq> None)
      \<and> df_user (en_faults en) = None \<and> df_assistant (en_faults en) = None \<and> df_commit (en_faults en) = None)"

definition rows_after :: "'r chat_env \<Rightarrow> chat_request \<Rightarrow> string \<Rightarrow> store \<Rightarrow> message_row list \<times> conversation_row list" where
  "rows_after en q content s = (if turn_goes_through en q s
     then (st_messages s @ turn_rows en q content (st_next_sequence s), st_conversations s @ new_conversation en q)
     else (st_messages s, st_conversations s))"

definition rows_of :: "store \<Rightarrow> message_row list \<times> conversation_row list" where
  "rows_of s = (st_messages s, st_conversations s)"

lemmas turn_steps = Let_def flushed_def open_conversation_def add_message_def add_usage_def rolled_back_def

lemma stream_transaction_rows:
  "rows_of (snd (snd (stream_transaction en q content pr s))) = rows_after en q content s"
  by (auto simp: stream_transaction_def turn_steps rows_of_def rows_after_def turn_goes_through_def
      turn_rows_def new_conversation_def split: option.splits)

lemma turn_transaction_rows:
  assumes "obtain_answer en p st = (Inr (res, w), st1)"
  shows "rows_of (rt_store (snd (snd (turn_transaction en q p st))))
    = rows_after en q (py_truncate (cm_content (ct_assistant res)) (cc_max_assistant_chars (en_config en))) (rt_store st)"
  using assms obtain_answer_frameD [OF assms]
  by (auto simp: turn_transaction_def turn_steps rows_of_def rows_after_def turn_goes_through_def
      turn_rows_def new_conversation_def split: option.splits)

lemma commit_error_usage_rows_of [simp]: "rows_of (rt_store (commit_error_usage en m st)) = rows_of (rt_store st)"
  by (simp add: commit_error_usage_def rows_of_def add_usage_def split: option.split)

lemma chat_turn_rows:
  "rows_of (rt_store (snd (chat_turn en q rag memory st)))
    = rows_of (rt_store (snd (snd (turn_transaction en q (prepare_turn (en_config en) q rag memory (en_collector en)) st))))"
proof -
  let ?p = "prepare_turn (en_config en) q rag memory (en_collector en)"
  obtain x pr s where tt: "turn_transaction en q ?p st = (x, pr, s)" by (cases "turn_transaction en q ?p st")
  then show ?thesis
    by (cases x; cases "projl x") (auto simp: chat_turn_def Let_def split: prod.splits)
qed

lemma stream_turn_rows:
  assumes "p = prepare_turn (en_config en) q rag memory (en_collector en)"
    and "fst (stream_chat (en_service en) (en_request en) (pp_messages p) (pp_metadata p) (rt_tracing st)) = Inr (session, traced)"
    and "cs_failure session = None" "cs_final session = Inr r"
  shows "rows_of (rt_store (snd (stream_turn en q rag memory None st)))
    = rows_after en q (py_truncate (cm_content (sc_assistant r)) (cc_max_assistant_chars (en_config en))) (rt_store st)"
proof -
  let ?c = "py_truncate (cm_content (sc_assistant r)) (cc_max_assistant_chars (en_config en))"
  let ?pr = "map_option psr_provider_result (sc_provider r)"
  obtain t where sess: "stream_chat (en_service en) (en_request en) (pp_messages p) (pp_metadata p) (rt_tracing st) = (Inr (session, traced), t)"
    using assms(2) by (metis prod.collapse)
  obtain frame outcome mp s' where per: "persist_stream en q p (Inr r) (rt_store st) = (frame, outcome, mp, s')"
    by (cases "persist_stream en q p (Inr r) (rt_store st)")
  obtain x mp' s1 where tt: "stream_transaction en q ?c ?pr (rt_store st) = (x, mp', s1)"
    by (cases "stream_transaction en q ?c ?pr (rt_store st)")
  have "s' = s1" using per tt
    by (cases x; cases "projl x") (auto simp: persist_stream_def Let_def)
  moreover have "rt_store (snd (stream_turn en q rag memory None st)) = s'"
    using sess per assms(1,3,4) by (simp add: stream_turn_def Let_def departed_def)
  ultimately show ?thesis using stream_transaction_rows [of en q ?c ?pr "rt_store st"] tt by simp
qed

text \<open>A transaction that nothing refuses records the answer.\<close>

lemma turn_transaction_recorded:
  assumes "turn_goes_through en q (rt_store st)" "\<not> df_usage_refused (en_faults en)"
    and "obtain_answer en p st = (Inr (res, False), st1)" "rt_store st1 = rt_store st"
  shows "\<exists>s. turn_transaction en q p st
      = (Inr \<lparr>tu_content = py_truncate (cm_content (ct_assistant res)) (cc_max_assistant_chars (en_config en)),
              tu_provider = ct_provider res, tu_cache_write = None\<rparr>, Some (ct_provider res), st1\<lparr>rt_store := s\<rparr>)
    \<and> st_usage s = st_usage (rt_store st) @ [turn_usage en (ct_provider res)]"
  using assms by (auto simp: turn_transaction_def turn_steps turn_goes_through_def split: if_splits option.splits)

text \<open>A carriage return inside a chunk ends the line early, and the reader drops what follows it.\<close>

lemma carriage_return_is_lost:
  "sse_events (sse ''token'' [CHR ''a'', CHR 0x0D, CHR ''b'']) = [(''token'', ''a'')]"
  by code_simp

section \<open>Properties\<close>

text \<open>C21: what the route writes on the wire, the prescribed reader of event streams reads back frame by
  frame, blank lines and trailing line feeds included, for every chunk without a carriage return; the JSON
  payloads of the route never contain one, and are parsed back to the object that was sent. A chunk with a
  carriage return is not delivered: what follows it on its line is lost.\<close>

theorem event_stream_round_trip:
  assumes "list_all frame_clean fs" "json_plain v"
  shows "sse_events (concat (map frame_text fs) @ sse_json ''done'' v) = fs @ [(''done'', json_dumps True v)]
    \<and> json_loads (json_dumps True v) = Some v
    \<and> sse_events (sse ''token'' [CHR ''a'', CHR 0x0D, CHR ''b'']) = [(''token'', ''a'')]"
proof -
  have read_all: "sse_events (concat (map frame_text gs)) = gs" if "list_all frame_clean gs" for gs
    using that unfolding sse_events_def by (induction gs) (simp_all add: sse_events_frame)
  have "frame_clean (json_frame ''done'' v)" by (rule json_frame_clean [OF assms(2)]) simp_all
  then have "sse_events (concat (map frame_text (fs @ [json_frame ''done'' v]))) = fs @ [json_frame ''done'' v]"
    using assms(1) by (intro read_all) simp
  then show ?thesis
    using json_codec.dec_enc [OF assms(2), of True] carriage_return_is_lost
    by (simp add: frame_text_json) (simp add: json_frame_def)
qed

theorem event_stream_round_trip_witness:
  "sse_events (concat (map frame_text [(''token'', ''a'' @ nl @ nl), (''token'', [])]) @ sse_json ''done'' (JObj [(''n'', JInt 1)]))
    = [(''token'', ''a'' @ nl @ nl), (''token'', []), (''done'', json_dumps True (JObj [(''n'', JInt 1)]))]"
  using event_stream_round_trip [of "[(''token'', ''a'' @ nl @ nl), (''token'', [])]" "JObj [(''n'', JInt 1)]"]
  by (simp add: frame_clean_def)




section \<open>Witnesses\<close>

definition example_stream_question :: chat_request where
  "example_stream_question = example_question\<lparr>cq_stream := True\<rparr>"

lemma example_service_streams:
  "\<exists>session traced t' r. stream_chat example_service rid ms metadata t = (Inr (session, traced), t')
    \<and> cs_failure session = None \<and> cs_final session = Inr r"
  by (simp add: stream_chat_def example_service_def stub_port_def stub_stream_def stub_generate_def Let_def
      stream_session_of_def)

lemma example_stream_ends: "\<exists>fs st'. stream_turn example_env example_question no_rag no_memory None example_state = (fs, st')
    \<and> fs \<noteq> [] \<and> fst (last fs) = ''done''"
proof -
  let ?p = "prepare_turn example_chat_config example_question no_rag no_memory None"
  obtain session traced t r where sess: "stream_chat example_service (en_request example_env) (pp_messages ?p) (pp_metadata ?p)
      (rt_tracing example_state) = (Inr (session, traced), t)" "cs_failure session = None" "cs_final session = Inr r"
    using example_service_streams by blast
  let ?t = "\<lambda>c pr. stream_transaction example_env example_question c pr example_store"
  have "\<exists>u mp s. ?t c pr = (Inr u, mp, s)" for c pr
    by (simp add: stream_transaction_def Let_def conversation_of_def open_conversation_def
        example_conversations(1) [unfolded One_nat_def] no_faults_def flushed_def)
  then obtain u mp s where "?t (py_truncate (cm_content (sc_assistant r)) (cc_max_assistant_chars example_chat_config))
      (map_option psr_provider_result (sc_provider r)) = (Inr u, mp, s)" by blast
  then have "\<exists>mp s. persist_stream example_env example_question ?p (Inr r) example_store = (done_frame example_env example_question ?p, ''ok'', mp, s)"
    by (simp add: persist_stream_def Let_def)
  with sess show ?thesis by (auto simp: stream_turn_def Let_def departed_def)
qed


definition unstreamed_service :: chat_service where
  "unstreamed_service = \<lparr>sv_resolve = (\<lambda>rid ms stream. Inr ((stub_port (\<lambda>_. replicate 64 (CHR ''a'')) 0 ''ok'')\<lparr>pv_stream := None\<rparr>)),
     sv_timed_out = (\<lambda>p i. False)\<rparr>"



end
