(* ===== verification/Chat_History.thy ===== *)
theory Chat_History imports Chat_Stream Turns begin

text \<open>
  What a sequence of requests does to the stored conversations: \<open>served\<close> is one request of either
  half of \<open>POST /chat\<close>, or anything that leaves the store alone, and \<open>reaches\<close> its closure. Requests
  are taken one after the other. The lemmas show that a committed turn is appended to exactly one
  history, and that well-formedness of the store is an invariant of the service.
\<close>

section \<open>Appending to a sorted history\<close>

lemma insort_key_append:
  "\<forall>y \<in> set ys. f x \<le> f y \<Longrightarrow> insort_key f x (zs @ ys) = insort_key f x zs @ ys"
  by (induction zs) (cases ys; auto)+

lemma sort_key_append_greater:
  assumes "\<forall>x \<in> set xs. \<forall>y \<in> set ys. f x \<le> f y" "sorted (map f ys)"
  shows "sort_key f (xs @ ys) = sort_key f xs @ ys"
  using assms by (induction xs) (simp_all add: sort_key_id_if_sorted insort_key_append)

lemma turn_rows_facts [simp]:
  "map mr_role (turn_rows en q content n) = [User, Assistant]" "map mr_sequence (turn_rows en q content n) = [n, n + 1]"
  "r \<in> set (turn_rows en q content n) \<Longrightarrow> mr_conversation r = conversation_of en q \<and> mr_tenant r = en_tenant en
     \<and> n \<le> mr_sequence r \<and> mr_sequence r \<le> n + 1"
  by (auto simp: turn_rows_def)

text \<open>A committed turn extends its own history and no other.\<close>

lemma list_messages_committed:
  assumes "store_ok s" "turn_committed en q content us s s'"
  shows "list_messages_for_conversation s' c t = list_messages_for_conversation s c t
    @ (if c = conversation_of en q \<and> t = en_tenant en then turn_rows en q content (st_next_sequence s) else [])"
proof -
  let ?rows = "turn_rows en q content (st_next_sequence s)"
  let ?new = "if c = conversation_of en q \<and> t = en_tenant en then ?rows else []"
  have "scoped_rows s' c t = scoped_rows s c t @ ?new"
    using assms(2) by (auto simp: scoped_rows_def turn_committed_def turn_rows_def)
  moreover have "\<forall>x \<in> set (scoped_rows s c t). \<forall>y \<in> set ?new. mr_sequence x \<le> mr_sequence y"
    using assms(1) by (fastforce simp: store_ok_def scoped_rows_def turn_rows_def split: if_splits)
  moreover have "sorted (map mr_sequence ?new)" by simp
  ultimately show ?thesis by (simp add: list_messages_for_conversation_def sort_key_append_greater)
qed

lemma list_messages_same: "st_messages s' = st_messages s \<Longrightarrow>
    list_messages_for_conversation s' c t = list_messages_for_conversation s c t"
  by (simp add: list_messages_for_conversation_def scoped_rows_def)

lemma find_append_None: "find P xs = None \<Longrightarrow> find P (xs @ ys) = find P ys"
  by (induction xs) (auto split: if_splits)

section \<open>Well-formed stores\<close>

definition store_inv :: "store \<Rightarrow> bool" where
  "store_inv s = (store_ok s
     \<and> (\<forall>r \<in> set (st_messages s). \<exists>c \<in> set (st_conversations s). cv_id c = mr_conversation r \<and> cv_tenant c = mr_tenant r)
     \<and> (\<forall>c t. alternates (map mr_role (list_messages_for_conversation s c t))))"

definition fresh_conversation :: "'r chat_env \<Rightarrow> chat_request \<Rightarrow> store \<Rightarrow> bool" where
  "fresh_conversation en q s = (cq_conversation q = None \<longrightarrow> ti_conversation (en_ids en) \<notin> cv_id ` set (st_conversations s))"

lemma store_ok_committed:
  assumes "store_ok s" "turn_committed en q content us s s'" "fresh_conversation en q s"
  shows "store_ok s'"
proof -
  have "distinct (map cv_id (st_conversations s'))"
    using assms by (auto simp: store_ok_def turn_committed_def new_conversation_def fresh_conversation_def conversation_of_def)
  moreover have "distinct (map mr_sequence (st_messages s'))" "\<forall>r \<in> set (st_messages s'). mr_sequence r < st_next_sequence s'"
    using assms(1,2) by (auto simp: store_ok_def turn_committed_def turn_rows_def)
  ultimately show ?thesis by (simp add: store_ok_def)
qed

lemma store_inv_committed:
  assumes inv: "store_inv s" and com: "turn_committed en q content us s s'" and fresh: "fresh_conversation en q s"
  shows "store_inv s'"
proof -
  have ok: "store_ok s" using inv by (simp add: store_inv_def)
  have "\<exists>c \<in> set (st_conversations s'). cv_id c = mr_conversation r \<and> cv_tenant c = mr_tenant r"
    if r: "r \<in> set (st_messages s')" for r
  proof (cases "r \<in> set (st_messages s)")
    case True
    with inv com show ?thesis by (fastforce simp: store_inv_def turn_committed_def)
  next
    case False
    with r com have r': "mr_conversation r = conversation_of en q" "mr_tenant r = en_tenant en"
      by (auto simp: turn_committed_def)
    show ?thesis
    proof (cases "cq_conversation q")
      case None
      with com r' show ?thesis by (auto simp: turn_committed_def new_conversation_def)
    next
      case (Some c)
      with com obtain row where "get_conversation s (conversation_of en q) (en_tenant en) = Some row"
        by (auto simp: turn_committed_def)
      from get_conversation_SomeD [OF this] com r' show ?thesis by (auto simp: turn_committed_def)
    qed
  qed
  moreover have "alternates (map mr_role (list_messages_for_conversation s' c t))" for c t
    using inv by (auto simp: list_messages_committed [OF ok com] store_inv_def intro!: alternates_append)
  ultimately show ?thesis using store_ok_committed [OF ok com fresh] by (simp add: store_inv_def)
qed

lemma store_inv_same:
  assumes "store_inv s" "st_messages s' = st_messages s" "st_conversations s' = st_conversations s"
    "st_next_sequence s \<le> st_next_sequence s'"
  shows "store_inv s'"
proof -
  have "store_ok s'" using assms by (fastforce simp: store_inv_def store_ok_def)
  with assms(1) show ?thesis by (simp add: store_inv_def list_messages_same [OF assms(2)] assms(2,3))
qed

section \<open>Serving requests\<close>

inductive served :: "'r route_state \<Rightarrow> 'r route_state \<Rightarrow> bool" where
  plain: "chat_turn en q rag memory st = (reply, st') \<Longrightarrow> fresh_conversation en q (rt_store st) \<Longrightarrow> served st st'"
| streamed: "stream_turn en q rag memory gone st = (fs, st') \<Longrightarrow> fresh_conversation en q (rt_store st) \<Longrightarrow> served st st'"
| elsewhere: "rt_store st' = rt_store st \<Longrightarrow> served st st'"

inductive reaches :: "'r route_state \<Rightarrow> 'r route_state \<Rightarrow> bool" where
  start: "reaches st st"
| request: "reaches st st' \<Longrightarrow> served st' st'' \<Longrightarrow> reaches st st''"

text \<open>All that one request can do to the store.\<close>

lemma served_store:
  fixes st :: "'r route_state"
  assumes "served st st'"
  obtains (turn) en :: "'r chat_env" and q content us where "turn_committed en q content us (rt_store st) (rt_store st')"
      "fresh_conversation en q (rt_store st)"
  | (same) "st_messages (rt_store st') = st_messages (rt_store st)"
      "st_conversations (rt_store st') = st_conversations (rt_store st)"
      "st_next_sequence (rt_store st) \<le> st_next_sequence (rt_store st')"
  using assms
proof (cases rule: served.cases)
  case (plain en q rag memory reply)
  from plain(1) show ?thesis
    by (cases rule: chat_turn_cases) (use plain turn same in \<open>auto simp: same_rows_def\<close>)
next
  case (streamed en q rag memory gone fs)
  from streamed(1) show ?thesis
    by (cases rule: stream_turn_cases) (use streamed turn same in \<open>auto simp: same_rows_def\<close>)
next
  case elsewhere
  then show ?thesis by (intro same) simp_all
qed

lemma served_inv:
  assumes "served st st'" "store_inv (rt_store st)"
  shows "store_inv (rt_store st')
    \<and> prefix (list_messages_for_conversation (rt_store st) c t) (list_messages_for_conversation (rt_store st') c t)"
  using assms(1)
proof (cases rule: served_store)
  case (turn en q content us)
  moreover have "store_ok (rt_store st)" using assms(2) by (simp add: store_inv_def)
  ultimately show ?thesis
    using store_inv_committed [OF assms(2) turn] by (simp add: list_messages_committed [OF _ turn(1)])
next
  case same
  then show ?thesis using store_inv_same [OF assms(2) same] by (simp add: list_messages_same [OF same(1)])
qed

lemma reaches_inv:
  "reaches st st' \<Longrightarrow> store_inv (rt_store st) \<Longrightarrow> store_inv (rt_store st')
    \<and> prefix (list_messages_for_conversation (rt_store st) c t) (list_messages_for_conversation (rt_store st') c t)"
proof (induction rule: reaches.induct)
  case (request st st' st'')
  then show ?case using served_inv [of st' st'' c t] prefix_order.order_trans by blast
qed simp

lemma history_roles_alternate:
  "store_inv s \<Longrightarrow> fetch_ordered None s c t = Inr ms \<Longrightarrow> alternates (map hm_role ms)"
  by (auto simp: fetch_ordered_def store_inv_def history_of_row_def comp_def split: option.splits)

section \<open>Properties\<close>


text \<open>The next request of a conversation reads what this one wrote: after a success reply the ordered
  history of the conversation is the one before it followed by the user's message and the replied answer,
  and the history of every other conversation or tenant is untouched.\<close>

theorem next_request_reads_this_turn:
  assumes "chat_turn en q rag memory st = (Replied r, st')" "rs_success r" "store_ok (rt_store st)"
    and "fresh_conversation en q (rt_store st)"
  shows "\<exists>content n. rs_content r = Some content
    \<and> list_messages_for_conversation (rt_store st') c t = list_messages_for_conversation (rt_store st) c t
        @ (if c = conversation_of en q \<and> t = en_tenant en then turn_rows en q content n else [])
    \<and> (\<exists>ms. fetch_ordered None (rt_store st') (conversation_of en q) (en_tenant en) = Inr ms
          \<and> map hm_content (drop (length ms - 2) ms) = [cq_message q, content])"
  using assms(1)
proof (cases rule: chat_turn_cases)
  case (committed tu p)
  let ?s = "rt_store st" and ?s' = "rt_store st'" and ?cid = "conversation_of en q"
  note lists = list_messages_committed [OF assms(3) committed(2)]
  have conv: "get_conversation ?s' ?cid (en_tenant en) \<noteq> None"
  proof (cases "cq_conversation q")
    case None
    then have "find (\<lambda>c. cv_id c = ?cid) (st_conversations ?s) = None"
      using assms(4) by (auto simp: find_None_iff fresh_conversation_def conversation_of_def image_iff)
    with committed(2) None show ?thesis
      by (auto simp: get_conversation_def turn_committed_def new_conversation_def find_append_None split: option.splits)
  next
    case (Some c)
    with committed(2) show ?thesis by (auto simp: turn_committed_def new_conversation_def get_conversation_def)
  qed
  define rows where "rows = list_messages_for_conversation ?s ?cid (en_tenant en)
      @ turn_rows en q (tu_content tu) (st_next_sequence ?s)"
  have "fetch_ordered None ?s' ?cid (en_tenant en) = Inr (map history_of_row rows)"
    using conv lists by (auto simp: fetch_ordered_def rows_def split: option.splits)
  moreover have "map hm_content (drop (length (map history_of_row rows) - 2) (map history_of_row rows)) = [cq_message q, tu_content tu]"
    by (simp add: rows_def turn_rows_def history_of_row_def)
  ultimately show ?thesis
    using committed(1) lists [of c t] by (auto simp: success_reply_def)
qed (use assms(2) in \<open>auto simp: error_reply_def\<close>)

section \<open>Witnesses\<close>

definition empty_state :: "(string \<Rightarrow> string option) route_state" where
  "empty_state = example_state\<lparr>rt_store := \<lparr>st_conversations = [], st_messages = [], st_usage = [], st_next_sequence = 1\<rparr>\<rparr>"

lemma empty_state_inv: "store_inv (rt_store empty_state)"
  by (simp add: empty_state_def store_inv_def store_ok_def list_messages_for_conversation_def scoped_rows_def)


theorem next_request_reads_this_turn_witness:
  "\<exists>r st' ms. chat_turn example_env example_question no_rag no_memory example_state = (Replied r, st')
    \<and> fetch_ordered None (rt_store st') 1 ''acme'' = Inr ms \<and> hm_content (ms ! (length ms - 2)) = ''hi again''"
proof -
  obtain r st' where run: "chat_turn example_env example_question no_rag no_memory example_state = (Replied r, st')"
    and ok: "rs_success r" using example_turn_succeeds by blast
  have side: "store_ok (rt_store example_state)" "fresh_conversation example_env example_question (rt_store example_state)"
    "conversation_of example_env example_question = 1" "cq_message example_question = ''hi again''"
    by (simp_all add: fresh_conversation_def conversation_of_def) (simp add: example_question_def)
  have "\<exists>content ms. fetch_ordered None (rt_store st') 1 ''acme'' = Inr ms
      \<and> map hm_content (drop (length ms - 2) ms) = [''hi again'', content]"
    using next_request_reads_this_turn [OF run ok side(1,2), of 1 "''acme''"]
    unfolding side(3,4) example_env_simps(4) by (elim exE conjE) (intro exI conjI)
  then obtain content ms where ms: "fetch_ordered None (rt_store st') 1 ''acme'' = Inr ms"
    "map hm_content (drop (length ms - 2) ms) = [''hi again'', content]" by (elim exE conjE)
  from ms(2) have "length ms - (length ms - 2) = 2" by (metis length_drop length_map length_Cons list.size(3) numeral_2_eq_2)
  then have "length ms - 2 < length ms" by linarith
  with ms(2) have "hm_content (ms ! (length ms - 2)) = ''hi again''"
    by (metis Cons_nth_drop_Suc list.inject list.simps(9))
  with run ms(1) show ?thesis by blast
qed

end
