(* ===== verification/Memory_Context.thy ===== *)
theory Memory_Context imports Chat_History begin

text \<open>
  The two context dependencies of \<open>POST /chat\<close> (\<open>app/api/deps.py\<close>): the documental channel and the
  conversation memory with its Mode B evidence, each with its degradation boundary, its metrics
  fields and its spans; and the request as a whole, dependencies first, then the route. \<open>mlog\<close> and
  \<open>fold_text\<close> are the logarithm and the text folding of the ranking.
\<close>

section \<open>Recording\<close>

definition record_field :: "string \<Rightarrow> metric \<Rightarrow> metric collector option \<Rightarrow> metric collector option" where
  "record_field k v c = map_option (collector_record [(k, Some v)]) c"

definition record_memory_outcome :: "string \<Rightarrow> metric collector option \<Rightarrow> metric collector option" where
  "record_memory_outcome outcome c = record_field ''memory_outcome'' (Metric_Text outcome) c"

definition record_selected_count :: "int \<Rightarrow> metric collector option \<Rightarrow> metric collector option" where
  "record_selected_count n c = record_field ''ebm25_selected_count'' (Metric_Int n) c"

definition record_retrieval_outcome :: "retrieval_outcome option \<Rightarrow> metric collector option \<Rightarrow> metric collector option" where
  "record_retrieval_outcome outcome c = (case outcome of
     None \<Rightarrow> c
   | Some r \<Rightarrow> record_field ''retrieval_outcome'' (Metric_Text (retrieval_outcome_text r)) c)"

section \<open>Documental context\<close>

text \<open>\<open>session\<close>: opening the session and building the pipeline; \<open>outcome\<close>: the bounded retrieval.\<close>

definition get_chat_rag_context ::
    "chat_config \<Rightarrow> rag_bounds \<Rightarrow> (exn, unit) result \<Rightarrow> (exn, pipeline_result) result
     \<Rightarrow> metric collector option \<Rightarrow> rag_context \<times> metric collector option \<times> string list" where
  "get_chat_rag_context cfg bounds session outcome c =
     (if \<not> cc_rag_augmentation cfg
      then (\<lparr>rg_sources = [], rg_outcome = Some Retrieval_skipped\<rparr>,
            record_retrieval_outcome (Some Retrieval_skipped) c, [])
      else (case session of
          Inl e \<Rightarrow> (\<lparr>rg_sources = [], rg_outcome = Some Retrieval_error\<rparr>,
            record_retrieval_outcome (Some Retrieval_error) c, [exn_name e])
        | Inr _ \<Rightarrow> (let context = augment bounds outcome
            in (context, record_retrieval_outcome (rg_outcome context) c, []))))"

section \<open>Conversation memory\<close>

record memory_config =
  mg_max_messages :: int
  mg_max_chars :: int
  mg_max_rows :: nat

type_synonym fetch_history = "uuid \<Rightarrow> string \<Rightarrow> (history_exn, history_message list) result"

text \<open>The operational session over a store: it fails as a whole, or the adapter reads.\<close>

definition history_session :: "history_exn option \<Rightarrow> memory_config \<Rightarrow> store \<Rightarrow> fetch_history" where
  "history_session fault mg s cid tenant = (case fault of
     Some e \<Rightarrow> Inl e
   | None \<Rightarrow> fetch_ordered (Some (mg_max_rows mg)) s cid tenant)"

definition materialize_window ::
    "memory_config \<Rightarrow> fetch_history \<Rightarrow> uuid \<Rightarrow> string \<Rightarrow> (history_exn, window_partition \<times> bool \<times> bool) result" where
  "materialize_window mg fetch cid tenant =
     bind_result (fetch cid tenant) (\<lambda>all.
     bind_result (assemble (mg_max_messages mg) (mg_max_chars mg) (\<lambda>_ _. Inr all) cid tenant) (\<lambda>assembled.
       case build_materialized_window all (ah_messages assembled) of
         Inl Index_Error \<Rightarrow> Inl (History_Failure ''IndexError'')
       | Inr p \<Rightarrow> Inr (p, ilen (wp_window p) < ilen all, length all = mg_max_rows mg)))"

definition history_exn_name :: "history_exn \<Rightarrow> string" where
  "history_exn_name e = (case e of
     History.Conversation_Not_Found _ \<Rightarrow> ''ConversationNotFoundError''
   | History_Integrity _ _ \<Rightarrow> ''HistoryIntegrityError''
   | History_Timeout \<Rightarrow> ''timeout''
   | History_Failure name \<Rightarrow> name)"

text \<open>The window as delivered, and whether the cap cut it.\<close>

definition packed_memory :: "chat_config \<Rightarrow> window_partition \<Rightarrow> bool \<Rightarrow> bool \<Rightarrow> memory_context \<times> bool" where
  "packed_memory cfg p truncated cap_reached =
     (let context = memory_of_partition p truncated cap_reached;
          packed = pack_recent_window (mm_messages context) (cc_max_added_chars cfg) 0
      in (context\<lparr>mm_messages := pw_messages packed, mm_truncated := mm_truncated context \<or> pw_truncated packed\<rparr>,
          pw_truncated packed))"

definition assemble_memory ::
    "chat_config \<Rightarrow> memory_config \<Rightarrow> fetch_history \<Rightarrow> uuid \<Rightarrow> string \<Rightarrow> tracing
     \<Rightarrow> (history_exn, window_partition \<times> memory_context \<times> bool) result \<times> tracing" where
  "assemble_memory cfg mg fetch cid tenant =
     in_span ''memory.assemble'' [(''memory.mode'', Some (AStr (if cc_ebm25 cfg then ''B'' else ''A'')))] (\<lambda>t.
       case materialize_window mg fetch cid tenant of
         Inl e \<Rightarrow> (Inl e, t)
       | Inr (p, truncated, cap_reached) \<Rightarrow>
           (case packed_memory cfg p truncated cap_reached of
              (context, cut_by_cap) \<Rightarrow>
                (Inr (p, context, cut_by_cap),
                 set_attribute ''memory.history_row_cap_reached'' (Some (ABool (mm_row_cap_reached context)))
                   (set_attribute ''memory.history_truncated'' (Some (ABool (mm_truncated context)))
                     (set_attribute ''memory.window_turn_count'' (Some (AInt (ilen (mm_messages context) div 2))) t)))))"

definition memory_event_of :: "corpus_event \<Rightarrow> memory_event" where
  "memory_event_of e = \<lparr>me_event_id = ce_event_id e, me_content = event_text e\<rparr>"

text \<open>Mode B: the context with its evidence, the outcome it reports, the count and the failure.\<close>

definition select_evidence ::
    "('f::linordered_field \<Rightarrow> 'f) \<Rightarrow> (string \<Rightarrow> string) \<Rightarrow> chat_config \<Rightarrow> string \<Rightarrow> window_partition \<Rightarrow> memory_context
     \<Rightarrow> tracing \<Rightarrow> (memory_context \<times> string option \<times> int \<times> string list) \<times> tracing" where
  "select_evidence mlog fold_text cfg message p context t0 =
     (let corpus = corpus_of_partition p in
      if corpus = [] then ((context, Some ''no_out_of_window_corpus'', 0, []), t0)
      else in_span ''memory.rank'' [(''memory.corpus_turn_count'', Some (AInt (ilen corpus)))] (\<lambda>t.
        let remaining = cc_max_added_chars cfg - content_chars (mm_messages context) in
        case rank_events mlog fold_text corpus (query_tokens fold_text message) of
          Inl _ \<Rightarrow> ((context, Some ''error'', 0, [''ebm25_ValueError'']), t)
        | Inr ranked \<Rightarrow>
            (case pack_selected_events ranked (max remaining 0) [] of
               (selected, _) \<Rightarrow>
                 (if selected = [] then (context, Some ''budget_starved'', 0, [])
                  else (context\<lparr>mm_events := map memory_event_of selected\<rparr>, None, ilen selected, []),
                  set_attribute ''memory.selected_count'' (Some (AInt (ilen selected))) t))) t0)"

record memory_run =
  mn_context :: memory_context
  mn_collector :: "metric collector option"
  mn_tracing :: tracing
  mn_degraded :: "string list"

definition get_chat_memory_context ::
    "('f::linordered_field \<Rightarrow> 'f) \<Rightarrow> (string \<Rightarrow> string) \<Rightarrow> chat_config \<Rightarrow> memory_config \<Rightarrow> fetch_history
     \<Rightarrow> chat_request \<Rightarrow> string \<Rightarrow> metric collector option \<Rightarrow> tracing \<Rightarrow> memory_run" where
  "get_chat_memory_context mlog fold_text cfg mg fetch q tenant c t =
     (if \<not> cc_history cfg then \<lparr>mn_context = no_memory, mn_collector = c, mn_tracing = t, mn_degraded = []\<rparr>
      else (case cq_conversation q of
        None \<Rightarrow> \<lparr>mn_context = no_memory, mn_collector = record_memory_outcome ''skipped_first_turn'' c,
                mn_tracing = t, mn_degraded = []\<rparr>
      | Some cid \<Rightarrow>
          (case assemble_memory cfg mg fetch cid tenant t of
             (Inl e, u) \<Rightarrow>
               (case e of
                  History.Conversation_Not_Found _ \<Rightarrow> \<lparr>mn_context = no_memory,
                    mn_collector = record_memory_outcome ''conversation_not_found'' c, mn_tracing = u, mn_degraded = []\<rparr>
                | History_Timeout \<Rightarrow> \<lparr>mn_context = no_memory,
                    mn_collector = record_memory_outcome ''timeout'' c, mn_tracing = u, mn_degraded = [''timeout'']\<rparr>
                | _ \<Rightarrow> \<lparr>mn_context = no_memory,
                    mn_collector = record_memory_outcome ''error'' c, mn_tracing = u, mn_degraded = [history_exn_name e]\<rparr>)
           | (Inr (p, context, cut_by_cap), u) \<Rightarrow>
               (let ((context1, mode_b, n, degraded), v) =
                      (if cc_ebm25 cfg then select_evidence mlog fold_text cfg (cq_message q) p context u
                       else ((context, None, 0, []), u));
                    c1 = (if cc_ebm25 cfg then record_selected_count n c else c);
                    outcome = (if cut_by_cap then ''budget_starved''
                       else case mode_b of Some w \<Rightarrow> w
                         | None \<Rightarrow> if mm_messages context1 = [] then ''empty'' else ''ok'')
                in \<lparr>mn_context = context1, mn_collector = record_memory_outcome outcome c1,
                    mn_tracing = v, mn_degraded = degraded\<rparr>))))"

section \<open>The whole request\<close>

definition chat_request_handler ::
    "('f::linordered_field \<Rightarrow> 'f) \<Rightarrow> (string \<Rightarrow> string) \<Rightarrow> 'r chat_env \<Rightarrow> memory_config \<Rightarrow> history_exn option
     \<Rightarrow> rag_bounds \<Rightarrow> (exn, unit) result \<Rightarrow> (exn, pipeline_result) result
     \<Rightarrow> chat_request \<Rightarrow> nat option \<Rightarrow> 'r route_state \<Rightarrow> chat_answer \<times> 'r route_state" where
  "chat_request_handler mlog fold_text en mg fault bounds session outcome q gone st =
     (case get_chat_rag_context (en_config en) bounds session outcome (en_collector en) of
        (rag, c1, _) \<Rightarrow>
          (let run = get_chat_memory_context mlog fold_text (en_config en) mg
                 (history_session fault mg (rt_store st)) q (en_tenant en) c1 (rt_tracing st)
           in chat_route (en\<lparr>en_collector := mn_collector run\<rparr>) q rag (mn_context run) gone
                (st\<lparr>rt_tracing := mn_tracing run\<rparr>)))"

section \<open>What the two stages answer\<close>

lemma fst_assemble_memory:
  "fst (assemble_memory cfg mg fetch cid tenant t) = bind_result (materialize_window mg fetch cid tenant)
     (\<lambda>(p, truncated, cap_reached). case packed_memory cfg p truncated cap_reached of (context, cut_by_cap) \<Rightarrow>
        Inr (p, context, cut_by_cap))"
  unfolding assemble_memory_def by (rule fst_in_span) (simp add: bind_result_def split: sum.split prod.split)

definition evidence_of ::
    "('f::linordered_field \<Rightarrow> 'f) \<Rightarrow> (string \<Rightarrow> string) \<Rightarrow> chat_config \<Rightarrow> string \<Rightarrow> window_partition \<Rightarrow> memory_context
     \<Rightarrow> (string, corpus_event list) result" where
  "evidence_of mlog fold_text cfg message p context =
     bind_result (rank_events mlog fold_text (corpus_of_partition p) (query_tokens fold_text message))
       (\<lambda>ranked. Inr (fst (pack_selected_events ranked (max (cc_max_added_chars cfg - content_chars (mm_messages context)) 0) [])))"

lemma fst_select_evidence:
  "fst (select_evidence mlog fold_text cfg message p context t) =
     (if corpus_of_partition p = [] then (context, Some ''no_out_of_window_corpus'', 0, [])
      else (case evidence_of mlog fold_text cfg message p context of
          Inl _ \<Rightarrow> (context, Some ''error'', 0, [''ebm25_ValueError''])
        | Inr selected \<Rightarrow>
            if selected = [] then (context, Some ''budget_starved'', 0, [])
            else (context\<lparr>mm_events := map memory_event_of selected\<rparr>, None, ilen selected, [])))"
proof (cases "corpus_of_partition p = []")
  case False
  then show ?thesis
    unfolding select_evidence_def Let_def
    by (simp only: if_False, intro fst_in_span)
      (simp add: evidence_of_def Let_def bind_result_def split: sum.split prod.split)
qed (simp add: select_evidence_def)

section \<open>Where memory comes from\<close>

definition memory_from :: "message_row list \<Rightarrow> memory_context \<Rightarrow> bool" where
  "memory_from rows m =
     ((\<forall>x \<in> set (mm_messages m). \<exists>r \<in> set rows. mr_role r = cm_role x \<and> prefix (cm_content x) (mr_content r))
      \<and> (\<forall>e \<in> set (mm_events m). \<exists>u. u \<noteq> [] \<and> set u \<subseteq> history_of_row ` set rows
            \<and> me_content e = document_text u \<and> me_event_id e = first_sequence u))"

definition memory_within :: "int \<Rightarrow> memory_context \<Rightarrow> bool" where
  "memory_within k m = (content_chars (mm_messages m) + sum_list (map (\<lambda>e. ilen (me_content e)) (mm_events m)) \<le> max 0 k
     \<and> length (mm_events m) \<le> 5 \<and> alternates (map cm_role (mm_messages m)))"

lemma no_memory_ok [simp]: "memory_from rows no_memory" "memory_within k no_memory"
  by (simp_all add: memory_from_def memory_within_def no_memory_def)

lemma truncate_turn_member:
  "x \<in> set (truncate_turn ms b) \<Longrightarrow> \<exists>m \<in> set ms. cm_role m = cm_role x \<and> prefix (cm_content x) (cm_content m)"
  by (induction ms b rule: truncate_turn.induct) (auto simp: py_truncate_prefix split: if_splits)

lemma pack_member:
  assumes "x \<in> set (pw_messages (pack_recent_window ms k r))"
  shows "\<exists>m \<in> set ms. cm_role m = cm_role x \<and> prefix (cm_content x) (cm_content m)"
proof (cases "0 < k - r")
  case True
  have sub: "set (concat turns) \<subseteq> set ms" if "suffix turns (pair_up ms)" for turns
    using set_mono_suffix [OF suffix_concat [OF that]] by (simp only: concat_pair_up)
  from True show ?thesis
  proof (cases rule: pack_recent_window_cases [of k r ms])
    case (fits turns)
    with assms sub [OF fits(1)] show ?thesis by auto
  next
    case (cut t)
    with assms sub [OF cut(1)] show ?thesis using truncate_turn_member [of x t "k - r"] by auto
  qed
qed (use assms in \<open>simp add: pack_recent_window_def\<close>)

lemma fetched_rows:
  assumes "history_session fault mg s cid tenant = Inr all"
  shows "get_conversation s cid tenant \<noteq> None" "set all \<subseteq> history_of_row ` set (list_messages_for_conversation s cid tenant)"
  using assms by (auto simp: history_session_def fetch_ordered_def list_recent_messages_for_conversation_def
      list_messages_for_conversation_def dest!: in_set_takeD split: option.splits)

lemma materialize_window_InrD:
  assumes "materialize_window mg fetch cid tenant = Inr (p, truncated, cap_reached)"
  obtains all bounded where "fetch cid tenant = Inr all" "build_materialized_window all bounded = Inr p"
    "truncated = (ilen (wp_window p) < ilen all)"
proof -
  from assms obtain all and h :: assembled_history where run: "fetch cid tenant = Inr all"
    "(case build_materialized_window all (ah_messages h) of
         Inl Index_Error \<Rightarrow> Inl (History_Failure ''IndexError'')
       | Inr p \<Rightarrow> Inr (p, ilen (wp_window p) < ilen all, length all = mg_max_rows mg)) = Inr (p, truncated, cap_reached)"
    unfolding materialize_window_def bind_result_Inr_iff by blast
  show thesis
  proof (cases "build_materialized_window all (ah_messages h)")
    case (Inl e)
    with run(2) show thesis by (cases e) simp
  next
    case (Inr p')
    with run show thesis by (intro that [of all "ah_messages h"]) auto
  qed
qed

lemma materialize_window_readable:
  assumes "fetch cid tenant = Inr all" "sorted_wrt (<) (map hm_sequence all)"
  shows "\<exists>p. build_materialized_window all (apply_bounds (mg_max_messages mg) (mg_max_chars mg) all) = Inr p
    \<and> materialize_window mg fetch cid tenant = Inr (p, ilen (wp_window p) < ilen all, length all = mg_max_rows mg)"
proof -
  let ?bounded = "apply_bounds (mg_max_messages mg) (mg_max_chars mg) all"
  have "suffix ?bounded all" by (rule apply_bounds_suffix)
  then obtain p where p: "build_materialized_window all ?bounded = Inr p"
    using build_window_total [of ?bounded all] set_mono_suffix by blast
  moreover have "require_strictly_increasing all = Inr ()"
    using assms(2) by (simp add: require_strictly_increasing_iff)
  ultimately show ?thesis
    using assms(1) by (intro exI [of _ p]) (simp add: materialize_window_def assemble_def bind_result_def Let_def)
qed

lemma subseq_subset: "subseq xs ys \<Longrightarrow> set xs \<subseteq> set ys"
  by (auto elim: list_emb_set)

lemma window_member: "build_materialized_window ms bounded = Inr p \<Longrightarrow> m \<in> set (wp_window p) \<Longrightarrow> m \<in> set ms"
  using subseq_subset [OF window_subseq [of ms bounded p]] by blast

lemma excluded_member:
  assumes "build_materialized_window ms bounded = Inr p" "u \<in> set (wp_excluded_units p)"
  shows "u \<noteq> [] \<and> set u \<subseteq> set ms"
proof -
  obtain i where "wp_excluded_units p = take i (group_turns ms) @ filter (\<lambda>v. \<not> is_well_formed v) (drop i (group_turns ms))"
    using assms(1) by (rule build_window_InrD)
  with assms(2) have "u \<in> set (group_turns ms)" by (auto dest: in_set_takeD in_set_dropD)
  moreover from this have "set u \<subseteq> set (concat (group_turns ms))" by (simp only: set_concat) blast
  ultimately show ?thesis using group_turns_nonempty by (simp only: concat_group_turns) blast
qed

lemma packed_memory_ok:
  assumes "build_materialized_window all bounded = Inr p" "set all \<subseteq> history_of_row ` set rows"
    and "packed_memory cfg p truncated cap_reached = (context, cut_by_cap)"
  shows "memory_from rows context \<and> mm_events context = []
    \<and> content_chars (mm_messages context) \<le> max 0 (cc_max_added_chars cfg)
    \<and> alternates (map cm_role (mm_messages context))"
proof -
  let ?w = "map chat_of_history (wp_window p)"
  have ctx: "mm_messages context = pw_messages (pack_recent_window ?w (cc_max_added_chars cfg) 0)" "mm_events context = []"
    using assms(3) by (auto simp: packed_memory_def Let_def memory_of_partition_def)
  have "\<exists>r \<in> set rows. mr_role r = cm_role x \<and> prefix (cm_content x) (mr_content r)" if "x \<in> set (mm_messages context)" for x
  proof -
    from that ctx(1) pack_member obtain h where h: "h \<in> set (wp_window p)" "hm_role h = cm_role x" "prefix (cm_content x) (hm_content h)"
      by (fastforce simp: chat_of_history_def)
    with window_member [OF assms(1)] assms(2) obtain r where "r \<in> set rows" "h = history_of_row r" by blast
    with h show ?thesis by (auto simp: history_of_row_def)
  qed
  moreover have "alternates (map cm_role ?w)"
    using window_alternates [OF assms(1)] by (simp add: chat_of_history_def comp_def)
  ultimately show ?thesis
    using ctx pack_bound [of ?w "cc_max_added_chars cfg" 0] pack_alternates [of ?w "cc_max_added_chars cfg" 0]
    by (auto simp: memory_from_def)
qed

lemma evidence_of_ok:
  assumes "evidence_of mlog fold_text cfg message p context = Inr selected"
  shows "set selected \<subseteq> set (corpus_of_partition p) \<and> length selected \<le> 5
    \<and> events_size selected \<le> max (cc_max_added_chars cfg - content_chars (mm_messages context)) 0"
proof -
  let ?mx = "max (cc_max_added_chars cfg - content_chars (mm_messages context)) 0"
  from assms obtain ranked where r: "rank_events mlog fold_text (corpus_of_partition p) (query_tokens fold_text message) = Inr ranked"
    "selected = fst (pack_selected_events ranked ?mx [])"
    by (auto simp: evidence_of_def bind_result_Inr_iff)
  have "set (map re_event ranked) = set (corpus_of_partition p)"
    using rank_events_sorted(1) [OF r(1)] by (metis set_mset_mset)
  moreover obtain n where run: "pack_events ?mx [] [] 0 (map re_event ranked) = (selected, n)"
    using r(2) by (cases "pack_events ?mx [] [] 0 (map re_event ranked)") (simp add: pack_selected_events_def)
  ultimately show ?thesis
    using pack_events_ok [OF _ _ _ _ run] by (auto simp: bm25_top_k_def dest!: subseq_subset)
qed


lemma assembled_memory:
  assumes "fst (assemble_memory cfg mg fetch cid tenant t) = Inr (p, ctx, cut_by_cap)"
  obtains truncated cap_reached where "materialize_window mg fetch cid tenant = Inr (p, truncated, cap_reached)"
    "packed_memory cfg p truncated cap_reached = (ctx, cut_by_cap)"
  using assms unfolding fst_assemble_memory bind_result_Inr_iff by (auto split: prod.splits)

lemma memory_run_cases:
  fixes mlog :: "'f::linordered_field \<Rightarrow> 'f"
  obtains (none) "mn_context (get_chat_memory_context mlog fold_text cfg mg fetch q tenant c t) = no_memory"
  | (assembled) cid p truncated cap_reached ctx cut_by_cap u where
      "cc_history cfg" "cq_conversation q = Some cid"
      "materialize_window mg fetch cid tenant = Inr (p, truncated, cap_reached)"
      "packed_memory cfg p truncated cap_reached = (ctx, cut_by_cap)"
      "mn_context (get_chat_memory_context mlog fold_text cfg mg fetch q tenant c t) =
         (if cc_ebm25 cfg then fst (fst (select_evidence mlog fold_text cfg (cq_message q) p ctx u)) else ctx)"
proof (cases "cc_history cfg \<and> cq_conversation q \<noteq> None")
  case True
  then obtain cid where on: "cc_history cfg" "cq_conversation q = Some cid" by blast
  obtain r u where asm: "assemble_memory cfg mg fetch cid tenant t = (r, u)" by (cases "assemble_memory cfg mg fetch cid tenant t")
  show thesis
  proof (cases r)
    case (Inl e)
    with on asm show thesis by (intro none) (cases e; simp add: get_chat_memory_context_def)
  next
    case (Inr x)
    obtain p ctx cut_by_cap where x: "x = (p, ctx, cut_by_cap)" by (cases x)
    with Inr asm obtain truncated cap_reached where
      "materialize_window mg fetch cid tenant = Inr (p, truncated, cap_reached)"
      "packed_memory cfg p truncated cap_reached = (ctx, cut_by_cap)"
      using assembled_memory [of cfg mg fetch cid tenant t p ctx cut_by_cap] by auto
    with on asm Inr x show thesis
      by (intro assembled [of cid p truncated cap_reached ctx cut_by_cap u])
        (simp_all add: get_chat_memory_context_def Let_def split: prod.splits)
  qed
next
  case False
  then show thesis by (intro none) (auto simp: get_chat_memory_context_def)
qed

lemma selected_memory_ok:
  assumes "build_materialized_window all bounded = Inr p" "set all \<subseteq> history_of_row ` set rows"
    and "packed_memory cfg p truncated cap_reached = (ctx, cut_by_cap)"
    and "m = ctx \<or> m = fst (fst (select_evidence mlog fold_text cfg message p ctx u))"
  shows "memory_from rows m \<and> memory_within (cc_max_added_chars cfg) m \<and> mm_truncated m = mm_truncated ctx
    \<and> mm_messages m = mm_messages ctx"
proof -
  note plain = packed_memory_ok [OF assms(1-3)]
  have base: "memory_from rows ctx \<and> memory_within (cc_max_added_chars cfg) ctx"
    using plain by (simp add: memory_within_def)
  show ?thesis
  proof (cases "m = ctx")
    case False
    then obtain selected where sel: "evidence_of mlog fold_text cfg message p ctx = Inr selected"
      "m = ctx\<lparr>mm_events := map memory_event_of selected\<rparr>"
      using assms(4) by (auto simp: fst_select_evidence split: if_splits sum.splits)
    note ev = evidence_of_ok [OF sel(1)]
    have "\<exists>u. u \<noteq> [] \<and> set u \<subseteq> history_of_row ` set rows \<and> event_text e = document_text u \<and> ce_event_id e = first_sequence u"
      if "e \<in> set selected" for e
    proof -
      from that ev obtain u where "u \<in> set (wp_excluded_units p)" "e = \<lparr>ce_event_id = first_sequence u, ce_unit = u\<rparr>"
        by (auto simp: corpus_of_partition_def)
      with excluded_member [OF assms(1)] assms(2) show ?thesis by (intro exI [of _ u]) (auto simp: event_text_def)
    qed
    with plain sel(2) have "memory_from rows m" by (auto simp: memory_from_def memory_event_of_def)
    moreover have "(\<Sum>e\<leftarrow>mm_events m. ilen (me_content e)) = events_size selected"
      using sel(2) by (simp add: events_size_def memory_event_of_def comp_def)
    with plain sel(2) ev have "memory_within (cc_max_added_chars cfg) m" by (auto simp: memory_within_def)
    ultimately show ?thesis using sel(2) by simp
  qed (use base in simp)
qed


lemma capped_no_memory:
  assumes "enforce_added_context_cap no_memory r current k = (m', r', out)"
  shows "mm_messages m' = []"
  using cap_shape [OF assms] by (simp add: no_memory_def)

lemma prepared_without_memory:
  "pp_messages (prepare_turn cfg q rag no_memory c) = [chat_message_of User (cq_message q)]"
  by (auto simp: prepare_turn_def Let_def dest: capped_no_memory split: prod.split)

section \<open>Properties\<close>

text \<open>C27: the memory of a request comes from the tenant's own conversation only and within the cap. Whatever the
  session answers, every message of the window is a message of the named conversation under the caller's
  tenant with its role, verbatim or cut at its end, and every Mode B event is the text of a group of messages
  of that conversation under the sequence number of its first; together they have at most the configured number
  of characters, there are at most five events, and the window alternates between user and assistant. Without a
  conversation, or with one the tenant does not own, the memory is empty, so the request carries the user's
  message alone.\<close>

theorem memory_comes_from_own_history:
  fixes mlog :: "'f::linordered_field \<Rightarrow> 'f"
  defines "run \<equiv> \<lambda>mlog fold_text cfg mg fault s q tenant c t.
    mn_context (get_chat_memory_context (mlog :: 'f \<Rightarrow> 'f) fold_text cfg mg (history_session fault mg s) q tenant c t)"
  shows "memory_from (case cq_conversation q of None \<Rightarrow> [] | Some cid \<Rightarrow> list_messages_for_conversation s cid tenant)
       (run mlog fold_text cfg mg fault s q tenant c t)
    \<and> memory_within (cc_max_added_chars cfg) (run mlog fold_text cfg mg fault s q tenant c t)
    \<and> (Option.bind (cq_conversation q) (\<lambda>cid. get_conversation s cid tenant) = None \<longrightarrow>
         run mlog fold_text cfg mg fault s q tenant c t = no_memory
         \<and> pp_messages (prepare_turn cfg q rag (run mlog fold_text cfg mg fault s q tenant c t) c') = [chat_message_of User (cq_message q)])"
  (is "memory_from ?rows ?m \<and> ?w \<and> (?foreign \<longrightarrow> ?empty \<and> ?alone)")
proof -
  have "memory_from ?rows ?m \<and> ?w \<and> (?foreign \<longrightarrow> ?empty)"
  proof (cases rule: memory_run_cases [of mlog fold_text cfg mg "history_session fault mg s" q tenant c t])
    case none
    then show ?thesis by (simp add: run_def)
  next
    case (assembled cid p truncated cap_reached ctx cut_by_cap u)
    obtain all bounded where built: "history_session fault mg s cid tenant = Inr all" "build_materialized_window all bounded = Inr p"
      using assembled(3) by (rule materialize_window_InrD)
    note own = fetched_rows [OF built(1)]
    have "?m = ctx \<or> ?m = fst (fst (select_evidence mlog fold_text cfg (cq_message q) p ctx u))"
      using assembled(5) by (simp add: run_def)
    from selected_memory_ok [OF built(2) own(2) assembled(4) this] own(1) assembled(2) show ?thesis by auto
  qed
  moreover have "?alone" if "?empty"
    by (simp only: that prepared_without_memory)
  ultimately show ?thesis by blast
qed


text \<open>A readable history of the tenant's own conversation always becomes memory, and nothing is left out
  silently. Over a well-formed store, for a conversation the tenant owns and a positive cap, the window is
  assembled whatever the history holds, the recorded outcome is none of the degraded ones, and the window is
  marked truncated exactly when it is not the whole of the rows read, as it is marked when the row cap was
  reached.\<close>

theorem own_history_becomes_memory:
  fixes mlog :: "'f::linordered_field \<Rightarrow> 'f" and mg :: memory_config and t :: tracing
    and c :: "metric collector option" and fold_text :: "string \<Rightarrow> string"
  assumes "store_ok s" "cc_history cfg" "\<not> cc_ebm25 cfg" "cq_conversation q = Some cid"
    and "get_conversation s cid tenant = Some cv" "0 < cc_max_added_chars cfg"
  defines "rows \<equiv> map (chat_of_history \<circ> history_of_row) (list_recent_messages_for_conversation s cid tenant (mg_max_rows mg))"
    and "run \<equiv> get_chat_memory_context mlog fold_text cfg mg (history_session None mg s) q tenant c t"
  shows "(mm_truncated (mn_context run) \<longleftrightarrow> mm_messages (mn_context run) \<noteq> rows)
    \<and> (mm_row_cap_reached (mn_context run) \<longleftrightarrow> length rows = mg_max_rows mg)
    \<and> mn_degraded run = []
    \<and> (\<exists>w. w \<in> {''ok'', ''empty'', ''budget_starved''} \<and> mn_collector run = record_memory_outcome w c)"
proof -
  let ?all = "map history_of_row (list_recent_messages_for_conversation s cid tenant (mg_max_rows mg))"
  have fetch: "fetch_ordered (Some (mg_max_rows mg)) s cid tenant = Inr ?all"
    using assms(5) by (simp add: fetch_ordered_def)
  have inc: "sorted_wrt (<) (map hm_sequence ?all)"
    by (rule sql_port.fetch_increasing [OF assms(1) fetch])
  have fetched: "history_session None mg s cid tenant = Inr ?all"
    using fetch by (simp add: history_session_def)
  obtain p where p: "build_materialized_window ?all (apply_bounds (mg_max_messages mg) (mg_max_chars mg) ?all) = Inr p"
    "materialize_window mg (history_session None mg s) cid tenant
      = Inr (p, ilen (wp_window p) < ilen ?all, length ?all = mg_max_rows mg)"
    using materialize_window_readable [of "history_session None mg s", OF fetched inc] by blast
  obtain ctx cut_by_cap where packed: "packed_memory cfg p (ilen (wp_window p) < ilen ?all) (length ?all = mg_max_rows mg) = (ctx, cut_by_cap)"
    by (cases "packed_memory cfg p (ilen (wp_window p) < ilen ?all) (length ?all = mg_max_rows mg)") (rule that)
  have "fst (assemble_memory cfg mg (history_session None mg s) cid tenant t) = Inr (p, ctx, cut_by_cap)"
    using packed by (simp add: fst_assemble_memory p(2) bind_result_def)
  then obtain u where "assemble_memory cfg mg (history_session None mg s) cid tenant t = (Inr (p, ctx, cut_by_cap), u)"
    by (cases "assemble_memory cfg mg (history_session None mg s) cid tenant t") simp
  with assms(2-4) have run: "mn_context run = ctx" "mn_degraded run = []"
    "\<exists>w. w \<in> {''ok'', ''empty'', ''budget_starved''} \<and> mn_collector run = record_memory_outcome w c"
    by (auto simp: run_def get_chat_memory_context_def Let_def)
  let ?w = "map chat_of_history (wp_window p)"
  let ?packed = "pack_recent_window ?w (cc_max_added_chars cfg) 0"
  have sub: "subseq (wp_window p) ?all" by (rule window_subseq [OF p(1)])
  have same: "rows = map chat_of_history ?all" by (simp add: rows_def)
  have ctx: "mm_messages ctx = pw_messages ?packed" "mm_row_cap_reached ctx = (length rows = mg_max_rows mg)"
    "mm_truncated ctx = (length (wp_window p) < length ?all \<or> pw_messages ?packed \<noteq> ?w)"
    using packed pack_flag [of "cc_max_added_chars cfg" 0 ?w] assms(6)
    by (auto simp: packed_memory_def Let_def memory_of_partition_def rows_def ilen_def)
  have "mm_truncated ctx \<longleftrightarrow> mm_messages ctx \<noteq> rows"
  proof (cases "length (wp_window p) < length ?all")
    case True
    have "length (pw_messages ?packed) \<le> length ?w"
      using suffix_length_le [OF pack_roles [of ?w "cc_max_added_chars cfg" 0]] by simp
    with True have "length (mm_messages ctx) < length rows" by (simp add: ctx(1) same)
    with True show ?thesis using ctx(3) by auto
  next
    case False
    with sub have "wp_window p = ?all"
      using subseq_same_length [of "wp_window p" ?all] list_emb_length [OF sub] by simp
    with False show ?thesis by (simp only: ctx same simp_thms)
  qed
  with run ctx show ?thesis by auto
qed


section \<open>Witnesses\<close>

definition example_memory_config :: memory_config where
  "example_memory_config = \<lparr>mg_max_messages = 20, mg_max_chars = 8000, mg_max_rows = 200\<rparr>"

theorem memory_comes_from_own_history_witness:
  "mn_context (get_chat_memory_context (\<lambda>x. x :: rat) id example_chat_config example_memory_config
     (history_session None example_memory_config example_store)
     (example_question\<lparr>cq_conversation := Some 2\<rparr>) ''acme'' None quiet) = no_memory"
proof -
  have "Option.bind (cq_conversation (example_question\<lparr>cq_conversation := Some 2\<rparr>))
      (\<lambda>cid. get_conversation example_store cid ''acme'') = None"
    by (simp add: example_conversations)
  then show ?thesis
    using memory_comes_from_own_history [where mlog = "\<lambda>x. x :: rat" and fold_text = id and cfg = example_chat_config
        and mg = example_memory_config and fault = None and s = example_store and tenant = "''acme''"
        and q = "example_question\<lparr>cq_conversation := Some 2\<rparr>" and c = None and t = quiet] by blast
qed

theorem own_history_becomes_memory_witness:
  "\<exists>run. run = get_chat_memory_context (\<lambda>x. x :: rat) id example_chat_config example_memory_config
       (history_session None example_memory_config example_store) example_question ''acme'' None quiet
     \<and> mn_degraded run = [] \<and> (mm_truncated (mn_context run) \<longleftrightarrow> map cm_content (mm_messages (mn_context run)) \<noteq> [''hi'', ''hello''])"
proof -
  let ?rows = "map (chat_of_history \<circ> history_of_row)
    (list_recent_messages_for_conversation example_store 1 ''acme'' (mg_max_rows example_memory_config))"
  let ?run = "get_chat_memory_context (\<lambda>x. x :: rat) id example_chat_config example_memory_config
       (history_session None example_memory_config example_store) example_question ''acme'' None quiet"
  have cfg: "cc_history example_chat_config" "\<not> cc_ebm25 example_chat_config" "0 < cc_max_added_chars example_chat_config"
    by (simp_all add: example_chat_config_def)
  have rows: "?rows = [\<lparr>cm_role = User, cm_content = ''hi''\<rparr>, \<lparr>cm_role = Assistant, cm_content = ''hello''\<rparr>]"
    by code_simp
  have run: "(mm_truncated (mn_context ?run) \<longleftrightarrow> mm_messages (mn_context ?run) \<noteq> ?rows) \<and> mn_degraded ?run = []"
    using own_history_becomes_memory [OF example_store_ok cfg(1,2) example_env_simps(6) example_conversations(1) cfg(3),
        where mg = example_memory_config and mlog = "\<lambda>x. x :: rat" and fold_text = id and c = None and t = quiet] by blast
  have "mm_messages (mn_context ?run) = ?rows" by code_simp
  with run rows show ?thesis by (intro exI [of _ ?run]) simp
qed

end
