(* ===== verification/Provider_Contract.thy ===== *)
theory Provider_Contract imports Bedrock_Provider Memory_Context begin

text \<open>
  What the chat service may rely on in a provider adapter, as a locale: it fails with normalized
  errors only, and the text of its result is what its stream yielded, up to a relation \<open>keeps\<close> between the
  two. The OpenAI adapter and the placeholder for a disabled provider keep the text as it is; the
  Bedrock adapter trims it, when the SDK answers as documented; the fallback provider keeps what its two
  parts keep. The stub is outside, for it streams its words with a blank after each. Inside the locale the
  consequences for the service and the route are proved once.
\<close>

section \<open>The contract\<close>

definition normalized :: "exn \<Rightarrow> bool" where
  "normalized e = (case e of Provider_Error _ \<Rightarrow> True | _ \<Rightarrow> False)"

definition kept_final :: "(string \<Rightarrow> string \<Rightarrow> bool) \<Rightarrow> string list \<Rightarrow> (exn, provider_stream_result) result \<Rightarrow> bool" where
  "kept_final keeps chunks fin = (case fin of
     Inl e \<Rightarrow> normalized e
   | Inr r \<Rightarrow> (chunks = [] \<or> keeps (concat chunks) (psr_content r)) \<and> pr_content (psr_provider_result r) = psr_content r)"

lemma kept_final_simps [simp]:
  "kept_final keeps chunks (Inl e) = normalized e"
  "kept_final keeps chunks (Inr r) = ((chunks = [] \<or> keeps (concat chunks) (psr_content r)) \<and> pr_content (psr_provider_result r) = psr_content r)"
  by (simp_all add: kept_final_def)

definition kept_session :: "(string \<Rightarrow> string \<Rightarrow> bool) \<Rightarrow> stream_session \<Rightarrow> bool" where
  "kept_session keeps s = (ss_failure s = None \<and> kept_final keeps (ss_chunks s) (ss_final s))"

locale text_provider =
  fixes keeps :: "string \<Rightarrow> string \<Rightarrow> bool" and p :: provider_port
  assumes generate_normalized: "pv_generate p i = Inl e \<Longrightarrow> normalized e"
    and open_normalized: "pv_stream p = Some f \<Longrightarrow> f i = Inl e \<Longrightarrow> normalized e"
    and session_kept: "pv_stream p = Some f \<Longrightarrow> f i = Inr (Some s) \<Longrightarrow> kept_session keeps s"
begin

lemma outcome_classified:
  "provider_outcome sv p i = Inl e \<Longrightarrow> generation_outcome_of (provider_outcome sv p i) \<in> {''timeout'', ''provider_error''}"
  using generate_normalized [of i e]
  by (auto simp: provider_outcome_def normalized_def generation_outcome_of_def split: exn.splits if_splits)

lemma no_anonymous_failure:
  "provider_outcome sv p i = Inl e \<Longrightarrow> (\<exists>pe. translate_failure e = Chat_Execution (pe_message pe) \<and> e = Provider_Error pe)
     \<or> translate_failure e = Chat_Timeout ''provider timeout''"
  using generate_normalized [of i e]
  by (auto simp: provider_outcome_def normalized_def translate_failure_def split: exn.splits if_splits)

lemma streamed_text:
  assumes "sv_resolve sv rid ms True = Inr p" "fst (stream_chat sv rid ms metadata t) = Inr (s, traced)"
    and "cs_final s = Inr r" "cs_chunks s \<noteq> []"
  shows "cm_content (sc_assistant r) = concat (cs_chunks s) \<or> keeps (concat (cs_chunks s)) (cm_content (sc_assistant r))"
proof (cases "\<exists>f ps. pv_stream p = Some f \<and> f (provider_input_of rid ms metadata) = Inr (Some ps)")
  case True
  then obtain f ps where f: "pv_stream p = Some f" "f (provider_input_of rid ms metadata) = Inr (Some ps)" by blast
  with assms(1,2) have "s = stream_session_of rid ps" by (simp add: stream_chat_def)
  moreover have "kept_session keeps ps" using f by (rule session_kept)
  ultimately show ?thesis
    using assms(3,4) by (auto simp: kept_session_def stream_session_of_def bind_result_Inr_iff)
next
  case False
  obtain x u where run: "run_chat sv rid ms metadata t = (x, u)" by (cases "run_chat sv rid ms metadata t")
  have "fst (case (x, u) of (Inl e, u) \<Rightarrow> (Inl e, u) | (Inr r, u) \<Rightarrow> (Inr (plain_session rid r, None), u)) = Inr (s, traced)"
    using assms(1,2) run False by (auto simp: stream_chat_def Let_def split: option.splits sum.splits)
  with assms(3) show ?thesis by (cases x) (auto simp: plain_session_def)
qed

end

text \<open>A provider with a fallback keeps the contract when both parts do.\<close>

locale text_pair = first: text_provider keeps a + second: text_provider keeps b for keeps a b
begin

lemma pair_generate_normalized:
  "pv_generate (resilient_provider a b) i = Inl e \<Longrightarrow> normalized e"
  using first.generate_normalized [of i] second.generate_normalized [of i e]
  by (cases "pv_generate a i") (auto simp: resilient_provider_def resilient_generate_def Let_def split: if_splits sum.splits)

lemma start_fallback_kept:
  "start_fallback b i = Inl e \<Longrightarrow> normalized e" "start_fallback b i = Inr (Some s) \<Longrightarrow> kept_session keeps s"
  using second.open_normalized second.session_kept by (auto simp: start_fallback_def split: option.splits)

lemma kept_replay: "kept_session keeps s \<Longrightarrow> kept_session keeps (replay s)"
  by (simp add: kept_session_def replay_def session_outcome_def)

lemma kept_failed: "normalized e \<Longrightarrow> kept_session keeps (failed_session e)"
  by (simp add: kept_session_def failed_session_def)

lemma pair_stream: "pv_stream (resilient_provider a b) = Some f \<Longrightarrow> f i = stream_spec a b i"
  by (auto simp: resilient_provider_def resilient_stream_spec)

lemma spec_open_normalized: "stream_spec a b i = Inl e \<Longrightarrow> normalized e"
  using first.open_normalized start_fallback_kept(1)
  by (auto simp: stream_spec_def bind_result_def split: option.splits sum.splits if_splits)

lemma spec_session_kept:
  assumes "stream_spec a b i = Inr (Some s)"
  shows "kept_session keeps s"
proof -
  obtain f where f: "pv_stream a = Some f" using assms by (cases "pv_stream a") (auto simp: stream_spec_def)
  show ?thesis
  proof (cases "f i")
    case (Inl e)
    with assms f start_fallback_kept(2) [of i] show ?thesis
      by (auto simp: stream_spec_def bind_result_Inr_iff intro: kept_replay split: if_splits)
  next
    case (Inr os)
    with assms f obtain ps where ps: "os = Some ps" by (cases os) (auto simp: stream_spec_def)
    with Inr f have "kept_session keeps ps" by (blast intro: first.session_kept)
    moreover from this have "normalized e" if "session_outcome ps = Inl e" for e
      using that by (auto simp: kept_session_def session_outcome_def)
    ultimately show ?thesis
      using assms f Inr ps start_fallback_kept [of i]
      by (auto simp: stream_spec_def intro!: kept_replay kept_failed split: sum.splits if_splits option.splits)
  qed
qed

end

sublocale text_pair \<subseteq> both: text_provider keeps "resilient_provider a b"
proof (unfold_locales, goal_cases)
  case (1 i e)
  then show ?case by (rule pair_generate_normalized)
next
  case (2 f i e)
  then show ?case using pair_stream [of f i] spec_open_normalized [of i e] by simp
next
  case (3 f i s)
  then show ?case using pair_stream [of f i] spec_session_kept [of i s] by simp
qed

context text_pair begin

lemma pair_provider: "text_provider keeps (resilient_provider a b)"
  by (rule both.text_provider_axioms)

end

section \<open>The adapters that keep it\<close>

lemma normalized_provider_error [simp]: "normalized (Provider_Error e)" "normalized unknown_failure"
  by (simp_all add: normalized_def unknown_failure_def)

lemma consume_events_parts: "[] \<notin> set (co_parts c) \<Longrightarrow> [] \<notin> set (co_parts (consume_events fv x es c))"
  by (induction es arbitrary: c) (auto simp: Let_def split: sum.split option.split)

lemma concat_Nil_parts: "[] \<notin> set ps \<Longrightarrow> (\<forall>s \<in> set ps. s = []) \<longleftrightarrow> ps = []"
  by (cases ps) auto

lemma stream_result_kept: "[] \<notin> set (co_parts c) \<Longrightarrow> kept_final (\<lambda>s t. t = s) (co_parts c) (stream_result fv cfg latency_ms c)"
  by (auto simp: stream_result_def Let_def concat_Nil_parts split: option.split)

lemma consume_stream_kept: "kept_session (\<lambda>s t. t = s) (consume_stream fv cfg latency_ms lines x)"
  by (auto simp: consume_stream_def kept_session_def Let_def consume_events_parts intro!: stream_result_kept split: prod.split)

interpretation openai: text_provider "\<lambda>s t. t = s" "openai_port fv jitter cfg post open_stream latency_ms"
proof (unfold_locales, goal_cases)
  case (1 i e)
  then show ?case
    by (auto simp: openai_port_def openai_generate_def openai_run_def read_answer_def
        split: prod.splits sum.splits exn.splits option.splits json.splits)
next
  case (2 f i e)
  then show ?case
    by (auto simp: openai_port_def openai_stream_def split: sum.splits client_exn.splits if_splits)
next
  case (3 f i s)
  then show ?case
    by (auto simp: openai_port_def openai_stream_def consume_stream_kept split: sum.splits client_exn.splits if_splits)
qed

interpretation disabled: text_provider keeps "disabled_port name" for keeps name
  by unfold_locales (auto simp: disabled_port_def)

interpretation openai_or_disabled: text_pair "\<lambda>s t. t = s" "openai_port fv jitter cfg post open_stream latency_ms" "disabled_port name"
  by unfold_locales

lemma bedrock_safe_normalized: "bedrock_safe e \<Longrightarrow> normalized e"
  by (cases e) (simp_all add: bedrock_safe_def)

lemma consume_bedrock_kept: "kept_session (\<lambda>s t. t = text_or_empty s) (consume_bedrock_stream fv cfg latency_ms opened)"
  by (auto simp: consume_bedrock_stream_def kept_session_def bedrock_stream_result_def bedrock_result_from_parts_def Let_def split: option.split)

lemma bedrock_text_provider:
  assumes "answers_ok sdk"
  shows "text_provider (\<lambda>s t. t = text_or_empty s) (bedrock_port fv jitter cfg sdk latency_ms)"
proof (unfold_locales, goal_cases)
  case (1 i e)
  then show ?case using bedrock_generate_failure[OF _ assms] bedrock_safe_normalized by (auto simp: bedrock_port_def)
next
  case (2 f i e)
  then show ?case using bedrock_stream_failure[OF _ assms] bedrock_safe_normalized by (auto simp: bedrock_port_def)
next
  case (3 f i s)
  then show ?case by (auto simp: bedrock_port_def bedrock_stream_def bind_result_Inr_iff consume_bedrock_kept)
qed

lemma text_provider_weaken:
  assumes "text_provider k p" and "\<And>s t. k s t \<Longrightarrow> k' s t"
  shows "text_provider k' p"
proof -
  have "kept_session k s \<Longrightarrow> kept_session k' s" for s
    using assms(2) by (auto simp: kept_session_def kept_final_def split: sum.splits)
  then show ?thesis using assms(1) unfolding text_provider_def by blast
qed

section \<open>Production trees\<close>

text \<open>The providers the factory builds from the two remote adapters, placeholders and fallbacks, and how the
  text a tree stores relates to the text it showed.\<close>

fun production_tree :: "built_provider \<Rightarrow> bool" where
  "production_tree (Resilient_Provider a b) = (production_tree a \<and> production_tree b)"
| "production_tree (Stub_Provider mode) = False"
| "production_tree (Openai_Provider c) = True"
| "production_tree (Bedrock_Provider c) = True"
| "production_tree (Disabled_Provider name reason) = True"

fun may_trim :: "built_provider \<Rightarrow> bool" where
  "may_trim (Resilient_Provider a b) = (may_trim a \<or> may_trim b)"
| "may_trim (Bedrock_Provider c) = True"
| "may_trim (Stub_Provider mode) = False"
| "may_trim (Openai_Provider c) = False"
| "may_trim (Disabled_Provider name reason) = False"

definition stored_as :: "built_provider \<Rightarrow> string \<Rightarrow> string \<Rightarrow> bool" where
  "stored_as b shown text = (text = shown \<or> may_trim b \<and> text = text_or_empty shown)"

text \<open>The adapter of a built configuration; the remaining constants are those of the settings.\<close>

definition openai_of ::
    "(string \<Rightarrow> rat option) \<Rightarrow> (int \<Rightarrow> int \<Rightarrow> int) \<Rightarrow> openai_provider_config \<Rightarrow> http_post \<Rightarrow> http_stream \<Rightarrow> int
     \<Rightarrow> openai_config \<Rightarrow> provider_port" where
  "openai_of fv jitter base post open_stream latency_ms c =
     openai_port fv jitter (base\<lparr>op_api_key := oc_api_key c, op_model := oc_model c\<rparr>) post open_stream latency_ms"

definition bedrock_of ::
    "(string \<Rightarrow> rat option) \<Rightarrow> (int \<Rightarrow> int \<Rightarrow> int) \<Rightarrow> bedrock_provider_config \<Rightarrow> bedrock_sdk \<Rightarrow> int
     \<Rightarrow> bedrock_config \<Rightarrow> provider_port" where
  "bedrock_of fv jitter base sdk latency_ms c =
     bedrock_port fv jitter (base\<lparr>bp_region := bc_region c, bp_model := bc_model c, bp_prompt_version := bc_prompt_version c\<rparr>) sdk latency_ms"

lemma production_tree_provider:
  assumes "answers_ok sdk"
  shows "production_tree b \<Longrightarrow> text_provider (stored_as b)
    (port_of stub (openai_of fv jitter base post open_stream latency_ms) (bedrock_of fv jitter bbase sdk latency_ms) b)"
proof (induction b)
  case (Openai_Provider c)
  then show ?case using text_provider_weaken[OF openai.text_provider_axioms] by (simp add: openai_of_def stored_as_def)
next
  case (Bedrock_Provider c)
  then show ?case using text_provider_weaken[OF bedrock_text_provider[OF assms]] by (simp add: bedrock_of_def stored_as_def)
next
  case (Disabled_Provider name reason)
  then show ?case using disabled.text_provider_axioms by simp
next
  case (Resilient_Provider a b)
  let ?port = "port_of stub (openai_of fv jitter base post open_stream latency_ms) (bedrock_of fv jitter bbase sdk latency_ms)"
  have "stored_as a s t \<Longrightarrow> stored_as (Resilient_Provider a b) s t" "stored_as b s t \<Longrightarrow> stored_as (Resilient_Provider a b) s t" for s t
    by (auto simp: stored_as_def)
  then have "text_provider (stored_as (Resilient_Provider a b)) (?port a)" "text_provider (stored_as (Resilient_Provider a b)) (?port b)"
    using Resilient_Provider text_provider_weaken by (metis production_tree.simps(1))+
  then have "text_pair (stored_as (Resilient_Provider a b)) (?port a) (?port b)" by (rule text_pair.intro)
  then show ?case using text_pair.pair_provider by simp
qed simp_all

lemma token_frames_done:
  assumes "token_frames xs @ [f] = token_frames ys @ rest" "rest = [] \<or> (\<exists>g. rest = [g] \<and> fst g = ''error'')"
    and "fst f = ''done''"
  shows False
  using assms by (cases ys rule: rev_cases) (auto simp: token_frames_def)

lemma token_frames_inject [simp]: "token_frames xs = token_frames ys \<longleftrightarrow> xs = ys"
  by (auto simp: token_frames_def inj_on_def inj_map_eq_map)

text \<open>A stream that worked over a working database ends with \<open>done\<close>.\<close>

lemma stream_turn_done:
  assumes "turn_goes_through en q (rt_store st)" "p = prepare_turn (en_config en) q rag memory (en_collector en)"
    and "stream_chat (en_service en) (en_request en) (pp_messages p) (pp_metadata p) (rt_tracing st) = (Inr (session, traced), t)"
    and "cs_failure session = None" "cs_final session = Inr r"
  shows "\<exists>st'. stream_turn en q rag memory None st = (token_frames (cs_chunks session) @ [done_frame en q p], st')"
proof -
  let ?content = "py_truncate (cm_content (sc_assistant r)) (cc_max_assistant_chars (en_config en))"
  have "\<exists>mp s. stream_transaction en q ?content (map_option psr_provider_result (sc_provider r)) (rt_store st) = (Inr (), mp, s)"
    using assms(1) by (auto simp: stream_transaction_def turn_steps turn_goes_through_def split: if_splits option.splits)
  then have "\<exists>mp s. persist_stream en q p (Inr r) (rt_store st) = (done_frame en q p, ''ok'', mp, s)"
    by (auto simp: persist_stream_def Let_def)
  with assms(2-) show ?thesis by (auto simp: stream_turn_def Let_def departed_def)
qed

section \<open>Properties\<close>



section \<open>Witnesses\<close>

definition example_opening :: http_stream where
  "example_opening payload = Inr \<lparr>os_status = 200,
     os_lines = concat (map (wire_event True) (map delta_event [''hi'', '' there''])), os_failure = None\<rparr>"

definition example_openai :: "openai_config \<Rightarrow> provider_port" where
  "example_openai = openai_of (\<lambda>l. None) (\<lambda>a m. 0) example_openai_config (\<lambda>j a. Inl Httpx_Timeout) example_opening 5"

definition example_bedrock :: "bedrock_config \<Rightarrow> provider_port" where
  "example_bedrock = bedrock_of (\<lambda>l. None) (\<lambda>a m. 0) example_bedrock_config example_sdk 5"

lemma example_sdk_ok: "answers_ok example_sdk"
  by (simp add: answers_ok_def example_sdk_def)

definition example_tree :: built_provider where
  "example_tree = Openai_Provider \<lparr>oc_api_key = ''key'', oc_model = ''gpt''\<rparr>"

definition openai_env :: "(string \<Rightarrow> string option) chat_env" where
  "openai_env = example_env\<lparr>en_service := \<lparr>
     sv_resolve = (\<lambda>rid ms stream. Inr (port_of disabled_port example_openai example_bedrock example_tree)),
     sv_timed_out = (\<lambda>p i. False)\<rparr>\<rparr>"

lemma example_openai_session:
  "\<exists>f ps r. pv_stream (port_of disabled_port example_openai example_bedrock example_tree) = Some f
    \<and> f i = Inr (Some ps) \<and> ss_chunks ps = [''hi'', '' there''] \<and> ss_failure ps = None \<and> ss_final ps = Inr r"
  by (simp add: example_tree_def example_openai_def openai_of_def openai_port_def openai_stream_def example_opening_def
      stream_without_completion [where ds = "[''hi'', '' there'']", simplified])


end
