(* ===== verification/Chunking.thy ===== *)
theory Chunking imports Domain_Types begin

text \<open>
  Chunking for the ingestion of documents (\<open>app/services/rag_chunking.py\<close>): overlapping character
  windows, sections of Markdown headers with their path, and the top-level definitions of a Python
  source. \<open>ast_top\<close> is \<open>ast.parse\<close>: none for a syntax error, otherwise the line and the name of
  each top-level function or class, in order.
\<close>

section \<open>Windows\<close>

definition default_chunk_size :: int where
  "default_chunk_size = 500"

definition default_overlap :: int where
  "default_overlap = 75"

record raw_chunk =
  rc_text :: string
  rc_section :: string

text \<open>The loop over \<open>start\<close>. The step is positive wherever the guards let the loop run.\<close>

function split_from :: "nat \<Rightarrow> nat \<Rightarrow> string \<Rightarrow> nat \<Rightarrow> string list" where
  "split_from width step s start =
     (if 0 < step \<and> start < length s
      then (let stop = min (start + width) (length s);
                piece = py_strip (take (stop - start) (drop start s))
            in (if piece \<noteq> [] then [piece] else [])
               @ (if stop = length s then [] else split_from width step s (start + step)))
      else [])"
  by pat_completeness auto
termination
  by (relation "measure (\<lambda>(width, step, s, start). length s - start)") auto

declare split_from.simps [simp del]

definition value_error :: "string \<Rightarrow> exn" where
  "value_error m = Other_Error ''ValueError'' m"

definition split_recursive :: "string \<Rightarrow> int \<Rightarrow> int \<Rightarrow> (exn, string list) result" where
  "split_recursive text chunk_size overlap =
     (let stripped = py_strip text in
      if stripped = [] then Inr []
      else if chunk_size \<le> 0 then Inl (value_error ''chunk_size must be positive'')
      else if overlap < 0 \<or> overlap \<ge> chunk_size then Inl (value_error ''overlap must be >= 0 and < chunk_size'')
      else if ilen stripped \<le> chunk_size then Inr [stripped]
      else Inr (split_from (nat chunk_size) (nat (chunk_size - overlap)) stripped 0))"

definition split_section :: "int \<Rightarrow> int \<Rightarrow> string \<times> string \<Rightarrow> (exn, raw_chunk list) result" where
  "split_section chunk_size overlap sec = (case sec of (section_path, section_text) \<Rightarrow>
     bind_result (split_recursive section_text chunk_size overlap)
       (\<lambda>pieces. Inr (map (\<lambda>c. \<lparr>rc_text = c, rc_section = section_path\<rparr>) pieces)))"

fun split_sections :: "int \<Rightarrow> int \<Rightarrow> (string \<times> string) list \<Rightarrow> (exn, raw_chunk list) result" where
  "split_sections chunk_size overlap [] = Inr []"
| "split_sections chunk_size overlap (sec # secs) =
     bind_result (split_section chunk_size overlap sec) (\<lambda>cs.
     bind_result (split_sections chunk_size overlap secs) (\<lambda>ds. Inr (cs @ ds)))"

section \<open>Markdown\<close>

text \<open>The header at the start of a line: one to six hashes and white space, which may span lines, then the rest
  of the line it ends on. What follows starts with the line feed after the title, if there is one.\<close>

definition header_at :: "string \<Rightarrow> (nat \<times> string \<times> string) option" where
  "header_at s =
     (let hashes = takeWhile (\<lambda>c. c = CHR ''#'') s;
          after = dropWhile (\<lambda>c. c = CHR ''#'') s;
          blanks = takeWhile py_space after;
          body = dropWhile py_space after
      in if 1 \<le> length hashes \<and> length hashes \<le> 6 \<and> blanks \<noteq> []
         then Some (length hashes, takeWhile (\<lambda>c. c \<noteq> CHR 0x0A) body, dropWhile (\<lambda>c. c \<noteq> CHR 0x0A) body)
         else None)"

lemma header_at_length: "header_at s = Some (level, title, rest) \<Longrightarrow> length rest < length s"
proof -
  assume h: "header_at s = Some (level, title, rest)"
  let ?after = "dropWhile (\<lambda>c. c = CHR ''#'') s"
  from h have "takeWhile (\<lambda>c. c = CHR ''#'') s \<noteq> []" "rest = dropWhile (\<lambda>c. c \<noteq> CHR 0x0A) (dropWhile py_space ?after)"
    by (auto simp: header_at_def Let_def split: if_splits)
  moreover from this have "length ?after < length s"
    by (cases s) (auto simp: less_Suc_eq_le length_dropWhile_le split: if_splits)
  ultimately show ?thesis by (metis length_dropWhile_le le_less_trans)
qed

text \<open>The text before the first header, and each header's level and title with the text up to the next.\<close>

function md_split :: "bool \<Rightarrow> string \<Rightarrow> string \<times> (nat \<times> string \<times> string) list" where
  "md_split line_start s = (case (if line_start then header_at s else None) of
     Some (level, title, rest) \<Rightarrow> (case md_split False rest of
         (body, hs) \<Rightarrow> ([], (level, title, body) # hs))
   | None \<Rightarrow> (case s of
         [] \<Rightarrow> ([], [])
       | c # cs \<Rightarrow> (case md_split (c = CHR 0x0A) cs of (pre, hs) \<Rightarrow> (c # pre, hs))))"
  by pat_completeness auto
termination
  by (relation "measure (\<lambda>(b, s). length s)") (auto simp: header_at_length split: if_splits)

declare md_split.simps [simp del]

definition push_header :: "nat \<Rightarrow> string \<Rightarrow> (nat \<times> string) list \<Rightarrow> (nat \<times> string) list" where
  "push_header level title path = rev (dropWhile (\<lambda>h. fst h \<ge> level) (rev path)) @ [(level, title)]"

definition path_text :: "(nat \<times> string) list \<Rightarrow> string" where
  "path_text path = py_join '' > '' (map snd path)"

definition section_text :: "string \<Rightarrow> string \<Rightarrow> string" where
  "section_text title body = (if body \<noteq> [] then py_strip (title @ [CHR 0x0A] @ body) else title)"

fun md_sections :: "(nat \<times> string) list \<Rightarrow> (nat \<times> string \<times> string) list \<Rightarrow> (string \<times> string) list" where
  "md_sections path [] = []"
| "md_sections path ((level, raw_title, raw_body) # hs) =
     (let title = py_strip raw_title;
          body = py_strip raw_body;
          path' = push_header level title path
      in (path_text path', section_text title body) # md_sections path' hs)"

definition split_markdown :: "string \<Rightarrow> int \<Rightarrow> int \<Rightarrow> (exn, raw_chunk list) result" where
  "split_markdown text chunk_size overlap = (case md_split True text of
     (pre, hs) \<Rightarrow>
       if hs = [] then split_section chunk_size overlap ([], text)
       else (let preamble = py_strip pre
             in split_sections chunk_size overlap
                  ((if preamble \<noteq> [] then [([], preamble)] else []) @ md_sections [] hs)))"

section \<open>Python\<close>

text \<open>\<open>splitlines(keepends=True)\<close>: the line boundaries of \<open>str\<close>, which are more than those of the language.\<close>

definition line_break :: "char \<Rightarrow> bool" where
  "line_break c = (let n = code_point c in n = 10 \<or> n = 11 \<or> n = 12 \<or> n = 13 \<or> n = 28 \<or> n = 29 \<or> n = 30 \<or> n = 133)"

fun split_lines :: "string \<Rightarrow> string \<Rightarrow> string list" where
  "split_lines acc [] = (if acc = [] then [] else [acc])"
| "split_lines acc (c # cs) =
     (if c = CHR 0x0D \<and> cs \<noteq> [] \<and> hd cs = CHR 0x0A then split_lines (acc @ [c]) cs
      else if line_break c then (acc @ [c]) # split_lines [] cs
      else split_lines (acc @ [c]) cs)"

fun node_sections :: "string list \<Rightarrow> (nat \<times> string) list \<Rightarrow> (string \<times> string) list" where
  "node_sections lines [] = []"
| "node_sections lines ((lineno, name) # nodes) =
     (let start = lineno - 1;
          stop = (case nodes of (next, _) # _ \<Rightarrow> next - 1 | [] \<Rightarrow> length lines);
          body = py_strip (concat (drop start (take stop lines)))
      in (if body \<noteq> [] then [(name, body)] else []) @ node_sections lines nodes)"

definition split_python :: "(string \<Rightarrow> (nat \<times> string) list option) \<Rightarrow> string \<Rightarrow> int \<Rightarrow> int \<Rightarrow> (exn, raw_chunk list) result" where
  "split_python ast_top source chunk_size overlap = (case ast_top source of
     None \<Rightarrow> split_section chunk_size overlap ([], source)
   | Some nodes \<Rightarrow>
       if nodes = [] then split_section chunk_size overlap ([], source)
       else (let lines = split_lines [] source;
                 first_line = Min (set (map fst nodes));
                 preamble = py_strip (concat (take (first_line - 1) lines))
             in split_sections chunk_size overlap
                  ((if preamble \<noteq> [] then [(''<module>'', preamble)] else []) @ node_sections lines nodes)))"

definition chunk_document ::
    "(string \<Rightarrow> (nat \<times> string) list option) \<Rightarrow> string \<Rightarrow> string \<Rightarrow> int \<Rightarrow> int \<Rightarrow> (exn, raw_chunk list) result" where
  "chunk_document ast_top doc_type text chunk_size overlap =
     (if doc_type = ''markdown'' then split_markdown text chunk_size overlap
      else if doc_type = ''python'' then split_python ast_top text chunk_size overlap
      else split_section chunk_size overlap ([], text))"


section \<open>Windows cover the text\<close>

definition window :: "nat \<Rightarrow> nat \<Rightarrow> string \<Rightarrow> nat \<Rightarrow> string" where
  "window width step s i = take width (drop (i * step) s)"

lemma split_from_windows:
  assumes "0 < step" "start < length s"
  shows "\<exists>n. split_from width step s start
        = filter (\<lambda>c. c \<noteq> []) (map (\<lambda>i. py_strip (take width (drop (start + i * step) s))) [0..<Suc n])
    \<and> (\<forall>i < n. start + i * step + width < length s)
    \<and> start + n * step < length s + step \<and> (step \<le> width \<longrightarrow> length s \<le> start + n * step + width)"
  using assms
proof (induction width step s start rule: split_from.induct)
  case (1 width step s start)
  let ?stop = "min (start + width) (length s)"
  have piece: "take (?stop - start) (drop start s) = take width (drop start s)"
    using "1.prems"(2) by (simp add: min_def)
  show ?case
  proof (cases "?stop = length s")
    case True
    then have "length s \<le> start + width" by simp
    with "1.prems" piece True show ?thesis
      by (intro exI [of _ 0]) (simp add: split_from.simps [of width step s start] Let_def)
  next
    case False
    then have more: "start + width < length s" by simp
    show ?thesis
    proof (cases "start + step < length s")
      case True
      from "1.IH" [OF _ refl refl False \<open>0 < step\<close> True] "1.prems" obtain n where
        n: "split_from width step s (start + step) = filter (\<lambda>c. c \<noteq> [])
             (map (\<lambda>i. py_strip (take width (drop (start + step + i * step) s))) [0..<Suc n])"
          "\<forall>i < n. start + step + i * step + width < length s"
          "start + step + n * step < length s + step"
          "step \<le> width \<longrightarrow> length s \<le> start + step + n * step + width" by auto
      have upt: "[0..<Suc (Suc n)] = 0 # map Suc [0..<Suc n]" by (metis upt_conv_Cons map_Suc_upt zero_less_Suc)
      have "split_from width step s start = (if py_strip (take width (drop start s)) \<noteq> [] then [py_strip (take width (drop start s))] else [])
          @ split_from width step s (start + step)"
        using "1.prems" False piece more by (simp add: split_from.simps [of width step s start] Let_def)
      then have "split_from width step s start = filter (\<lambda>c. c \<noteq> [])
          (map (\<lambda>i. py_strip (take width (drop (start + i * step) s))) [0..<Suc (Suc n)])"
        unfolding upt n(1) by (simp add: comp_def algebra_simps del: upt_Suc)
      moreover have "\<forall>i < Suc n. start + i * step + width < length s"
        using n(2) more by (auto simp: less_Suc_eq_0_disj algebra_simps)
      ultimately show ?thesis using n(3,4) by (intro exI [of _ "Suc n"]) (simp add: algebra_simps)
    next
      case end_reached: False
      have "split_from width step s (start + step) = []"
        using end_reached by (simp add: split_from.simps [of width step s "start + step"])
      with "1.prems" False piece end_reached more show ?thesis
        by (intro exI [of _ 0]) (auto simp: split_from.simps [of width step s start] Let_def)
    qed
  qed
qed


lemma windows_cover:
  fixes step width len n k :: nat
  assumes "0 < step" "step \<le> width" "len \<le> n * step + width" "k < len"
  shows "\<exists>i \<le> n. i * step \<le> k \<and> k < i * step + width"
proof (cases "k div step \<le> n")
  case True
  have "k < k div step * step + step"
    using dividend_less_times_div [OF assms(1), of k] by (simp add: mult.commute add.commute)
  with True assms(2) show ?thesis by (intro exI [of _ "k div step"]) (simp add: div_times_less_eq_dividend)
next
  case False
  then have "n * step \<le> k div step * step" by (intro mult_le_mono1) simp
  also have "\<dots> \<le> k" by (rule div_times_less_eq_dividend)
  finally show ?thesis using assms by (intro exI [of _ n]) simp
qed

lemma split_recursive_windows:
  assumes "0 < chunk_size" "0 \<le> overlap" "overlap < chunk_size" "py_strip text \<noteq> []"
  shows "\<exists>n. split_recursive text chunk_size overlap = Inr (filter (\<lambda>c. c \<noteq> [])
        (map (py_strip \<circ> window (nat chunk_size) (nat (chunk_size - overlap)) (py_strip text)) [0..<Suc n]))
    \<and> (\<forall>k < length (py_strip text). \<exists>i \<le> n. i * nat (chunk_size - overlap) \<le> k \<and> k < i * nat (chunk_size - overlap) + nat chunk_size)
    \<and> (\<forall>i < n. i * nat (chunk_size - overlap) + nat chunk_size < length (py_strip text))"
proof (cases "ilen (py_strip text) \<le> chunk_size")
  case True
  then have "length (py_strip text) \<le> nat chunk_size" by (simp add: ilen_def)
  with True assms show ?thesis
    by (intro exI [of _ 0]) (simp add: split_recursive_def Let_def window_def)
next
  case False
  let ?step = "nat (chunk_size - overlap)"
  let ?width = "nat chunk_size"
  have ok: "0 < ?step" "?step \<le> ?width" "0 < length (py_strip text)" using assms by auto
  from split_from_windows [OF ok(1,3), of ?width] obtain n where
    n: "split_from ?width ?step (py_strip text) 0 = filter (\<lambda>c. c \<noteq> [])
          (map (\<lambda>i. py_strip (take ?width (drop (0 + i * ?step) (py_strip text)))) [0..<Suc n])"
       "\<forall>i < n. 0 + i * ?step + ?width < length (py_strip text)"
       "length (py_strip text) \<le> 0 + n * ?step + ?width" using ok(2) by blast
  have "\<exists>i \<le> n. i * ?step \<le> k \<and> k < i * ?step + ?width" if "k < length (py_strip text)" for k
    using windows_cover [OF ok(1,2) _ that, of n] n(3) by simp
  with n False assms show ?thesis
    by (intro exI [of _ n]) (simp add: split_recursive_def Let_def window_def comp_def del: upt_Suc)
qed

lemma split_recursive_bounds:
  assumes "split_recursive text chunk_size overlap = Inr cs" "c \<in> set cs"
  shows "c \<noteq> [] \<and> ilen c \<le> chunk_size"
proof -
  have ne: "py_strip text \<noteq> []" "0 < chunk_size" "0 \<le> overlap" "overlap < chunk_size"
    using assms by (auto simp: split_recursive_def Let_def split: if_splits)
  from split_recursive_windows [OF ne(2-4,1)] assms(1) obtain n where
    "cs = filter (\<lambda>c. c \<noteq> []) (map (py_strip \<circ> window (nat chunk_size) (nat (chunk_size - overlap)) (py_strip text)) [0..<Suc n])"
    by auto
  with assms(2) obtain i where c: "c \<noteq> []" "c = py_strip (window (nat chunk_size) (nat (chunk_size - overlap)) (py_strip text) i)"
    by (auto simp del: upt_Suc)
  have "length (window (nat chunk_size) (nat (chunk_size - overlap)) (py_strip text) i) \<le> nat chunk_size"
    by (simp add: window_def)
  then have "length c \<le> nat chunk_size" unfolding c(2) using length_py_strip le_trans by blast
  with c(1) ne(2) show ?thesis by (simp add: ilen_def)
qed


section \<open>Headers\<close>

definition header_raw :: "nat \<Rightarrow> string \<Rightarrow> bool" where
  "header_raw level raw = (1 \<le> level \<and> level \<le> 6
     \<and> (\<exists>blanks. blanks \<noteq> [] \<and> list_all py_space blanks \<and> raw = replicate level (CHR ''#'') @ blanks))"

definition spelled :: "string list \<Rightarrow> (nat \<times> string \<times> string) list \<Rightarrow> string" where
  "spelled raws hs = concat (map (\<lambda>(raw, level, title, body). raw @ title @ body) (zip raws hs))"

lemma takeWhile_replicate: "takeWhile (\<lambda>c. c = x) s = replicate (length (takeWhile (\<lambda>c. c = x) s)) x"
  by (induction s) auto

lemma header_at_SomeD:
  assumes "header_at s = Some (level, title, rest)"
  shows "\<exists>raw. header_raw level raw \<and> s = raw @ title @ rest"
proof -
  let ?hashes = "takeWhile (\<lambda>c. c = CHR ''#'') s"
  let ?after = "dropWhile (\<lambda>c. c = CHR ''#'') s"
  let ?body = "dropWhile py_space ?after"
  from assms have h: "level = length ?hashes" "1 \<le> level" "level \<le> 6" "takeWhile py_space ?after \<noteq> []"
    "title = takeWhile (\<lambda>c. c \<noteq> CHR 0x0A) ?body" "rest = dropWhile (\<lambda>c. c \<noteq> CHR 0x0A) ?body"
    by (auto simp: header_at_def Let_def split: if_splits)
  have "header_raw level (?hashes @ takeWhile py_space ?after)"
    using h takeWhile_replicate [of "CHR ''#''" s]
    by (auto simp: header_raw_def list_all_iff dest: set_takeWhileD intro!: exI [of _ "takeWhile py_space ?after"])
  moreover have "s = (?hashes @ takeWhile py_space ?after) @ title @ rest"
    by (simp add: h(5,6))
  ultimately show ?thesis by blast
qed

lemma md_split_text:
  "md_split b s = (pre, hs) \<Longrightarrow> \<exists>raws. list_all2 (\<lambda>raw h. header_raw (fst h) raw) raws hs \<and> s = pre @ spelled raws hs"
proof (induction b s arbitrary: pre hs rule: md_split.induct)
  case (1 b s)
  show ?case
  proof (cases "if b then header_at s else None")
    case None
    show ?thesis
    proof (cases s)
      case Nil
      from "1.prems" None show ?thesis
        unfolding Nil by (intro exI [of _ "[]"]) (simp add: md_split.simps [of b "[]"] spelled_def)
    next
      case (Cons c cs)
      obtain pre' where rec: "md_split (c = CHR 0x0A) cs = (pre', hs)" "pre = c # pre'"
        using "1.prems" None unfolding Cons
        by (cases "md_split (c = CHR 0x0A) cs") (auto simp: md_split.simps [of b "c # cs"])
      from "1.IH"(1) [OF None Cons rec(1)] rec(2) Cons show ?thesis by auto
    qed
  next
    case (Some h)
    obtain level title rest where h: "h = (level, title, rest)" by (cases h)
    obtain body hs' where rec: "md_split False rest = (body, hs')" by (cases "md_split False rest")
    with "1.prems" Some h have now: "pre = []" "hs = (level, title, body) # hs'"
      by (auto simp: md_split.simps [of b s])
    from "1.IH"(2) [OF Some h [symmetric] refl rec] obtain raws where
      raws: "list_all2 (\<lambda>raw h. header_raw (fst h) raw) raws hs'" "rest = body @ spelled raws hs'" by blast
    from Some h have "header_at s = Some (level, title, rest)" by (simp split: if_splits)
    then obtain raw where "header_raw level raw" "s = raw @ title @ rest" using header_at_SomeD by blast
    with raws now show ?thesis by (intro exI [of _ "raw # raws"]) (simp add: spelled_def)
  qed
qed

lemma md_split_levels: "md_split b s = (pre, hs) \<Longrightarrow> h \<in> set hs \<Longrightarrow> 1 \<le> fst h \<and> fst h \<le> 6"
  using md_split_text [of b s pre hs] by (auto simp: header_raw_def list_all2_conv_all_nth in_set_conv_nth)

text \<open>Section paths: levels strictly deepen.\<close>

definition nested_path :: "(nat \<times> string) list \<Rightarrow> bool" where
  "nested_path path = sorted_wrt (<) (map fst path)"

lemma push_header_nested:
  assumes "nested_path path"
  shows "nested_path (push_header level title path)"
    and "set (push_header level title path) \<subseteq> insert (level, title) (set path)"
proof -
  let ?kept = "dropWhile (\<lambda>h. fst h \<ge> level) (rev path)"
  have dec: "sorted_wrt (>) (map fst (rev path))"
    using assms by (simp add: nested_path_def rev_map [symmetric] sorted_wrt_rev)
  have low: "sorted_wrt (>) (map fst hs) \<Longrightarrow> \<forall>h \<in> set (dropWhile (\<lambda>h. fst h \<ge> level) hs). fst h < level
      \<and> sorted_wrt (>) (map fst (dropWhile (\<lambda>h. fst h \<ge> level) hs))" for hs :: "(nat \<times> string) list"
    by (induction hs) auto
  have "sorted_wrt (>) (map fst (dropWhile (\<lambda>h. fst h \<ge> level) hs))" if "sorted_wrt (>) (map fst hs)" for hs :: "(nat \<times> string) list"
    using that by (induction hs) auto
  with low dec have "sorted_wrt (>) (map fst ?kept)" "\<forall>h \<in> set ?kept. fst h < level" by blast+
  then show "nested_path (push_header level title path)"
    by (auto simp: nested_path_def push_header_def sorted_wrt_append rev_map [symmetric] sorted_wrt_rev)
  show "set (push_header level title path) \<subseteq> insert (level, title) (set path)"
    by (auto simp: push_header_def dest: set_dropWhileD)
qed

lemma md_sections_paths:
  assumes "(sec, tx) \<in> set (md_sections path hs)" "nested_path path"
  shows "\<exists>p. sec = path_text p \<and> nested_path p \<and> p \<noteq> []
    \<and> set p \<subseteq> set path \<union> (\<lambda>(level, title, body). (level, py_strip title)) ` set hs"
  using assms
proof (induction path hs rule: md_sections.induct)
  case (2 path level raw_title raw_body hs)
  let ?path = "push_header level (py_strip raw_title) path"
  note here = push_header_nested [OF 2(3), of level "py_strip raw_title"]
  show ?case
  proof (cases "(sec, tx) \<in> set (md_sections ?path hs)")
    case True
    from 2(1) [OF refl refl refl True here(1)] obtain p where p: "sec = path_text p" "nested_path p" "p \<noteq> []"
      "set p \<subseteq> set ?path \<union> (\<lambda>(level, title, body). (level, py_strip title)) ` set hs" by (elim exE conjE) (rule that)
    with here(2) show ?thesis by (intro exI [of _ p]) auto
  next
    case False
    with 2(2) have "sec = path_text ?path" by (auto simp: Let_def)
    with here show ?thesis by (intro exI [of _ ?path]) (auto simp: push_header_def)
  qed
qed simp


lemma split_sections_chunks:
  assumes "split_sections chunk_size overlap secs = Inr cs" "c \<in> set cs"
  shows "\<exists>tx pieces. (rc_section c, tx) \<in> set secs \<and> split_recursive tx chunk_size overlap = Inr pieces \<and> rc_text c \<in> set pieces"
  using assms
proof (induction secs arbitrary: cs)
  case (Cons sec secs)
  obtain path tx where sec: "sec = (path, tx)" by (cases sec)
  from Cons.prems(1) sec obtain pieces ds where
    run: "split_recursive tx chunk_size overlap = Inr pieces" "split_sections chunk_size overlap secs = Inr ds"
      "cs = map (\<lambda>t. \<lparr>rc_text = t, rc_section = path\<rparr>) pieces @ ds"
    by (auto simp: split_section_def bind_result_Inr_iff)
  show ?case
  proof (cases "c \<in> set ds")
    case True
    from Cons.IH [OF run(2) True] show ?thesis by auto
  next
    case False
    with Cons.prems(2) run sec show ?thesis by auto
  qed
qed simp

lemma split_sections_total:
  assumes "0 < chunk_size" "0 \<le> overlap" "overlap < chunk_size"
  shows "\<exists>cs. split_sections chunk_size overlap secs = Inr cs"
proof -
  have ok: "\<exists>ps. split_recursive tx chunk_size overlap = Inr ps" for tx
    using assms by (simp add: split_recursive_def Let_def)
  have "\<exists>cs. split_section chunk_size overlap sec = Inr cs" for sec
    using ok [of "snd sec"] by (auto simp: split_section_def bind_result_def split: prod.split)
  then show ?thesis
  proof (induction secs)
    case (Cons sec secs)
    then obtain cs ds where "split_section chunk_size overlap sec = Inr cs" "split_sections chunk_size overlap secs = Inr ds"
      by blast
    then show ?case by (simp add: bind_result_def)
  qed simp
qed

section \<open>Properties\<close>

text \<open>C32: chunking loses nothing and stays within its size. With a valid size and overlap the windows taken from a
  text start at multiples of the step and together contain every one of its characters, none but the last
  reaching the end, and the chunks are those windows stripped, without the blank ones. The chunks of a Markdown
  document are never empty nor longer than the size, each carries the path of its section, whose header levels
  strictly deepen and whose titles are headers of the document, and the headers with their bodies spell the
  document.\<close>

theorem chunks_cover_document:
  assumes "0 < chunk_size" "0 \<le> overlap" "overlap < chunk_size" "md_split True text = (pre, hs)"
  shows "(py_strip text \<noteq> [] \<longrightarrow> (\<exists>n.
        split_recursive text chunk_size overlap = Inr (filter (\<lambda>c. c \<noteq> [])
          (map (py_strip \<circ> window (nat chunk_size) (nat (chunk_size - overlap)) (py_strip text)) [0..<Suc n]))
        \<and> (\<forall>k < length (py_strip text). \<exists>i \<le> n. i * nat (chunk_size - overlap) \<le> k \<and> k < i * nat (chunk_size - overlap) + nat chunk_size)
        \<and> (\<forall>i < n. i * nat (chunk_size - overlap) + nat chunk_size < length (py_strip text))))
    \<and> (\<exists>chunks. chunk_document ast_top ''markdown'' text chunk_size overlap = Inr chunks
        \<and> (\<forall>c \<in> set chunks. rc_text c \<noteq> [] \<and> ilen (rc_text c) \<le> chunk_size
            \<and> (rc_section c = [] \<or> (\<exists>p. rc_section c = path_text p \<and> nested_path p
                  \<and> set p \<subseteq> (\<lambda>(level, title, body). (level, py_strip title)) ` set hs))))
    \<and> (\<exists>raws. list_all2 (\<lambda>raw h. header_raw (fst h) raw) raws hs \<and> text = pre @ spelled raws hs)"
proof (intro conjI impI)
  let ?secs = "if hs = [] then [([], text)] else (if py_strip pre \<noteq> [] then [([], py_strip pre)] else []) @ md_sections [] hs"
  have doc: "chunk_document ast_top ''markdown'' text chunk_size overlap = split_sections chunk_size overlap ?secs"
    using assms(4) by (simp add: chunk_document_def split_markdown_def Let_def bind_result_def split: sum.split)
  obtain chunks where run: "split_sections chunk_size overlap ?secs = Inr chunks"
    using split_sections_total [OF assms(1-3)] by blast
  have all: "rc_text c \<noteq> [] \<and> ilen (rc_text c) \<le> chunk_size
      \<and> (rc_section c = [] \<or> (\<exists>p. rc_section c = path_text p \<and> nested_path p
            \<and> set p \<subseteq> (\<lambda>(level, title, body). (level, py_strip title)) ` set hs))" if "c \<in> set chunks" for c
  proof -
    from split_sections_chunks [OF run that] obtain tx pieces where
      c: "(rc_section c, tx) \<in> set ?secs" "split_recursive tx chunk_size overlap = Inr pieces" "rc_text c \<in> set pieces"
      by blast
    have "rc_section c = [] \<or> (rc_section c, tx) \<in> set (md_sections [] hs)"
      using c(1) by (auto split: if_splits)
    moreover have "nested_path []" by (simp add: nested_path_def)
    ultimately show ?thesis
      using md_sections_paths [of "rc_section c" tx "[]" hs] split_recursive_bounds [OF c(2,3)] by auto
  qed
  then have each: "\<forall>c \<in> set chunks. rc_text c \<noteq> [] \<and> ilen (rc_text c) \<le> chunk_size
          \<and> (rc_section c = [] \<or> (\<exists>p. rc_section c = path_text p \<and> nested_path p
                \<and> set p \<subseteq> (\<lambda>(level, title, body). (level, py_strip title)) ` set hs))" by blast
  show "\<exists>chunks. chunk_document ast_top ''markdown'' text chunk_size overlap = Inr chunks
      \<and> (\<forall>c \<in> set chunks. rc_text c \<noteq> [] \<and> ilen (rc_text c) \<le> chunk_size
          \<and> (rc_section c = [] \<or> (\<exists>p. rc_section c = path_text p \<and> nested_path p
                \<and> set p \<subseteq> (\<lambda>(level, title, body). (level, py_strip title)) ` set hs)))"
    by (intro exI [of _ chunks] conjI) (simp only: doc run, rule each)
qed (use split_recursive_windows [OF assms(1-3)] md_split_text [OF assms(4)] in blast)+

theorem chunks_cover_document_witness:
  "\<exists>n. split_recursive ''abcdefgh'' 4 1 = Inr (filter (\<lambda>c. c \<noteq> [])
      (map (py_strip \<circ> window 4 3 (py_strip ''abcdefgh'')) [0..<Suc n]))"
proof -
  obtain pre hs where "md_split True ''abcdefgh'' = (pre, hs)" by (cases "md_split True ''abcdefgh''")
  from chunks_cover_document [OF _ _ _ this, of 4 1, THEN conjunct1]
  have "py_strip ''abcdefgh'' \<noteq> [] \<longrightarrow> (\<exists>n. split_recursive ''abcdefgh'' 4 1 = Inr (filter (\<lambda>c. c \<noteq> [])
        (map (py_strip \<circ> window 4 3 (py_strip ''abcdefgh'')) [0..<Suc n]))
      \<and> (\<forall>k < length (py_strip ''abcdefgh''). \<exists>i \<le> n. i * 3 \<le> k \<and> k < i * 3 + 4)
      \<and> (\<forall>i < n. i * 3 + 4 < length (py_strip ''abcdefgh'')))" by (simp del: upt_Suc)
  moreover have "py_strip ''abcdefgh'' \<noteq> []" by code_simp
  ultimately show ?thesis by (elim impE exE conjE) (assumption, rule exI, assumption)
qed

end
