(* ===== verification/Notion_Write.thy ===== *)
theory Notion_Write imports Domain_Types Json_Values begin

text \<open>
  Guarded writes to Notion: the static validator (\<open>app/core/notion_write_validator.py\<close>), the service
  with its audit trail (\<open>app/services/notion_write.py\<close>), the client
  (\<open>notion_write_client.py\<close>) and the two routes. A run gives its outcome, the audit records in order
  and the calls that reached the Notion API. A field's configuration is a JSON object, and
  \<open>iso8601\<close> is what \<open>datetime.fromisoformat\<close> accepts; of a validation only the first error is kept,
  the only part that is read.
\<close>

section \<open>Validator\<close>

type_synonym schema = "(string \<times> (string \<times> json) list) list"

record notion_settings =
  nt_write_enabled :: bool
  nt_api_token :: "string option"
  nt_allowed_pages :: "string list"
  nt_allowed_databases :: "string list"
  nt_editable_fields :: "(string \<times> schema) list"
  nt_database_templates :: "(string \<times> schema) list"

text \<open>The operations of the standard library that the validator and the serializer use.\<close>

record python_values =
  pyv_float :: "string \<Rightarrow> rat option"
  pyv_str :: "json \<Rightarrow> string"
  pyv_iso8601 :: "string \<Rightarrow> bool"

abbreviation str_value :: "python_values \<Rightarrow> json \<Rightarrow> string" where
  "str_value py \<equiv> py_str (pyv_str py)"

type_synonym validation = "string option"

definition schema_of :: "(string \<times> schema) list \<Rightarrow> string \<Rightarrow> schema" where
  "schema_of m k = (case map_of m k of Some s \<Rightarrow> s | None \<Rightarrow> [])"

definition field_schema :: "schema \<Rightarrow> string \<Rightarrow> (string \<times> json) list" where
  "field_schema s name = (case map_of s name of Some c \<Rightarrow> c | None \<Rightarrow> [])"

definition quoted :: "string \<Rightarrow> string" where
  "quoted s = [CHR 0x27] @ s @ [CHR 0x27]"

definition validate_page_id :: "notion_settings \<Rightarrow> string \<Rightarrow> validation" where
  "validate_page_id cfg page_id =
     (if page_id = [] then Some ''Page ID cannot be empty''
      else if page_id \<notin> set (nt_allowed_pages cfg) then Some (''Page '' @ quoted page_id @ '' not in allowlist'')
      else None)"

definition validate_database_id :: "notion_settings \<Rightarrow> string \<Rightarrow> validation" where
  "validate_database_id cfg database_id =
     (if database_id = [] then Some ''Database ID cannot be empty''
      else if database_id \<notin> set (nt_allowed_databases cfg) then Some (''Database '' @ quoted database_id @ '' not in allowlist'')
      else None)"

definition is_field_editable :: "notion_settings \<Rightarrow> string \<Rightarrow> string \<Rightarrow> bool" where
  "is_field_editable cfg resource name = (case map_of (nt_editable_fields cfg) resource of
     None \<Rightarrow> False | Some s \<Rightarrow> name \<in> set (map fst s))"

definition validate_fields :: "notion_settings \<Rightarrow> string \<Rightarrow> string list \<Rightarrow> validation" where
  "validate_fields cfg resource names =
     (if map_of (nt_editable_fields cfg) resource = None
      then Some (''No editable fields defined for resource '' @ quoted resource)
      else (let invalid = filter (\<lambda>f. \<not> is_field_editable cfg resource f) names
            in if invalid \<noteq> [] then Some (''Fields not editable: '' @ py_join '', '' invalid) else None))"

definition is_valid_iso8601 :: "python_values \<Rightarrow> json \<Rightarrow> bool" where
  "is_valid_iso8601 py v = (case v of
     JStr s \<Rightarrow> pyv_iso8601 py (concat (map (\<lambda>c. if c = CHR ''Z'' then ''+00:00'' else [c]) s))
   | _ \<Rightarrow> False)"

definition type_error :: exn where
  "type_error = Other_Error ''TypeError'' []"

text \<open>The check against the options listed under a key: an empty or absent list allows everything.\<close>

definition option_check ::
    "python_values \<Rightarrow> (string \<times> json) list \<Rightarrow> string \<Rightarrow> json \<Rightarrow> string \<Rightarrow> (exn, validation) result" where
  "option_check py config k v message = (case map_of config k of
     None \<Rightarrow> Inr None
   | Some options \<Rightarrow> if json_falsy (pyv_float py) options then Inr None
       else (case py_in (pyv_float py) v options of
           None \<Rightarrow> Inl type_error
         | Some True \<Rightarrow> Inr None
         | Some False \<Rightarrow> Inr (Some message)))"

definition field_type :: "(string \<times> json) list \<Rightarrow> json" where
  "field_type config = (case map_of config ''type'' of Some t \<Rightarrow> t | None \<Rightarrow> JStr ''string'')"

definition validate_field_value ::
    "python_values \<Rightarrow> string \<Rightarrow> json \<Rightarrow> (string \<times> json) list \<Rightarrow> (exn, validation) result" where
  "validate_field_value py name v config =
     (let t = field_type config in
      if t = JStr ''select''
      then option_check py config ''options'' v (''Invalid value '' @ quoted (str_value py v) @ '' for field '' @ quoted name)
      else if t = JStr ''date''
      then Inr (if is_valid_iso8601 py v then None
                else Some (''Invalid date format for field '' @ quoted name @ '': '' @ str_value py v))
      else if t = JStr ''number''
      then Inr (case v of JInt _ \<Rightarrow> None | JFloat _ \<Rightarrow> None | JBool _ \<Rightarrow> None
                | _ \<Rightarrow> Some (''Invalid number for field '' @ quoted name @ '': '' @ str_value py v))
      else if t = JStr ''enum''
      then option_check py config ''values'' v (''Invalid enum value '' @ quoted (str_value py v) @ '' for field '' @ quoted name)
      else if t = JStr ''status''
      then option_check py config ''options'' v (''Invalid value '' @ quoted (str_value py v) @ '' for status field '' @ quoted name)
      else Inr None)"

text \<open>A loop over the fields that stops at the first that is not valid.\<close>

fun validate_values ::
    "python_values \<Rightarrow> schema \<Rightarrow> (string \<times> json) list \<Rightarrow> (exn, validation) result" where
  "validate_values py s [] = Inr None"
| "validate_values py s ((name, v) # rest) =
     bind_result (validate_field_value py name v (field_schema s name)) (\<lambda>r.
       case r of Some m \<Rightarrow> Inr (Some m) | None \<Rightarrow> validate_values py s rest)"

definition missing_fields :: "python_values \<Rightarrow> schema \<Rightarrow> (string \<times> json) list \<Rightarrow> string list" where
  "missing_fields py template properties =
     map fst (filter (\<lambda>(name, def). (case map_of def ''required'' of None \<Rightarrow> False | Some r \<Rightarrow> \<not> json_falsy (pyv_float py) r)
       \<and> name \<notin> set (map fst properties)) template)"

fun validate_properties ::
    "python_values \<Rightarrow> schema \<Rightarrow> (string \<times> json) list \<Rightarrow> (exn, validation) result" where
  "validate_properties py template [] = Inr None"
| "validate_properties py template ((name, v) # rest) =
     (if name \<notin> set (map fst template) then Inr (Some (''Field '' @ quoted name @ '' not in template for this database''))
      else bind_result (validate_field_value py name v (field_schema template name)) (\<lambda>r.
        case r of Some m \<Rightarrow> Inr (Some m) | None \<Rightarrow> validate_properties py template rest))"

definition validate_row_create ::
    "python_values \<Rightarrow> notion_settings \<Rightarrow> string \<Rightarrow> (string \<times> json) list \<Rightarrow> (exn, validation) result" where
  "validate_row_create py cfg database_id properties =
     (case validate_database_id cfg database_id of
        Some m \<Rightarrow> Inr (Some m)
      | None \<Rightarrow> (case map_of (nt_database_templates cfg) database_id of
          None \<Rightarrow> Inr (Some (''No template defined for database '' @ quoted database_id))
        | Some template \<Rightarrow>
            (let missing = missing_fields py template properties
             in if missing \<noteq> [] then Inr (Some (''Required fields missing: '' @ py_join '', '' missing))
                else validate_properties py template properties)))"

definition row_resource :: "string \<Rightarrow> string" where
  "row_resource database_id = ''row_in_'' @ database_id"

definition validate_row_update ::
    "python_values \<Rightarrow> notion_settings \<Rightarrow> string \<Rightarrow> string \<Rightarrow> (string \<times> json) list \<Rightarrow> (exn, validation) result" where
  "validate_row_update py cfg database_id row_id updates =
     (case validate_database_id cfg database_id of
        Some m \<Rightarrow> Inr (Some m)
      | None \<Rightarrow> (case map_of (nt_editable_fields cfg) (row_resource database_id) of
          None \<Rightarrow> Inr (Some (''Rows in database '' @ quoted database_id @ '' are not editable''))
        | Some s \<Rightarrow> (case validate_fields cfg (row_resource database_id) (map fst updates) of
            Some m \<Rightarrow> Inr (Some m)
          | None \<Rightarrow> validate_values py s updates)))"

definition validate_page_write ::
    "python_values \<Rightarrow> notion_settings \<Rightarrow> string \<Rightarrow> (string \<times> json) list \<Rightarrow> (exn, validation) result" where
  "validate_page_write py cfg page_id updates =
     (case validate_page_id cfg page_id of
        Some m \<Rightarrow> Inr (Some m)
      | None \<Rightarrow> (case validate_fields cfg page_id (map fst updates) of
          Some m \<Rightarrow> Inr (Some m)
        | None \<Rightarrow> validate_values py (schema_of (nt_editable_fields cfg) page_id) updates))"

section \<open>Serialization\<close>

definition property_key_names :: "string list" where
  "property_key_names = [''notion_property_key'', ''property_key'', ''notion_name'', ''property_name'', ''notion_property_name'']"

definition notion_property_key :: "python_values \<Rightarrow> string \<Rightarrow> (string \<times> json) list \<Rightarrow> string" where
  "notion_property_key py name config =
     (case filter (\<lambda>j. \<not> json_falsy (pyv_float py) j) (List.map_filter (map_of config) property_key_names) of
        JStr s # _ \<Rightarrow> if py_strip s \<noteq> [] then py_strip s else name
      | _ \<Rightarrow> name)"

definition text_items :: "string \<Rightarrow> json" where
  "text_items s = JArr [JObj [(''text'', JObj [(''content'', JStr s)])]]"

definition items_of :: "json \<Rightarrow> json list" where
  "items_of v = (case v of JArr xs \<Rightarrow> xs | _ \<Rightarrow> [v])"

definition named_items :: "python_values \<Rightarrow> string \<Rightarrow> json \<Rightarrow> json" where
  "named_items py k v = JArr (map (\<lambda>x. JObj [(k, JStr (str_value py x))])
     (filter (\<lambda>x. py_strip (str_value py x) \<noteq> []) (items_of v)))"

definition property_value :: "python_values \<Rightarrow> string \<Rightarrow> json \<Rightarrow> json" where
  "property_value py t v =
     (let s = str_value py v in
      if t = ''title'' then JObj [(''title'', text_items s)]
      else if t \<in> {''string'', ''text'', ''rich_text''} then JObj [(''rich_text'', text_items s)]
      else if t \<in> {''select'', ''enum''} then JObj [(''select'', JObj [(''name'', JStr s)])]
      else if t = ''status'' then JObj [(''status'', JObj [(''name'', JStr s)])]
      else if t = ''multi_select'' then JObj [(''multi_select'', named_items py ''name'' v)]
      else if t = ''date'' then JObj [(''date'', JObj [(''start'', JStr s)])]
      else if t = ''number'' then JObj [(''number'', v)]
      else if t \<in> {''bool'', ''checkbox''} then JObj [(''checkbox'', JBool (\<not> json_falsy (pyv_float py) v))]
      else if t = ''person'' then JObj [(''people'', named_items py ''id'' v)]
      else if t = ''url'' then JObj [(''url'', JStr s)]
      else if t = ''email'' then JObj [(''email'', JStr s)]
      else if t = ''phone_number'' then JObj [(''phone_number'', JStr s)]
      else JObj [(''rich_text'', text_items s)])"

definition serialize_value :: "python_values \<Rightarrow> string \<Rightarrow> json \<Rightarrow> (string \<times> json) list \<Rightarrow> string \<times> json" where
  "serialize_value py name v config =
     (notion_property_key py name config, property_value py (py_lower (str_value py (field_type config))) v)"

definition build_properties_payload :: "python_values \<Rightarrow> schema \<Rightarrow> (string \<times> json) list \<Rightarrow> (string \<times> json) list" where
  "build_properties_payload py s vals =
     foldl (\<lambda>payload (name, v). (case serialize_value py name v (field_schema s name) of (k, j) \<Rightarrow> dict_put k j payload)) [] vals"

section \<open>Client\<close>

record notion_call =
  nc_method :: string
  nc_path :: string
  nc_payload :: json

datatype api_exn =
  Api_Timeout
| Api_Http_Error string
| Api_Other string

record api_response =
  ar_status :: int
  ar_body :: string

type_synonym notion_api = "notion_call \<Rightarrow> (api_exn, api_response) result"

text \<open>The object the API answered, or the text of the failure, and the calls that were made.\<close>

definition notion_request ::
    "string option \<Rightarrow> notion_api \<Rightarrow> notion_call \<Rightarrow> (string, (string \<times> json) list) result \<times> notion_call list" where
  "notion_request token api c =
     (if token = None \<or> py_strip (the token) = [] then (Inl ''Notion API token is required'', [])
      else ((case api c of
          Inl Api_Timeout \<Rightarrow> Inl ''Notion API request timed out''
        | Inl (Api_Http_Error m) \<Rightarrow> Inl m
        | Inl (Api_Other m) \<Rightarrow> Inl m
        | Inr r \<Rightarrow>
            if ar_status r \<ge> 400
            then (let detail = py_strip (ar_body r)
                  in Inl (''Notion API returned '' @ int_dec (ar_status r) @ (if detail \<noteq> [] then '': '' @ detail else [])))
            else (case json_loads (ar_body r) of
                None \<Rightarrow> Inl ''Notion API response was not valid JSON''
              | Some (JObj kvs) \<Rightarrow> Inr kvs
              | Some _ \<Rightarrow> Inl ''Notion API response must be a JSON object'')), [c]))"

definition update_page_call :: "string \<Rightarrow> (string \<times> json) list \<Rightarrow> notion_call" where
  "update_page_call page_id properties =
     \<lparr>nc_method = ''PATCH'', nc_path = ''/pages/'' @ page_id, nc_payload = JObj [(''properties'', JObj properties)]\<rparr>"

definition create_row_call :: "string \<Rightarrow> (string \<times> json) list \<Rightarrow> notion_call" where
  "create_row_call database_id properties =
     \<lparr>nc_method = ''POST'', nc_path = ''/pages'', nc_payload = JObj [
        (''parent'', JObj [(''data_source_id'', JStr database_id)]), (''properties'', JObj properties)]\<rparr>"


section \<open>Service\<close>

datatype write_error =
  Write_Disabled string
| Write_Blocked string
| Write_Invalid string
| Write_Execution string
| Write_Raised exn

record write_result =
  wr_operation :: string
  wr_target_type :: string
  wr_target_id :: string
  wr_object_id :: "string option"
  wr_status :: string
  wr_request_id :: string

record audit_record =
  au_operation :: string
  au_target_type :: string
  au_target_id :: string
  au_status :: string
  au_fields :: "string list"
  au_request_id :: string

record notion_run =
  nr_outcome :: "(write_error, write_result) result"
  nr_audit :: "audit_record list"
  nr_calls :: "notion_call list"

definition normalize_id :: "string \<Rightarrow> string" where
  "normalize_id v = remove_char (CHR ''-'') (py_strip v)"

text \<open>The class of a refusal is read off its message.\<close>

definition refusal :: "string \<Rightarrow> write_error" where
  "refusal message =
     (if sublist ''allowlist'' (py_lower message) \<or> sublist ''not in allowlist'' (py_lower message)
      then Write_Blocked message else Write_Invalid message)"

definition validate_or_raise :: "(exn, validation) result \<Rightarrow> (write_error, unit) result" where
  "validate_or_raise r = (case r of Inl e \<Rightarrow> Inl (Write_Raised e) | Inr None \<Rightarrow> Inr () | Inr (Some m) \<Rightarrow> Inl (refusal m))"

definition ensure_enabled :: "notion_settings \<Rightarrow> (write_error, unit) result" where
  "ensure_enabled cfg = (if nt_write_enabled cfg then Inr () else Inl (Write_Disabled ''Notion write is disabled''))"

definition audit_of :: "string \<Rightarrow> string \<Rightarrow> string \<Rightarrow> string list \<Rightarrow> string \<Rightarrow> string \<Rightarrow> audit_record" where
  "audit_of operation target_type target_id fds rid status = \<lparr>au_operation = operation, au_target_type = target_type,
     au_target_id = target_id, au_status = status, au_fields = fds, au_request_id = rid\<rparr>"

definition refused :: "audit_record list \<Rightarrow> write_error \<Rightarrow> notion_run" where
  "refused audit e = \<lparr>nr_outcome = Inl e, nr_audit = audit, nr_calls = []\<rparr>"

text \<open>The part the three operations share: the call, then its audit record and result.\<close>

definition executed ::
    "(string \<Rightarrow> audit_record) \<Rightarrow> (string, (string \<times> json) list) result \<times> notion_call list
     \<Rightarrow> ((string \<times> json) list \<Rightarrow> write_result) \<Rightarrow> notion_run" where
  "executed audit attempt result_of = (case attempt of (answer, calls) \<Rightarrow>
     (case answer of
        Inl m \<Rightarrow> \<lparr>nr_outcome = Inl (Write_Execution m), nr_audit = [audit ''attempt'', audit ''error''], nr_calls = calls\<rparr>
      | Inr response \<Rightarrow> \<lparr>nr_outcome = Inr (result_of response), nr_audit = [audit ''attempt'', audit ''success''], nr_calls = calls\<rparr>))"

definition object_id :: "python_values \<Rightarrow> (string \<times> json) list \<Rightarrow> string \<Rightarrow> string" where
  "object_id py response default_id = (case map_of response ''id'' of
     Some j \<Rightarrow> if json_falsy (pyv_float py) j then default_id else str_value py j
   | None \<Rightarrow> default_id)"

definition write_page ::
    "python_values \<Rightarrow> notion_settings \<Rightarrow> notion_api \<Rightarrow> string \<Rightarrow> string \<Rightarrow> (string \<times> json) list \<Rightarrow> notion_run" where
  "write_page py cfg api rid page_id updates = (case ensure_enabled cfg of
     Inl e \<Rightarrow> refused [] e
   | Inr _ \<Rightarrow>
       (let target = normalize_id page_id;
            names = map fst updates;
            audit = audit_of ''page_update'' ''page'' target names rid;
            s = schema_of (nt_editable_fields cfg) target;
            checks = bind_result (validate_or_raise (Inr (validate_page_id cfg target))) (\<lambda>_.
              bind_result (validate_or_raise (Inr (validate_fields cfg target names))) (\<lambda>_.
              validate_or_raise (validate_values py s updates)))
        in case checks of
             Inl e \<Rightarrow> refused [audit ''attempt''] e
           | Inr _ \<Rightarrow>
               if updates = []
               then \<lparr>nr_outcome = Inr \<lparr>wr_operation = ''page_update'', wr_target_type = ''page'', wr_target_id = page_id,
                       wr_object_id = Some page_id, wr_status = ''noop'', wr_request_id = rid\<rparr>,
                     nr_audit = [audit ''attempt'', audit ''noop''], nr_calls = []\<rparr>
               else executed audit
                 (notion_request (nt_api_token cfg) api (update_page_call page_id (build_properties_payload py s updates)))
                 (\<lambda>response. \<lparr>wr_operation = ''page_update'', wr_target_type = ''page'', wr_target_id = page_id,
                    wr_object_id = Some (object_id py response page_id), wr_status = ''success'', wr_request_id = rid\<rparr>)))"

definition create_row ::
    "python_values \<Rightarrow> notion_settings \<Rightarrow> notion_api \<Rightarrow> string \<Rightarrow> string \<Rightarrow> (string \<times> json) list \<Rightarrow> notion_run" where
  "create_row py cfg api rid database_id properties = (case ensure_enabled cfg of
     Inl e \<Rightarrow> refused [] e
   | Inr _ \<Rightarrow>
       (let target = normalize_id database_id;
            audit = audit_of ''row_create'' ''database'' target (map fst properties) rid;
            checks = bind_result (validate_or_raise (Inr (validate_database_id cfg target))) (\<lambda>_.
              validate_or_raise (validate_row_create py cfg target properties))
        in case checks of
             Inl e \<Rightarrow> refused [audit ''attempt''] e
           | Inr _ \<Rightarrow> executed audit
               (notion_request (nt_api_token cfg) api (create_row_call database_id
                 (build_properties_payload py (schema_of (nt_database_templates cfg) target) properties)))
               (\<lambda>response. let oid = object_id py response [] in
                  \<lparr>wr_operation = ''row_create'', wr_target_type = ''database'', wr_target_id = database_id,
                   wr_object_id = (if oid \<noteq> [] then Some oid else None), wr_status = ''success'', wr_request_id = rid\<rparr>)))"

definition update_row ::
    "python_values \<Rightarrow> notion_settings \<Rightarrow> notion_api \<Rightarrow> string \<Rightarrow> string \<Rightarrow> string \<Rightarrow> (string \<times> json) list \<Rightarrow> notion_run" where
  "update_row py cfg api rid database_id row_id updates = (case ensure_enabled cfg of
     Inl e \<Rightarrow> refused [] e
   | Inr _ \<Rightarrow>
       (let target = normalize_id database_id;
            audit = audit_of ''row_update'' ''row'' row_id (map fst updates) rid;
            checks = bind_result (validate_or_raise (Inr (validate_database_id cfg target))) (\<lambda>_.
              validate_or_raise (validate_row_update py cfg target row_id updates))
        in case checks of
             Inl e \<Rightarrow> refused [audit ''attempt''] e
           | Inr _ \<Rightarrow>
               if updates = []
               then \<lparr>nr_outcome = Inr \<lparr>wr_operation = ''row_update'', wr_target_type = ''row'', wr_target_id = row_id,
                       wr_object_id = Some row_id, wr_status = ''noop'', wr_request_id = rid\<rparr>,
                     nr_audit = [audit ''attempt'', audit ''noop''], nr_calls = []\<rparr>
               else executed audit
                 (notion_request (nt_api_token cfg) api (update_page_call row_id
                   (build_properties_payload py (schema_of (nt_editable_fields cfg) (row_resource target)) updates)))
                 (\<lambda>response. \<lparr>wr_operation = ''row_update'', wr_target_type = ''row'', wr_target_id = row_id,
                    wr_object_id = Some (object_id py response row_id), wr_status = ''success'', wr_request_id = rid\<rparr>)))"

section \<open>Routes\<close>

datatype write_request =
  Page_Write string "(string \<times> json) list"
| Row_Create string "(string \<times> json) list"
| Row_Update string "string option" "(string \<times> json) list"

text \<open>The validators of the request models.\<close>

definition write_request_ok :: "write_request \<Rightarrow> bool" where
  "write_request_ok r = (case r of
     Page_Write p _ \<Rightarrow> p \<noteq> []
   | Row_Create d _ \<Rightarrow> d \<noteq> []
   | Row_Update d row _ \<Rightarrow> d \<noteq> [] \<and> row \<noteq> None \<and> row \<noteq> Some [])"

definition serve_write :: "python_values \<Rightarrow> notion_settings \<Rightarrow> notion_api \<Rightarrow> string \<Rightarrow> write_request \<Rightarrow> notion_run" where
  "serve_write py cfg api rid r = (case r of
     Page_Write p updates \<Rightarrow> write_page py cfg api rid p updates
   | Row_Create d properties \<Rightarrow> create_row py cfg api rid d properties
   | Row_Update d row updates \<Rightarrow> update_row py cfg api rid d (case row of Some w \<Rightarrow> w | None \<Rightarrow> []) updates)"

definition write_status :: "(write_error, write_result) result \<Rightarrow> nat \<times> string" where
  "write_status r = (case r of
     Inr w \<Rightarrow> (200, wr_status w)
   | Inl (Write_Disabled m) \<Rightarrow> (503, m)
   | Inl (Write_Blocked m) \<Rightarrow> (403, m)
   | Inl (Write_Invalid m) \<Rightarrow> (422, m)
   | Inl (Write_Execution m) \<Rightarrow> (502, m)
   | Inl (Write_Raised _) \<Rightarrow> (500, ''Internal error''))"

definition write_route :: "python_values \<Rightarrow> notion_settings \<Rightarrow> notion_api \<Rightarrow> string \<Rightarrow> write_request \<Rightarrow> nat \<times> string" where
  "write_route py cfg api rid r =
     (if write_request_ok r then write_status (nr_outcome (serve_write py cfg api rid r)) else (422, ''request body''))"


section \<open>What passes the checks\<close>

definition fields_ok :: "python_values \<Rightarrow> schema \<Rightarrow> (string \<times> json) list \<Rightarrow> bool" where
  "fields_ok py s vals = list_all (\<lambda>(name, v). name \<in> set (map fst s)
     \<and> validate_field_value py name v (field_schema s name) = Inr None) vals"

lemma validate_or_raise_ok [simp]: "validate_or_raise r = Inr u \<longleftrightarrow> r = Inr None"
  by (auto simp: validate_or_raise_def split: sum.splits option.splits)

lemma validate_values_ok [simp]:
  "validate_values py s vals = Inr None
     \<longleftrightarrow> list_all (\<lambda>(name, v). validate_field_value py name v (field_schema s name) = Inr None) vals"
  by (induction py s vals rule: validate_values.induct) (auto simp: bind_result_Inr_iff bind_result_def split: option.splits sum.splits)

lemma validate_properties_ok [simp]: "validate_properties py s vals = Inr None \<longleftrightarrow> fields_ok py s vals"
  by (induction py s vals rule: validate_properties.induct)
    (auto simp: fields_ok_def bind_result_def split: option.splits sum.splits)

lemma validate_fields_ok: "validate_fields cfg k names = None \<Longrightarrow> \<exists>s. map_of (nt_editable_fields cfg) k = Some s
    \<and> schema_of (nt_editable_fields cfg) k = s \<and> set names \<subseteq> set (map fst s)"
  by (auto simp: validate_fields_def Let_def is_field_editable_def schema_of_def filter_empty_conv split: if_splits)

lemma checked_fields_ok:
  assumes "validate_fields cfg k (map fst vals) = None" "validate_values py (schema_of (nt_editable_fields cfg) k) vals = Inr None"
  shows "fields_ok py (schema_of (nt_editable_fields cfg) k) vals"
proof -
  have "name \<in> set (map fst (schema_of (nt_editable_fields cfg) k))" if "(name, v) \<in> set vals" for name v
    using validate_fields_ok [OF assms(1)] that by (metis fst_conv image_eqI list.set_map subsetD)
  with assms(2) show ?thesis by (auto simp: fields_ok_def list_all_iff)
qed

lemma validate_page_id_ok [simp]: "validate_page_id cfg k = None \<longleftrightarrow> k \<noteq> [] \<and> k \<in> set (nt_allowed_pages cfg)"
  by (auto simp: validate_page_id_def)

lemma validate_database_id_ok [simp]: "validate_database_id cfg k = None \<longleftrightarrow> k \<noteq> [] \<and> k \<in> set (nt_allowed_databases cfg)"
  by (auto simp: validate_database_id_def)

lemma row_create_ok:
  assumes "validate_row_create py cfg k vals = Inr None"
  shows "\<exists>template. map_of (nt_database_templates cfg) k = Some template \<and> schema_of (nt_database_templates cfg) k = template
    \<and> fields_ok py template vals \<and> missing_fields py template vals = []"
  using assms by (auto simp: validate_row_create_def Let_def schema_of_def split: option.splits if_splits)

lemma row_update_ok:
  assumes "validate_row_update py cfg k row vals = Inr None"
  shows "fields_ok py (schema_of (nt_editable_fields cfg) (row_resource k)) vals"
proof -
  from assms obtain s where s: "map_of (nt_editable_fields cfg) (row_resource k) = Some s"
    "validate_fields cfg (row_resource k) (map fst vals) = None" "validate_values py s vals = Inr None"
    by (auto simp: validate_row_update_def split: option.splits)
  then have "schema_of (nt_editable_fields cfg) (row_resource k) = s" by (simp add: schema_of_def)
  with s checked_fields_ok [OF s(2)] show ?thesis by simp
qed

lemma row_update_any_row: "validate_row_update py cfg k row vals = validate_row_update py cfg k row' vals"
  by (simp add: validate_row_update_def)

definition api_token_ok :: "notion_settings \<Rightarrow> bool" where
  "api_token_ok cfg = (nt_api_token cfg \<noteq> None \<and> py_strip (the (nt_api_token cfg)) \<noteq> [])"

lemma executed_calls [simp]: "nr_calls (executed audit (notion_request (nt_api_token cfg) api c) f) = (if api_token_ok cfg then [c] else [])"
  by (auto simp: executed_def notion_request_def api_token_ok_def split: prod.split sum.split)

lemma refused_calls [simp]: "nr_calls (refused audit e) = []"
  by (simp add: refused_def)

lemma write_page_calls:
  "nr_calls (write_page py cfg api rid p updates) =
     (let k = normalize_id p; s = schema_of (nt_editable_fields cfg) k in
      if nt_write_enabled cfg \<and> validate_page_id cfg k = None \<and> validate_fields cfg k (map fst updates) = None
        \<and> validate_values py s updates = Inr None \<and> updates \<noteq> [] \<and> api_token_ok cfg
      then [update_page_call p (build_properties_payload py s updates)] else [])"
  by (auto simp: write_page_def ensure_enabled_def Let_def bind_result_def validate_or_raise_def
      simp del: validate_values_ok validate_page_id_ok split: sum.splits option.splits)

lemma create_row_calls:
  "nr_calls (create_row py cfg api rid d ps) =
     (let k = normalize_id d in
      if nt_write_enabled cfg \<and> validate_database_id cfg k = None \<and> validate_row_create py cfg k ps = Inr None \<and> api_token_ok cfg
      then [create_row_call d (build_properties_payload py (schema_of (nt_database_templates cfg) k) ps)] else [])"
  by (auto simp: create_row_def ensure_enabled_def Let_def bind_result_def validate_or_raise_def
      simp del: validate_database_id_ok split: sum.splits option.splits)

lemma update_row_calls:
  "nr_calls (update_row py cfg api rid d row updates) =
     (let k = normalize_id d in
      if nt_write_enabled cfg \<and> validate_database_id cfg k = None \<and> validate_row_update py cfg k row updates = Inr None
        \<and> updates \<noteq> [] \<and> api_token_ok cfg
      then [update_page_call row (build_properties_payload py (schema_of (nt_editable_fields cfg) (row_resource k)) updates)] else [])"
  by (auto simp: update_row_def ensure_enabled_def Let_def bind_result_def validate_or_raise_def
      simp del: validate_database_id_ok split: sum.splits option.splits)


section \<open>The permission rules\<close>

text \<open>What the two allowlists and the configured fields permit a request to send.\<close>

definition permitted_calls :: "python_values \<Rightarrow> notion_settings \<Rightarrow> write_request \<Rightarrow> notion_call list" where
  "permitted_calls py cfg r =
     (if nt_write_enabled cfg \<and> api_token_ok cfg
      then (case r of
         Page_Write p updates \<Rightarrow> (let s = schema_of (nt_editable_fields cfg) (normalize_id p) in
           if normalize_id p \<noteq> [] \<and> normalize_id p \<in> set (nt_allowed_pages cfg) \<and> updates \<noteq> [] \<and> fields_ok py s updates
           then [update_page_call p (build_properties_payload py s updates)] else [])
       | Row_Create d ps \<Rightarrow> (let template = schema_of (nt_database_templates cfg) (normalize_id d) in
           if normalize_id d \<noteq> [] \<and> normalize_id d \<in> set (nt_allowed_databases cfg)
             \<and> map_of (nt_database_templates cfg) (normalize_id d) \<noteq> None
             \<and> missing_fields py template ps = [] \<and> fields_ok py template ps
           then [create_row_call d (build_properties_payload py template ps)] else [])
       | Row_Update d row updates \<Rightarrow> (let s = schema_of (nt_editable_fields cfg) (row_resource (normalize_id d)) in
           if normalize_id d \<noteq> [] \<and> normalize_id d \<in> set (nt_allowed_databases cfg) \<and> updates \<noteq> [] \<and> fields_ok py s updates
           then [update_page_call (case row of Some w \<Rightarrow> w | None \<Rightarrow> []) (build_properties_payload py s updates)] else []))
      else [])"

lemma fields_ok_present: "vals \<noteq> [] \<Longrightarrow> fields_ok py (schema_of m k) vals \<Longrightarrow> map_of m k = Some (schema_of m k)"
  by (cases vals) (auto simp: fields_ok_def schema_of_def split: option.splits)

lemma page_checks_iff:
  assumes "vals \<noteq> []"
  shows "validate_fields cfg k (map fst vals) = None \<and> validate_values py (schema_of (nt_editable_fields cfg) k) vals = Inr None
    \<longleftrightarrow> fields_ok py (schema_of (nt_editable_fields cfg) k) vals"
proof
  assume ok: "fields_ok py (schema_of (nt_editable_fields cfg) k) vals"
  then have "\<forall>n \<in> set (map fst vals). is_field_editable cfg k n"
    using fields_ok_present [OF assms ok] by (auto simp: fields_ok_def list_all_iff is_field_editable_def)
  with ok fields_ok_present [OF assms ok]
  show "validate_fields cfg k (map fst vals) = None \<and> validate_values py (schema_of (nt_editable_fields cfg) k) vals = Inr None"
    by (auto simp: validate_fields_def Let_def fields_ok_def list_all_iff)
qed (use checked_fields_ok in blast)

lemma row_update_iff:
  assumes "vals \<noteq> []"
  shows "validate_database_id cfg k = None \<and> validate_row_update py cfg k row vals = Inr None
    \<longleftrightarrow> validate_database_id cfg k = None \<and> fields_ok py (schema_of (nt_editable_fields cfg) (row_resource k)) vals"
proof -
  have "validate_row_update py cfg k row vals = Inr None"
    if "validate_database_id cfg k = None" "fields_ok py (schema_of (nt_editable_fields cfg) (row_resource k)) vals"
    using page_checks_iff [OF assms, of cfg "row_resource k" py] fields_ok_present [OF assms that(2)] that
    by (auto simp: validate_row_update_def simp del: validate_database_id_ok)
  then show ?thesis using row_update_ok by blast
qed

lemma row_create_iff:
  "validate_database_id cfg k = None \<and> validate_row_create py cfg k vals = Inr None
    \<longleftrightarrow> validate_database_id cfg k = None \<and> map_of (nt_database_templates cfg) k \<noteq> None
      \<and> missing_fields py (schema_of (nt_database_templates cfg) k) vals = []
      \<and> fields_ok py (schema_of (nt_database_templates cfg) k) vals"
  by (auto simp: validate_row_create_def Let_def schema_of_def simp del: validate_database_id_ok split: option.splits)

definition audited :: "notion_run \<Rightarrow> bool" where
  "audited run = (nr_calls run = [] \<or> map au_status (nr_audit run)
     = [''attempt'', case nr_outcome run of Inl _ \<Rightarrow> ''error'' | Inr _ \<Rightarrow> ''success''])"

lemma audited_runs [simp]:
  "audited (executed (audit_of a b c fds rid) attempt f)" "audited (refused audit e)"
  "audited \<lparr>nr_outcome = out, nr_audit = audit, nr_calls = []\<rparr>"
  by (auto simp: audited_def executed_def audit_of_def refused_def split: prod.split sum.split)

lemma serve_write_audited: "audited (serve_write py cfg api rid r)"
  by (cases r) (auto simp: serve_write_def write_page_def create_row_def update_row_def Let_def split: sum.split)

section \<open>Properties\<close>

text \<open>C33: a request reaches the Notion API exactly when the rules permit it, with exactly the permitted call: writes
  switched on, a token, the page or database on its allowlist, every field configured for it and every value
  valid for its field; no configured field is missing in a new row. Each call is audited as an attempt and, after
  it, as a success or an error by its outcome. The row of an update is not among what is checked: whether a call
  is permitted does not depend on it.\<close>

theorem notion_writes_only_what_is_permitted:
  "nr_calls (serve_write py cfg api rid r) = permitted_calls py cfg r
   \<and> audited (serve_write py cfg api rid r)
   \<and> (permitted_calls py cfg (Row_Update d (Some row) updates) = []
      \<longleftrightarrow> permitted_calls py cfg (Row_Update d (Some row') updates) = [])"
proof (intro conjI)
  show "nr_calls (serve_write py cfg api rid r) = permitted_calls py cfg r"
  proof (cases r)
    case (Page_Write p u)
    then show ?thesis
      using page_checks_iff [of u cfg "normalize_id p" py]
      by (auto simp: serve_write_def permitted_calls_def write_page_calls Let_def simp del: validate_values_ok)
  next
    case (Row_Create d ps)
    then show ?thesis
      using row_create_iff [of cfg "normalize_id d" py ps]
      by (auto simp: serve_write_def permitted_calls_def create_row_calls Let_def)
  next
    case (Row_Update d row u)
    then show ?thesis
      using row_update_iff [of u cfg "normalize_id d" py "case row of Some w \<Rightarrow> w | None \<Rightarrow> []"]
      by (auto simp: serve_write_def permitted_calls_def update_row_calls Let_def)
  qed
  show "audited (serve_write py cfg api rid r)" by (rule serve_write_audited)
qed (simp add: permitted_calls_def Let_def)

end
