(* ===== verification/Usage_Audit.thy ===== *)
theory Usage_Audit imports Chat_History "HOL-Library.Product_Lexorder" begin

text \<open>
  The read side of the usage events: the filtered list (\<open>app/api/routes/usage_events.py\<close>), the
  feedback on an answer (\<open>chat_feedback.py\<close>), the list of conversations
  (\<open>routes/conversations.py\<close>) and the reconstruction of a request
  (\<open>app/services/trace.py\<close>). A row of \<open>usage_events\<close> extends what the chat route writes by the
  columns the database and the feedback route fill; a time is an integer.
\<close>

section \<open>Events\<close>

record usage_event = usage_row +
  ev_id :: uuid
  ev_timestamp :: int
  ev_feedback :: "string option"
  ev_feedback_at :: "int option"

definition newest_first :: "usage_event list \<Rightarrow> usage_event list" where
  "newest_first es = rev (sort_key (\<lambda>e. (ev_timestamp e, ev_id e)) es)"

record usage_filter =
  uf_limit :: int
  uf_offset :: int
  uf_descending :: bool
  uf_from :: "int option"
  uf_to :: "int option"
  uf_provider :: "string option"
  uf_model :: "string option"
  uf_request :: "uuid option"
  uf_conversation :: "uuid option"
  uf_status :: "string option"

definition usage_filter_ok :: "usage_filter \<Rightarrow> bool" where
  "usage_filter_ok f = (1 \<le> uf_limit f \<and> uf_limit f \<le> 200 \<and> 0 \<le> uf_offset f
     \<and> (uf_status f = None \<or> uf_status f = Some ''success'' \<or> uf_status f = Some ''error''))"

definition wanted :: "'a option \<Rightarrow> ('a \<Rightarrow> bool) \<Rightarrow> bool" where
  "wanted v p = (case v of None \<Rightarrow> True | Some x \<Rightarrow> p x)"

definition usage_matches :: "usage_filter \<Rightarrow> usage_event \<Rightarrow> bool" where
  "usage_matches f e = (wanted (uf_from f) (\<lambda>t. ev_timestamp e \<ge> t) \<and> wanted (uf_to f) (\<lambda>t. ev_timestamp e \<le> t)
     \<and> wanted (uf_provider f) (\<lambda>p. ue_provider e = p) \<and> wanted (uf_model f) (\<lambda>m. ue_model_version e = m)
     \<and> wanted (uf_request f) (\<lambda>r. ue_request e = r) \<and> wanted (uf_conversation f) (\<lambda>c. ue_conversation e = Some c)
     \<and> wanted (uf_status f) (\<lambda>s. ue_status e = Some s))"

text \<open>The reply, or the status and detail of the refusal.\<close>

definition list_usage_events :: "usage_filter \<Rightarrow> usage_event list \<Rightarrow> (nat \<times> string, usage_event list) result" where
  "list_usage_events f es =
     (if \<not> usage_filter_ok f then Inl (422, ''query'')
      else if (case (uf_from f, uf_to f) of (Some a, Some b) \<Rightarrow> a > b | _ \<Rightarrow> False) then Inl (422, [CHR 0x27] @ ''from'' @ [CHR 0x27] @ '' must be <= '' @ [CHR 0x27] @ ''to'' @ [CHR 0x27])
      else (let found = filter (usage_matches f) es;
                ordered = (if uf_descending f then newest_first found else rev (newest_first found))
            in Inr (take (nat (uf_limit f)) (drop (nat (uf_offset f)) ordered))))"

section \<open>Feedback\<close>

record feedback_reply =
  fr_message :: uuid
  fr_rating :: string
  fr_updated_at :: "int option"

definition feedback_targets :: "store \<Rightarrow> string \<Rightarrow> uuid \<Rightarrow> usage_event list \<Rightarrow> usage_event list" where
  "feedback_targets s tenant message es = newest_first (filter (\<lambda>e. ue_message e = Some message
     \<and> ue_status e = Some ''success''
     \<and> (\<exists>m \<in> set (st_messages s). mr_id m = message \<and> mr_role m = Assistant \<and> mr_tenant m = tenant)) es)"

text \<open>\<open>commit\<close>: what the database answers to the commit.\<close>

definition put_chat_feedback ::
    "store \<Rightarrow> string \<Rightarrow> int \<Rightarrow> exn option \<Rightarrow> uuid \<Rightarrow> string \<Rightarrow> usage_event list
     \<Rightarrow> (nat \<times> string, feedback_reply) result \<times> usage_event list" where
  "put_chat_feedback s tenant now commit message rating es =
     (case feedback_targets s tenant message es of
        [] \<Rightarrow> (Inl (404, ''message_id not found''), es)
      | [e] \<Rightarrow>
          if ev_feedback e = Some rating \<and> ev_feedback_at e \<noteq> None
          then (Inr \<lparr>fr_message = message, fr_rating = rating, fr_updated_at = ev_feedback_at e\<rparr>, es)
          else (case commit of
              Some x \<Rightarrow> (Inl (500, exn_name x), es)
            | None \<Rightarrow> (Inr \<lparr>fr_message = message, fr_rating = rating, fr_updated_at = Some now\<rparr>,
                map (\<lambda>d. if ev_id d = ev_id e then d\<lparr>ev_feedback := Some rating, ev_feedback_at := Some now\<rparr> else d) es))
      | _ \<Rightarrow> (Inl (409, ''feedback target is ambiguous''), es))"

section \<open>Conversations\<close>

definition clamp_limit :: "int \<Rightarrow> int" where
  "clamp_limit limit = (if limit < 1 then 1 else min limit 100)"

definition clamp_offset :: "int \<Rightarrow> int" where
  "clamp_offset offset = max offset 0"

text \<open>\<open>created_at\<close> is the column of that name: newest first.\<close>

definition newest_conversations :: "(uuid \<Rightarrow> int) \<Rightarrow> conversation_row list \<Rightarrow> conversation_row list" where
  "newest_conversations created_at cs = rev (sort_key (\<lambda>c. (created_at (cv_id c), cv_id c)) cs)"

definition conversations_route ::
    "(uuid \<Rightarrow> int) \<Rightarrow> store \<Rightarrow> string \<Rightarrow> int \<Rightarrow> int \<Rightarrow> conversation_list_row list \<times> int \<times> int" where
  "conversations_route created_at s tenant limit offset =
     (list_conversations (newest_conversations created_at) s (nat (clamp_limit limit)) (nat (clamp_offset offset)) tenant,
      clamp_limit limit, clamp_offset offset)"

definition conversation_detail :: "store \<Rightarrow> string \<Rightarrow> uuid \<Rightarrow> (nat \<times> string, message_row list) result" where
  "conversation_detail s tenant cid = (case get_conversation s cid tenant of
     None \<Rightarrow> Inl (404, ''Conversation not found'')
   | Some _ \<Rightarrow> Inr (list_messages_for_conversation s cid tenant))"

section \<open>Trace\<close>

record check_result =
  ck_name :: string
  ck_ok :: bool
  ck_detail :: "string option"

record coherence =
  ch_checks :: "check_result list"
  ch_warnings :: "string list"
  ch_errors :: "string list"

record reconstruction =
  rx_input :: "message_row option"
  rx_output :: "message_row option"

record trace_report =
  tp_request :: uuid
  tp_events :: "usage_event list"
  tp_primary :: usage_event
  tp_conversation :: "conversation_row option"
  tp_messages :: "message_row list option"
  tp_reconstruction :: "reconstruction option"
  tp_coherence :: coherence

abbreviation check :: "string \<Rightarrow> bool \<Rightarrow> check_result" where
  "check name ok \<equiv> \<lparr>ck_name = name, ck_ok = ok, ck_detail = None\<rparr>"

abbreviation check_with :: "string \<Rightarrow> bool \<Rightarrow> string \<Rightarrow> check_result" where
  "check_with name ok detail \<equiv> \<lparr>ck_name = name, ck_ok = ok, ck_detail = Some detail\<rparr>"

text \<open>\<open>str(status).lower()\<close> of a text column that may be null.\<close>

definition status_text :: "string option \<Rightarrow> string" where
  "status_text v = (case v of None \<Rightarrow> ''none'' | Some s \<Rightarrow> py_lower s)"

definition select_primary_event :: "usage_event list \<Rightarrow> usage_event" where
  "select_primary_event es = (case find (\<lambda>e. status_text (ue_status e) = ''success'') es of Some e \<Rightarrow> e | None \<Rightarrow> hd es)"

definition norm_str_enum :: "string option \<Rightarrow> string" where
  "norm_str_enum v = (case v of None \<Rightarrow> []
     | Some s \<Rightarrow> (let n = py_lower (py_strip s) in if CHR ''.'' \<in> set n then last (py_split (CHR ''.'') n) else n))"

text \<open>\<open>str(role).lower()\<close>: the member of the enumeration, not its value.\<close>

definition role_repr :: "role \<Rightarrow> string" where
  "role_repr r = ''messagerole.'' @ role_text r"

definition last_before :: "(message_row \<Rightarrow> bool) \<Rightarrow> message_row list \<Rightarrow> nat \<Rightarrow> message_row option" where
  "last_before p ms i = find p (rev (take i ms))"

definition index_of :: "(message_row \<Rightarrow> bool) \<Rightarrow> message_row list \<Rightarrow> nat option" where
  "index_of p ms = find (\<lambda>i. p (ms ! i)) [0..<length ms]"

definition reconstruct_pair :: "message_row list \<Rightarrow> uuid option \<Rightarrow> (exn, reconstruction) result" where
  "reconstruct_pair ms out_id = (case out_id of
     Some i \<Rightarrow> (case index_of (\<lambda>m. mr_id m = i) ms of
         None \<Rightarrow> Inl (Other_Error ''UnboundLocalError'' [])
       | Some k \<Rightarrow> Inr \<lparr>rx_input = last_before (\<lambda>m. norm_str_enum (Some (role_text (mr_role m))) = ''user'') ms k,
             rx_output = Some (ms ! k)\<rparr>)
   | None \<Rightarrow> (case find (\<lambda>k. norm_str_enum (Some (role_text (mr_role (ms ! k)))) = ''assistant'') (rev [0..<length ms]) of
         None \<Rightarrow> Inr \<lparr>rx_input = None, rx_output = None\<rparr>
       | Some k \<Rightarrow> Inr \<lparr>rx_input = last_before (\<lambda>m. role_repr (mr_role m) = ''user'') ms k, rx_output = Some (ms ! k)\<rparr>))"

definition missing_keys :: "usage_event \<Rightarrow> string list" where
  "missing_keys e = (if ue_conversation e = None then [''conversation_id''] else [])
     @ (if ue_message e = None then [''message_id''] else [])"

definition key_checks :: "usage_event \<Rightarrow> coherence \<Rightarrow> coherence" where
  "key_checks e c =
     (if norm_str_enum (ue_status e) = ''success''
      then (if missing_keys e \<noteq> []
            then c\<lparr>ch_errors := ch_errors c @ [''Success UsageEvent is missing FKs: '' @ py_join '', '' (missing_keys e)],
                   ch_checks := ch_checks c @ [check_with ''success_has_fks'' False (''missing='' @ py_join '','' (missing_keys e))]\<rparr>
            else c\<lparr>ch_checks := ch_checks c @ [check ''success_has_fks'' True]\<rparr>)
      else c\<lparr>ch_checks := ch_checks c @ [check_with ''success_has_fks'' True ''status!=success (best-effort allowed)'']\<rparr>)"

definition count_checks :: "usage_event list \<Rightarrow> coherence" where
  "count_checks es =
     (if length es > 1
      then \<lparr>ch_checks = [check ''usage_event_found'' True, check_with ''single_usage_event'' False (''count='' @ nat_dec (length es))],
            ch_warnings = [''Multiple UsageEvents found for same request_id (using primary_event selection rule).''], ch_errors = []\<rparr>
      else \<lparr>ch_checks = [check ''usage_event_found'' True, check ''single_usage_event'' True], ch_warnings = [], ch_errors = []\<rparr>)"

text \<open>Conversation, messages and the pair, with what they add to the checks.\<close>

definition resolve_conversation ::
    "store \<Rightarrow> usage_event \<Rightarrow> coherence
     \<Rightarrow> (exn, conversation_row option \<times> message_row list option \<times> reconstruction option \<times> coherence) result" where
  "resolve_conversation s e c = (case ue_conversation e of
     None \<Rightarrow> Inr (None, None, None,
       c\<lparr>ch_checks := ch_checks c @ [check_with ''conversation_found'' True ''conversation_id is null (allowed for error/best-effort)'']\<rparr>)
   | Some cid \<Rightarrow>
       (case find (\<lambda>v. cv_id v = cid) (st_conversations s) of
          None \<Rightarrow> Inr (None, None, None, c\<lparr>ch_checks := ch_checks c @ [check ''conversation_found'' False],
            ch_errors := ch_errors c @ [''conversation_id is present in UsageEvent but Conversation not found (FK inconsistency).'']\<rparr>)
        | Some conv \<Rightarrow>
            (let ms = sort_key mr_sequence (filter (\<lambda>m. mr_conversation m = cid) (st_messages s));
                 c1 = c\<lparr>ch_checks := ch_checks c @ [check ''conversation_found'' True]\<rparr>
             in if ms = []
                then Inr (Some conv, Some [], None, c1\<lparr>ch_warnings := ch_warnings c1 @ [''Conversation found but has no messages.''],
                  ch_checks := ch_checks c1 @ [check_with ''messages_loaded'' False ''count=0'']\<rparr>)
                else bind_result (reconstruct_pair ms (ue_message e)) (\<lambda>pair.
                  let c2 = c1\<lparr>ch_checks := ch_checks c1 @ [check_with ''messages_loaded'' True (''count='' @ nat_dec (length ms))]\<rparr>
                  in Inr (Some conv, Some ms, Some pair,
                     (if rx_input pair = None \<or> rx_output pair = None
                      then c2\<lparr>ch_warnings := ch_warnings c2 @ [''Unable to reconstruct complete input/output pair (best-effort).''],
                              ch_checks := ch_checks c2 @ [check ''input_output_resolved'' False]\<rparr>
                      else c2\<lparr>ch_checks := ch_checks c2 @ [check ''input_output_resolved'' True]\<rparr>))))))"

definition reconstruct_by_request_id :: "store \<Rightarrow> usage_event list \<Rightarrow> uuid \<Rightarrow> (exn, trace_report) result" where
  "reconstruct_by_request_id s all rid =
     (let es = newest_first (filter (\<lambda>e. ue_request e = rid) all) in
      if es = [] then Inl (Other_Error ''ValueError'' (''No UsageEvent found for request_id='' @ uuid_str rid))
      else (let primary = select_primary_event es in
        bind_result (resolve_conversation s primary (key_checks primary (count_checks es)))
          (\<lambda>(conv, ms, pair, c). Inr \<lparr>tp_request = rid, tp_events = es, tp_primary = primary, tp_conversation = conv,
             tp_messages = ms, tp_reconstruction = pair, tp_coherence = c\<rparr>)))"

section \<open>What the chat route records\<close>

definition detached :: "usage_row list \<Rightarrow> bool" where
  "detached us = list_all (\<lambda>u. ue_conversation u = None) us"

lemma usage_rows_detached [simp]:
  "ue_conversation (turn_usage en pr) = None" "ue_conversation (stream_usage en opt) = None"
  "ue_conversation (error_usage en m) = None"
  by (simp_all add: turn_usage_def stream_usage_def error_usage_def)

lemma turn_committed_detached:
  "turn_committed en q content [u] s s' \<Longrightarrow> ue_conversation u = None \<Longrightarrow> detached (st_usage s) \<Longrightarrow> detached (st_usage s')"
  by (auto simp: turn_committed_def detached_def)

lemma same_rows_detached: "same_rows s s' \<Longrightarrow> detached (st_usage s) \<Longrightarrow> detached (st_usage s')"
  by (simp add: same_rows_def)

lemma served_detached:
  assumes "served st st'" "detached (st_usage (rt_store st))"
  shows "detached (st_usage (rt_store st'))"
  using assms(1)
proof (cases rule: served.cases)
  case (plain en q rag memory reply)
  from plain(1) show ?thesis
  proof (cases rule: chat_turn_cases)
    case (committed tu p)
    then show ?thesis using turn_committed_detached [OF committed(2) _ assms(2)] by simp
  next
    case (failed e shown kept out)
    then show ?thesis using assms(2) by (simp add: detached_def)
  next
    case not_found
    then show ?thesis using same_rows_detached assms(2) by blast
  qed
next
  case (streamed en q rag memory gone fs)
  from streamed(1) show ?thesis
  proof (cases rule: stream_turn_cases)
    case (persisted session traced r p)
    from turn_committed_detached [OF persisted(6) _ assms(2)] show ?thesis by simp
  next
    case (unsaved chunks rest)
    then show ?thesis using same_rows_detached assms(2) by blast
  qed
next
  case elsewhere
  then show ?thesis using assms(2) by simp
qed

lemma reaches_detached:
  "reaches st st' \<Longrightarrow> detached (st_usage (rt_store st)) \<Longrightarrow> detached (st_usage (rt_store st'))"
  by (induction rule: reaches.induct) (auto intro: served_detached)

section \<open>What a report shows\<close>

text \<open>The events stored for a store: its usage rows with the columns filled later.\<close>

definition events_of :: "store \<Rightarrow> usage_event list \<Rightarrow> bool" where
  "events_of s es = (\<forall>e \<in> set es. usage_row.truncate e \<in> set (st_usage s))"

lemma events_of_detached:
  assumes "events_of s es" "detached (st_usage s)" "e \<in> set es"
  shows "ue_conversation e = None"
proof -
  have "ue_conversation (usage_row.truncate e) = None"
    using assms by (auto simp: events_of_def detached_def list_all_iff)
  then show ?thesis by (simp add: usage_row.truncate_def)
qed

lemma set_newest_first [simp]: "set (newest_first es) = set es"
  by (simp add: newest_first_def)

lemma select_primary_event_in [simp]: "es \<noteq> [] \<Longrightarrow> select_primary_event es \<in> set es"
  by (auto simp: select_primary_event_def find_Some_iff split: option.split)

lemma select_primary_event_success:
  assumes "e \<in> set es" "status_text (ue_status e) = ''success''"
  shows "status_text (ue_status (select_primary_event es)) = ''success''"
proof -
  obtain d where "find (\<lambda>e. status_text (ue_status e) = ''success'') es = Some d"
    using assms by (cases "find (\<lambda>e. status_text (ue_status e) = ''success'') es") (auto simp: find_None_iff)
  moreover from this have "status_text (ue_status d) = ''success''" by (auto simp: find_Some_iff)
  ultimately show ?thesis by (simp add: select_primary_event_def)
qed

lemma norm_success [simp]: "norm_str_enum (Some ''success'') = ''success''"
  by code_simp

lemma resolve_without_conversation:
  "ue_conversation e = None \<Longrightarrow> resolve_conversation s e c = Inr (None, None, None,
     c\<lparr>ch_checks := ch_checks c @ [check_with ''conversation_found'' True ''conversation_id is null (allowed for error/best-effort)'']\<rparr>)"
  by (simp add: resolve_conversation_def)

definition missing_conversation_error :: "string \<Rightarrow> bool" where
  "missing_conversation_error m = prefix ''Success UsageEvent is missing FKs: conversation_id'' m"

lemma key_checks_complain:
  assumes "ue_status e = Some ''success''" "ue_conversation e = None"
  shows "\<exists>m \<in> set (ch_errors (key_checks e c)). missing_conversation_error m"
  using assms by (auto simp: key_checks_def missing_keys_def missing_conversation_error_def)

lemma reconstruct_detached:
  assumes "\<forall>e \<in> set all. ue_conversation e = None" "\<exists>e \<in> set all. ue_request e = rid"
  shows "\<exists>rep. reconstruct_by_request_id s all rid = Inr rep \<and> tp_primary rep \<in> set all \<and> ue_request (tp_primary rep) = rid
    \<and> tp_conversation rep = None \<and> tp_messages rep = None \<and> tp_reconstruction rep = None
    \<and> (ue_status (tp_primary rep) = Some ''success''
         \<longrightarrow> (\<exists>m \<in> set (ch_errors (tp_coherence rep)). missing_conversation_error m))"
proof -
  define es where "es = newest_first (filter (\<lambda>e. ue_request e = rid) all)"
  define primary where "primary = select_primary_event es"
  have "set es = {e \<in> set all. ue_request e = rid}" by (simp add: es_def)
  moreover from this assms(2) have some: "es \<noteq> []" by (metis (mono_tags, lifting) empty_iff empty_set mem_Collect_eq)
  ultimately have "primary \<in> set all" "ue_request primary = rid"
    using select_primary_event_in [OF some] by (simp_all add: primary_def)
  moreover from this(1) assms(1) have none: "ue_conversation primary = None" by blast
  ultimately show ?thesis
    using some key_checks_complain [OF _ none, of "count_checks es"]
    by (simp add: reconstruct_by_request_id_def es_def [symmetric] primary_def [symmetric] Let_def bind_result_def
        resolve_without_conversation)
qed

section \<open>Properties\<close>

text \<open>C34: the reconstruction of a request never finds the turn the chat route recorded. Whatever requests are served
  from a store whose usage rows name no conversation, the report on any of them has no conversation, no
  messages and no pair, and it reports the answered turn itself as an error of missing foreign keys; and
  asking for the events of a conversation finds nothing.\<close>

theorem trace_never_reconstructs_chat_turns:
  assumes "reaches st st'" "detached (st_usage (rt_store st))" "events_of (rt_store st') events"
    and "e \<in> set events" "uf_conversation f = Some c" "list_usage_events f events = Inr found"
  shows "\<exists>rep. reconstruct_by_request_id (rt_store st') events (ue_request e) = Inr rep
    \<and> tp_conversation rep = None \<and> tp_messages rep = None \<and> tp_reconstruction rep = None
    \<and> (ue_status (tp_primary rep) = Some ''success''
         \<longrightarrow> (\<exists>m \<in> set (ch_errors (tp_coherence rep)). missing_conversation_error m))
    \<and> found = []"
proof -
  have none: "\<forall>e \<in> set events. ue_conversation e = None"
    using events_of_detached [OF assms(3) reaches_detached [OF assms(1,2)]] by blast
  then have "filter (usage_matches f) events = []"
    using assms(5) by (auto simp: filter_empty_conv usage_matches_def wanted_def)
  then have "found = []"
    using assms(6) by (auto simp: list_usage_events_def Let_def newest_first_def split: if_splits)
  with reconstruct_detached [OF none] assms(4) show ?thesis by blast
qed

definition example_event :: "usage_row \<Rightarrow> usage_event" where
  "example_event u = usage_row.extend u (usage_event.fields 7 100 None None)"

lemma example_event_simps [simp]: "usage_row.truncate (example_event u) = u" "ue_request (example_event u) = ue_request u"
    "ue_status (example_event u) = ue_status u"
  by (simp_all add: example_event_def usage_row.defs usage_event.defs)

lemma example_turn_recorded:
  "\<exists>st' pr. reaches example_state st' \<and> turn_usage example_env pr \<in> set (st_usage (rt_store st'))"
proof -
  let ?p = "prepare_turn (en_config example_env) example_question no_rag no_memory (en_collector example_env)"
  have through: "turn_goes_through example_env example_question (rt_store example_state)" "\<not> df_usage_refused (en_faults example_env)"
    by (simp_all add: turn_goes_through_def conversation_of_def example_conversations(1) [unfolded One_nat_def] no_faults_def)
  obtain res t where run: "run_chat (en_service example_env) (en_request example_env) (pp_messages ?p) (pp_metadata ?p)
      (rt_tracing example_state) = (Inr res, t)" using example_service_answers unfolding example_env_simps(2) by blast
  obtain st1 where got: "obtain_answer example_env ?p example_state = (Inr (res, False), st1)" "rt_store st1 = rt_store example_state"
    using run by (auto simp: obtain_answer_def Let_def)
  obtain s tu pr where tt: "turn_transaction example_env example_question ?p example_state = (Inr tu, Some pr, st1\<lparr>rt_store := s\<rparr>)"
    "st_usage s = st_usage (rt_store example_state) @ [turn_usage example_env pr]"
    using turn_transaction_recorded [OF through got] by blast
  obtain reply st' where turn: "chat_turn example_env example_question no_rag no_memory example_state = (reply, st')"
    by (cases "chat_turn example_env example_question no_rag no_memory example_state")
  have "st_usage (rt_store st') = st_usage s"
    using chat_turn_success [of example_env example_question no_rag no_memory example_state] tt(1) turn by (simp add: Let_def)
  moreover have "served example_state st'"
    using turn by (rule served.plain) (simp add: fresh_conversation_def)
  ultimately show ?thesis using tt(2) reaches.request [OF reaches.start] by fastforce
qed

theorem trace_never_reconstructs_chat_turns_witness:
  "\<exists>st' events rep. reaches example_state st' \<and> events \<noteq> [] \<and> events_of (rt_store st') events
    \<and> reconstruct_by_request_id (rt_store st') events 7 = Inr rep \<and> tp_reconstruction rep = None"
proof -
  obtain st' pr where st': "reaches example_state st'" "turn_usage example_env pr \<in> set (st_usage (rt_store st'))"
    using example_turn_recorded by blast
  define e where "e = example_event (turn_usage example_env pr)"
  define f where "f = \<lparr>uf_limit = 50, uf_offset = 0, uf_descending = True, uf_from = None, uf_to = None, uf_provider = None,
    uf_model = None, uf_request = None, uf_conversation = Some 1, uf_status = None\<rparr>"
  have hyps: "detached (st_usage (rt_store example_state))" "events_of (rt_store st') [e]" "e \<in> set [e]" "uf_conversation f = Some 1"
    using st' by (simp_all add: detached_def events_of_def e_def f_def example_store_def)
  obtain found where found: "list_usage_events f [e] = Inr found"
    by (simp add: list_usage_events_def usage_filter_ok_def f_def Let_def)
  have "ue_request e = 7" by (simp add: e_def turn_usage_def example_env_def)
  with trace_never_reconstructs_chat_turns [OF st'(1) hyps found] st'(1) hyps(2) show ?thesis
    by (intro exI [of _ st'] exI [of _ "[e]"]) auto
qed

end
