(* ===== verification/Event_Log.thy ===== *)
theory Event_Log imports Domain_Types Json_Text begin

text \<open>
  The append-only, hash-chained event log of the semantic-memory experiment
  (\<open>experiments/conversational_semantic_memory/events.py\<close>), over the text of the file: none when it is
  missing. SHA-256 (of the UTF-8 bytes of a text, in hex) and \<open>repr\<close> of the double a literal denotes are
  parameters. The lemmas show that appending to a log that verifies gives one that verifies with one
  more event, and that two logs with the same last hash hold the same events unless two of the hashed
  texts collide. The exclusive lock makes an append one step.
\<close>

section \<open>Canonical text\<close>

record log_library =
  lib_sha256 :: "string \<Rightarrow> string"
  lib_float_repr :: "string \<Rightarrow> string"

fun float_reprs :: "(string \<Rightarrow> string) \<Rightarrow> json \<Rightarrow> json" where
  "float_reprs fr (JFloat l) = JFloat (fr l)"
| "float_reprs fr (JArr xs) = JArr (map (float_reprs fr) xs)"
| "float_reprs fr (JObj kvs) = JObj (map (\<lambda>(k, v). (k, float_reprs fr v)) kvs)"
| "float_reprs fr j = j"

definition canonical_text :: "log_library \<Rightarrow> json \<Rightarrow> string" where
  "canonical_text lib v = json_dumps False (json_sort (float_reprs (lib_float_repr lib) v))"

section \<open>Events\<close>

record log_event =
  le_seq :: int
  le_type :: string
  le_payload :: "(string \<times> json) list"
  le_previous :: string
  le_hash :: string

definition genesis_previous :: string where
  "genesis_previous = replicate 64 (CHR ''0'')"

definition log_schema_version :: string where
  "log_schema_version = ''orq39-events-v1''"

definition lower_letter :: "char \<Rightarrow> bool" where
  "lower_letter c = (97 \<le> code_point c \<and> code_point c \<le> 122)"

definition event_type_ok :: "string \<Rightarrow> bool" where
  "event_type_ok t = (case t of [] \<Rightarrow> False
     | c # cs \<Rightarrow> lower_letter c \<and> length cs \<le> 63 \<and> list_all (\<lambda>d. lower_letter d \<or> is_digit d \<or> d = CHR ''_'') cs)"

definition sha256_text_ok :: "string \<Rightarrow> bool" where
  "sha256_text_ok t = (length t = 64 \<and> list_all (\<lambda>d. is_digit d \<or> 97 \<le> code_point d \<and> code_point d \<le> 102) t)"

definition event_body :: "int \<Rightarrow> string \<Rightarrow> (string \<times> json) list \<Rightarrow> string \<Rightarrow> (string \<times> json) list" where
  "event_body seq event_type payload previous =
     [(''schema_version'', JStr log_schema_version), (''seq'', JInt seq), (''type'', JStr event_type),
      (''payload'', JObj payload), (''previous'', JStr previous)]"

definition event_hash :: "log_library \<Rightarrow> int \<Rightarrow> string \<Rightarrow> (string \<times> json) list \<Rightarrow> string \<Rightarrow> string" where
  "event_hash lib seq event_type payload previous =
     lib_sha256 lib (canonical_text lib (JObj (event_body seq event_type payload previous)))"

definition log_error :: "string \<Rightarrow> exn" where
  "log_error message = Other_Error ''EventLogError'' message"

definition line_error :: "nat \<Rightarrow> string \<Rightarrow> exn" where
  "line_error n message = log_error (''line '' @ nat_dec n @ '': '' @ message)"

definition record_keys :: "string list" where
  "record_keys = [''schema_version'', ''seq'', ''type'', ''payload'', ''previous'', ''hash'']"

definition parse_event :: "string \<Rightarrow> nat \<Rightarrow> (exn, log_event) result" where
  "parse_event line n = (case json_loads line of
     None \<Rightarrow> Inl (line_error n ''not JSON'')
   | Some (JObj raw) \<Rightarrow>
       if set (map fst raw) \<noteq> set record_keys then Inl (line_error n ''unexpected keys'')
       else if map_of raw ''schema_version'' \<noteq> Some (JStr log_schema_version) then Inl (line_error n ''unknown schema_version'')
       else (case map_of raw ''seq'' of
           Some (JInt seq) \<Rightarrow> (case map_of raw ''type'' of
             Some (JStr ty) \<Rightarrow>
               if \<not> event_type_ok ty then Inl (line_error n ''invalid event type'')
               else (case map_of raw ''payload'' of
                 Some (JObj payload) \<Rightarrow> (case map_of raw ''previous'' of
                   Some (JStr previous) \<Rightarrow>
                     if \<not> sha256_text_ok previous then Inl (line_error n ''invalid previous hash'')
                     else (case map_of raw ''hash'' of
                       Some (JStr digest) \<Rightarrow>
                         if \<not> sha256_text_ok digest then Inl (line_error n ''invalid hash'')
                         else Inr \<lparr>le_seq = seq, le_type = ty, le_payload = payload, le_previous = previous, le_hash = digest\<rparr>
                     | _ \<Rightarrow> Inl (line_error n ''invalid hash''))
                 | _ \<Rightarrow> Inl (line_error n ''invalid previous hash''))
               | _ \<Rightarrow> Inl (line_error n ''payload is not an object''))
           | _ \<Rightarrow> Inl (line_error n ''invalid event type''))
         | _ \<Rightarrow> Inl (line_error n ''seq is not an integer''))
   | Some _ \<Rightarrow> Inl (line_error n ''unexpected keys''))"

section \<open>Reading the file\<close>

text \<open>Text mode translates every line end, and iterating over the file keeps it.\<close>

fun universal_newlines :: "string \<Rightarrow> string" where
  "universal_newlines [] = []"
| "universal_newlines [c] = (if c = CHR 0x0D then [CHR 0x0A] else [c])"
| "universal_newlines (c # d # cs) =
     (if c = CHR 0x0D then CHR 0x0A # universal_newlines (if d = CHR 0x0A then cs else d # cs)
      else c # universal_newlines (d # cs))"

definition file_lines :: "string \<Rightarrow> string list" where
  "file_lines s = (let parts = py_split (CHR 0x0A) (universal_newlines s)
     in map (\<lambda>p. p @ [CHR 0x0A]) (butlast parts) @ (if last parts = [] then [] else [last parts]))"

definition chain_head :: "log_event list \<Rightarrow> string" where
  "chain_head es = (if es = [] then genesis_previous else le_hash (last es))"

fun verify_lines :: "log_library \<Rightarrow> string list \<Rightarrow> log_event list \<Rightarrow> (exn, log_event list) result" where
  "verify_lines lib [] es = Inr es"
| "verify_lines lib (line # rest) es =
     (let n = Suc (length es) in
      if \<not> py_endswith line [CHR 0x0A] then Inl (line_error n ''truncated write'')
      else bind_result (parse_event line n) (\<lambda>e.
        if le_seq e \<noteq> int (length es) then Inl (line_error n ''sequence gap'')
        else if le_previous e \<noteq> chain_head es then Inl (line_error n ''chain broken'')
        else if event_hash lib (le_seq e) (le_type e) (le_payload e) (le_previous e) \<noteq> le_hash e
        then Inl (line_error n ''hash mismatch'')
        else verify_lines lib rest (es @ [e])))"

definition verify_log :: "log_library \<Rightarrow> string option \<Rightarrow> (exn, log_event list) result" where
  "verify_log lib file = (case file of None \<Rightarrow> Inr [] | Some s \<Rightarrow> verify_lines lib (file_lines s) [])"

section \<open>Appending\<close>

text \<open>The event, or the error, and the file after it: opening the file for appending creates it.\<close>

definition append_event ::
    "log_library \<Rightarrow> string \<Rightarrow> (string \<times> json) list \<Rightarrow> string option \<Rightarrow> (exn, log_event) result \<times> string option" where
  "append_event lib event_type payload file =
     (if \<not> event_type_ok event_type then (Inl (log_error ''invalid event type''), file)
      else (case json_loads (canonical_text lib (JObj payload)) of
        Some (JObj detached) \<Rightarrow>
          (let content = (case file of None \<Rightarrow> [] | Some s \<Rightarrow> s) in
           (case verify_log lib (Some content) of
              Inl x \<Rightarrow> (Inl x, Some content)
            | Inr es \<Rightarrow>
                (let seq = int (length es);
                     previous = chain_head es;
                     digest = event_hash lib seq event_type detached previous;
                     text = canonical_text lib (JObj (event_body seq event_type detached previous @ [(''hash'', JStr digest)]))
                 in (Inr \<lparr>le_seq = seq, le_type = event_type, le_payload = detached, le_previous = previous, le_hash = digest\<rparr>,
                     Some (content @ text @ [CHR 0x0A])))))
      | _ \<Rightarrow> (Inl (Other_Error ''JSONDecodeError'' []), file)))"

definition first_event :: "(log_event \<Rightarrow> bool) \<Rightarrow> log_event list \<Rightarrow> log_event option" where
  "first_event p es = find p es"

definition precedes :: "log_event list \<Rightarrow> (log_event \<Rightarrow> bool) \<Rightarrow> (log_event \<Rightarrow> bool) \<Rightarrow> bool" where
  "precedes es earlier later = (case first_event later es of
     None \<Rightarrow> first_event earlier es \<noteq> None
   | Some l \<Rightarrow> (case first_event earlier es of None \<Rightarrow> False | Some e \<Rightarrow> le_seq e < le_seq l))"

section \<open>Lines\<close>

lemma py_split_append: "py_split c (u @ v) = butlast (py_split c u) @ (last (py_split c u) @ hd (py_split c v)) # tl (py_split c v)"
proof (induction u)
  case (Cons x u)
  obtain p ps where "py_split c u = p # ps" by (cases "py_split c u") auto
  with Cons show ?case by (cases ps) (auto split: list.splits)
qed (cases "py_split c v"; simp)

lemma split_line: "CHR 0x0A \<notin> set t \<Longrightarrow> py_split (CHR 0x0A) (t @ [CHR 0x0A]) = [t, []]"
  using py_split_append_sep [of "CHR 0x0A" t "[]"] by simp

lemma universal_newlines_line: "CHR 0x0D \<notin> set t \<Longrightarrow> universal_newlines t = t"
  by (induction t rule: universal_newlines.induct) auto

lemma universal_newlines_append:
  "v = [] \<or> hd v \<noteq> CHR 0x0A \<Longrightarrow> universal_newlines (u @ v) = universal_newlines u @ universal_newlines v"
proof (induction u rule: universal_newlines.induct)
  case (2 c)
  then show ?case by (cases v) auto
qed auto

lemma file_lines_append:
  assumes "list_all (\<lambda>l. py_endswith l [CHR 0x0A]) (file_lines s)" "t \<noteq> []"
    and "CHR 0x0A \<notin> set t" "CHR 0x0D \<notin> set t"
  shows "file_lines (s @ t @ [CHR 0x0A]) = file_lines s @ [t @ [CHR 0x0A]]"
proof -
  define u where "u = universal_newlines s"
  have "last (py_split (CHR 0x0A) u) = []"
  proof (rule ccontr)
    assume *: "last (py_split (CHR 0x0A) u) \<noteq> []"
    then have "py_endswith (last (py_split (CHR 0x0A) u)) [CHR 0x0A]"
      using assms(1) by (simp add: file_lines_def u_def [symmetric] Let_def)
    then have "CHR 0x0A \<in> set (last (py_split (CHR 0x0A) u))"
      by (metis (no_types) py_endswith_def in_set_dropD list.set_intros(1))
    with py_split_no_sep [of "last (py_split (CHR 0x0A) u)" "CHR 0x0A" u] show False by simp
  qed
  moreover have "universal_newlines (s @ t @ [CHR 0x0A]) = u @ t @ [CHR 0x0A]"
    using assms(2-4) by (subst universal_newlines_append) (auto simp: u_def universal_newlines_line hd_append split: list.splits dest: hd_in_set)
  moreover have "py_split (CHR 0x0A) (u @ t @ [CHR 0x0A]) = butlast (py_split (CHR 0x0A) u) @ [last (py_split (CHR 0x0A) u) @ t, []]"
    using py_split_append [of "CHR 0x0A" u "t @ [CHR 0x0A]"] split_line [OF assms(3)] by simp
  ultimately show ?thesis by (simp add: file_lines_def u_def [symmetric] Let_def butlast_append)
qed

section \<open>A record is read back\<close>

lemma float_reprs_plain [simp]: "json_plain j \<Longrightarrow> float_reprs fr j = j"
proof (induction j)
  case (JArr xs)
  then show ?case by (auto simp: list_all_iff intro: map_idI)
next
  case (JObj kvs)
  then show ?case by (fastforce simp: list_all_iff intro!: map_idI)
qed auto

lemma json_sort_object:
  assumes "json_plain (JObj kvs)"
  obtains sorted where "json_sort (JObj kvs) = JObj sorted" "json_plain (JObj sorted)" "set (map fst sorted) = set (map fst kvs)"
    "\<And>k. map_of sorted k = map_option json_sort (map_of kvs k)"
proof -
  define sorted where "sorted = sort_key fst (map (\<lambda>(k, v). (k, json_sort v)) kvs)"
  have eq: "json_sort (JObj kvs) = JObj sorted" by (simp add: sorted_def)
  have "map_of sorted k = map_option json_sort (map_of kvs k)" for k
    using map_of_json_sort [of kvs k] assms eq by simp
  moreover have "json_plain (JObj sorted)" using json_plain_sort [OF assms] eq by simp
  moreover have "set (map fst sorted) = set (map fst kvs)" by (force simp: sorted_def)
  ultimately show thesis using that eq by blast
qed

lemma parse_dumps_line: "json_plain v \<Longrightarrow> json_loads (json_dumps ea v @ [CHR 0x0A]) = Some v"
  using parse_value_dumps [of v ea "Suc (Suc (length (json_dumps ea v)))" "[CHR 0x0A]"] skip_ws_dumps [of v ea "[CHR 0x0A]"]
  by (simp add: json_loads_def number_stop_def is_digit_def json_ws_def code_point_def Let_def)

lemma json_sort_idem [simp]: "json_sort (json_sort j) = json_sort j"
proof (induction j rule: json_sort.induct)
  case (2 kvs)
  define sorted where "sorted = sort_key fst (map (\<lambda>(k, v). (k, json_sort v)) kvs)"
  have "map (\<lambda>(k, v). (k, json_sort v)) sorted = sorted"
    using 2 by (intro map_idI) (fastforce simp: sorted_def)
  moreover have "sort_key fst sorted = sorted" by (simp add: sorted_def sort_key_id_if_sorted)
  ultimately have "json_sort (JObj sorted) = JObj sorted" by simp
  then show ?case by (simp add: sorted_def)
qed simp_all

lemma canonical_loads:
  assumes "json_plain v"
  shows "json_loads (canonical_text lib v) = Some (json_sort v)" "json_loads (canonical_text lib v @ [CHR 0x0A]) = Some (json_sort v)"
  using assms by (simp_all add: canonical_text_def loads_dumps parse_dumps_line json_plain_sort)

lemma canonical_line:
  assumes "json_plain v" "c = CHR 0x0A \<or> c = CHR 0x0D"
  shows "c \<notin> set (canonical_text lib v)"
  using assms json_dumps_clean [OF json_plain_sort, of v c False] by (auto simp: canonical_text_def code_point_def)

definition record_of :: "log_event \<Rightarrow> (string \<times> json) list" where
  "record_of e = event_body (le_seq e) (le_type e) (le_payload e) (le_previous e) @ [(''hash'', JStr (le_hash e))]"

lemma record_of_facts:
  "map_of (record_of e) ''schema_version'' = Some (JStr log_schema_version)" "map_of (record_of e) ''seq'' = Some (JInt (le_seq e))"
  "map_of (record_of e) ''type'' = Some (JStr (le_type e))" "map_of (record_of e) ''payload'' = Some (JObj (le_payload e))"
  "map_of (record_of e) ''previous'' = Some (JStr (le_previous e))" "map_of (record_of e) ''hash'' = Some (JStr (le_hash e))"
  "set (map fst (record_of e)) = set record_keys" "json_plain (JObj (record_of e)) \<longleftrightarrow> json_plain (JObj (le_payload e))"
  by (simp_all add: record_of_def event_body_def record_keys_def)

lemma parse_record:
  assumes "json_plain (JObj (le_payload e))" "json_sort (JObj (le_payload e)) = JObj (le_payload e)" "event_type_ok (le_type e)"
    and "sha256_text_ok (le_previous e)" "sha256_text_ok (le_hash e)"
  shows "parse_event (canonical_text lib (JObj (record_of e)) @ [CHR 0x0A]) n = Inr e"
proof -
  have plain: "json_plain (JObj (record_of e))" using assms(1) by (simp only: record_of_facts)
  then obtain raw where raw: "json_sort (JObj (record_of e)) = JObj raw" "set (map fst raw) = set (map fst (record_of e))"
    "\<And>k. map_of raw k = map_option json_sort (map_of (record_of e) k)" by (rule json_sort_object) (rule that)
  have "map_of raw ''schema_version'' = Some (JStr log_schema_version)" "map_of raw ''seq'' = Some (JInt (le_seq e))"
    "map_of raw ''type'' = Some (JStr (le_type e))" "map_of raw ''payload'' = Some (JObj (le_payload e))"
    "map_of raw ''previous'' = Some (JStr (le_previous e))" "map_of raw ''hash'' = Some (JStr (le_hash e))"
    by (simp_all only: raw(3) record_of_facts option.map assms(2) json_sort.simps(3-7))
  moreover have "set (map fst raw) = set record_keys" by (simp only: raw(2) record_of_facts)
  ultimately show ?thesis
    using assms(3-5) by (simp add: parse_event_def canonical_loads [OF plain] raw(1) del: json_sort.simps set_map)
qed

section \<open>Appending\<close>

lemma verify_lines_append:
  "verify_lines lib (xs @ ys) es = bind_result (verify_lines lib xs es) (verify_lines lib ys)"
proof (induction xs arbitrary: es)
  case (Cons x xs)
  then show ?case by (auto simp: Let_def bind_result_def split: sum.split)
qed simp

lemma verify_lines_complete:
  "verify_lines lib ls es = Inr ds \<Longrightarrow> list_all (\<lambda>l. py_endswith l [CHR 0x0A]) ls"
  by (induction ls arbitrary: es) (auto simp: Let_def bind_result_Inr_iff split: if_splits)

text \<open>What a verified log is, without its text.\<close>

definition chained :: "log_library \<Rightarrow> log_event list \<Rightarrow> bool" where
  "chained lib es = (\<forall>i < length es. le_seq (es ! i) = int i \<and> le_previous (es ! i) = chain_head (take i es)
     \<and> event_hash lib (le_seq (es ! i)) (le_type (es ! i)) (le_payload (es ! i)) (le_previous (es ! i)) = le_hash (es ! i))"

lemma chained_Nil [simp]: "chained lib []"
  by (simp add: chained_def)

lemma chained_snoc [simp]:
  "chained lib (es @ [e]) \<longleftrightarrow> chained lib es \<and> le_seq e = int (length es) \<and> le_previous e = chain_head es
     \<and> event_hash lib (le_seq e) (le_type e) (le_payload e) (le_previous e) = le_hash e"
  by (auto simp: chained_def nth_append less_Suc_eq)

lemma verify_lines_chained: "verify_lines lib ls es = Inr ds \<Longrightarrow> chained lib es \<Longrightarrow> chained lib ds"
  by (induction ls arbitrary: es) (auto simp: Let_def bind_result_Inr_iff split: if_splits)

lemma verify_log_chained: "verify_log lib content = Inr es \<Longrightarrow> chained lib es"
  by (cases content) (auto simp: verify_log_def intro: verify_lines_chained [OF _ chained_Nil])

definition library_ok :: "log_library \<Rightarrow> bool" where
  "library_ok lib = (\<forall>t. sha256_text_ok (lib_sha256 lib t))"

lemma genesis_ok: "sha256_text_ok genesis_previous"
  by (simp add: sha256_text_ok_def genesis_previous_def is_digit_def code_point_def list_all_iff)

lemma chain_head_ok:
  assumes "library_ok lib" "chained lib es"
  shows "sha256_text_ok (chain_head es)"
proof (cases es rule: rev_cases)
  case (snoc ds d)
  with assms(2) have "le_hash d = event_hash lib (le_seq d) (le_type d) (le_payload d) (le_previous d)"
    by (metis chained_snoc)
  with assms(1) snoc show ?thesis by (simp add: chain_head_def library_ok_def event_hash_def)
qed (simp add: chain_head_def genesis_ok)

lemma file_lines_Nil [simp]: "file_lines [] = []"
  by (simp add: file_lines_def)

lemma append_event_verifies:
  assumes lib: "library_ok lib" and log: "verify_log lib file = Inr es"
    and ty: "event_type_ok event_type" and plain: "json_plain (JObj payload)"
  obtains e file' where "append_event lib event_type payload file = (Inr e, Some file')"
    "verify_log lib (Some file') = Inr (es @ [e])" "le_type e = event_type" "JObj (le_payload e) = json_sort (JObj payload)"
    "\<exists>line. file' = (case file of None \<Rightarrow> [] | Some s \<Rightarrow> s) @ line"
proof -
  define content where "content = (case file of None \<Rightarrow> [] | Some s \<Rightarrow> s)"
  obtain detached where detached: "json_sort (JObj payload) = JObj detached" "json_plain (JObj detached)"
    using plain by (rule json_sort_object)
  define e where "e = \<lparr>le_seq = int (length es), le_type = event_type, le_payload = detached, le_previous = chain_head es,
    le_hash = event_hash lib (int (length es)) event_type detached (chain_head es)\<rparr>"
  define line where "line = canonical_text lib (JObj (record_of e))"
  have lines: "verify_lines lib (file_lines content) [] = Inr es"
    using log by (auto simp: verify_log_def content_def split: option.splits)
  have idem: "json_sort (JObj detached) = JObj detached" by (metis detached(1) json_sort_idem)
  have plain_record: "json_plain (JObj (record_of e))" using detached(2) by (simp only: record_of_facts) (simp add: e_def)
  have "verify_lines lib (file_lines (content @ line @ [CHR 0x0A])) [] = Inr (es @ [e])"
  proof -
    have "json_dumps False (json_sort (JObj (record_of e))) \<noteq> []" by simp
    then have "file_lines (content @ line @ [CHR 0x0A]) = file_lines content @ [line @ [CHR 0x0A]]"
      using verify_lines_complete [OF lines] canonical_line [OF plain_record] plain_record
      by (intro file_lines_append) (simp_all add: line_def canonical_text_def)
    moreover have "parse_event (line @ [CHR 0x0A]) (Suc (length es)) = Inr e"
      unfolding line_def using detached(2) idem ty chain_head_ok [OF lib verify_lines_chained [OF lines]] lib
      by (intro parse_record) (simp_all add: e_def library_ok_def event_hash_def)
    ultimately show ?thesis
      by (simp add: verify_lines_append lines Let_def py_endswith_def) (simp add: e_def)
  qed
  moreover have "append_event lib event_type payload file = (Inr e, Some (content @ line @ [CHR 0x0A]))"
    using ty lines by (simp add: append_event_def canonical_loads [OF plain] detached(1) content_def [symmetric] verify_log_def
        Let_def e_def line_def record_of_def del: json_sort.simps)
  ultimately show thesis
    by (intro that [of e "content @ line @ [CHR 0x0A]"]) (auto simp: verify_log_def content_def detached(1) e_def simp del: json_sort.simps)
qed

lemma event_member:
  assumes "JObj (le_payload e) = json_sort (JObj payload)" "distinct (map fst payload)"
  shows "map_of (le_payload e) k = map_option json_sort (map_of payload k)"
  using map_of_json_sort [OF assms(2), of k] by (simp only: assms(1) [symmetric] members_of.simps)

section \<open>Tamper evidence\<close>

definition hashed_text :: "log_library \<Rightarrow> log_event \<Rightarrow> string" where
  "hashed_text lib e = canonical_text lib (JObj (event_body (le_seq e) (le_type e) (le_payload e) (le_previous e)))"

definition payloads_plain :: "log_event list \<Rightarrow> bool" where
  "payloads_plain es = list_all (\<lambda>e. json_plain (JObj (le_payload e))) es"

text \<open>What an event says: its type and its payload, whose members have no order.\<close>

definition event_content :: "log_event \<Rightarrow> string \<times> json" where
  "event_content e = (le_type e, json_sort (JObj (le_payload e)))"

lemma hashed_text_inject:
  assumes "hashed_text lib d = hashed_text lib e" "json_plain (JObj (le_payload d))" "json_plain (JObj (le_payload e))"
  shows "le_seq d = le_seq e \<and> event_content d = event_content e \<and> le_previous d = le_previous e"
proof -
  let ?b = "\<lambda>e. event_body (le_seq e) (le_type e) (le_payload e) (le_previous e)"
  have plain: "json_plain (JObj (?b d))" "json_plain (JObj (?b e))" using assms(2,3) by (simp_all add: event_body_def)
  then have eq: "json_sort (JObj (?b d)) = json_sort (JObj (?b e))"
    using assms(1) json_codec.enc_inject [OF plain [THEN json_plain_sort], of False]
    by (simp only: hashed_text_def canonical_text_def float_reprs_plain [OF plain(1)] float_reprs_plain [OF plain(2)])
  have keys: "distinct (map fst (?b d))" "distinct (map fst (?b e))" by (simp_all add: event_body_def)
  note inj = json_sort_eqD [OF eq keys]
  have "json_sort (JInt (le_seq d)) = json_sort (JInt (le_seq e))" by (rule inj [of "''seq''"]) (simp_all add: event_body_def)
  moreover have "json_sort (JStr (le_type d)) = json_sort (JStr (le_type e))" by (rule inj [of "''type''"]) (simp_all add: event_body_def)
  moreover have "json_sort (JObj (le_payload d)) = json_sort (JObj (le_payload e))" by (rule inj [of "''payload''"]) (simp_all add: event_body_def)
  moreover have "json_sort (JStr (le_previous d)) = json_sort (JStr (le_previous e))" by (rule inj [of "''previous''"]) (simp_all add: event_body_def)
  ultimately show ?thesis by (simp add: event_content_def)
qed

lemma chained_hash: "chained lib (es @ [e]) \<Longrightarrow> le_hash e = lib_sha256 lib (hashed_text lib e)"
  unfolding hashed_text_def event_hash_def [symmetric] by (metis chained_snoc)

lemma chain_determines_content:
  "chained lib es \<Longrightarrow> chained lib ds \<Longrightarrow> payloads_plain es \<Longrightarrow> payloads_plain ds \<Longrightarrow> es \<noteq> [] \<Longrightarrow> ds \<noteq> []
    \<Longrightarrow> chain_head es = chain_head ds \<Longrightarrow> inj_on (lib_sha256 lib) (hashed_text lib ` (set es \<union> set ds))
    \<Longrightarrow> map event_content es = map event_content ds"
proof (induction es arbitrary: ds rule: rev_induct)
  case (snoc e es)
  obtain d ds' where ds: "ds = ds' @ [d]" using snoc.prems(6) by (cases ds rule: rev_cases) auto
  have "lib_sha256 lib (hashed_text lib e) = lib_sha256 lib (hashed_text lib d)"
    using snoc.prems(7) chained_hash [OF snoc.prems(1)] chained_hash [OF snoc.prems(2) [unfolded ds]]
    by (simp add: ds chain_head_def)
  then have "hashed_text lib e = hashed_text lib d"
    by (rule inj_onD [OF snoc.prems(8)]) (simp_all add: ds)
  then have same: "le_seq e = le_seq d" "event_content e = event_content d" "le_previous e = le_previous d"
    using hashed_text_inject [of lib e d] snoc.prems(3,4) by (simp_all add: ds payloads_plain_def)
  then have len: "length es = length ds'" and head: "chain_head es = chain_head ds'"
    using snoc.prems(1,2) by (simp_all add: ds)
  have "map event_content es = map event_content ds'"
  proof (cases "es = []")
    case False
    moreover have "inj_on (lib_sha256 lib) (hashed_text lib ` (set es \<union> set ds'))"
      by (rule inj_on_subset [OF snoc.prems(8)]) (auto simp: ds)
    ultimately show ?thesis using snoc.prems(1-4) len head by (intro snoc.IH) (auto simp: ds payloads_plain_def)
  qed (use len in simp)
  with same show ?case by (simp add: ds)
qed simp

section \<open>Properties\<close>

text \<open>C35: appending to a log that verifies extends it by exactly one event, which reads back as it was written, and
  leaves the text before it alone; and the last hash stands for the whole log: whatever other file verifies
  and ends in the same hash holds the same events, in type and payload, unless two hashed texts collide.\<close>

theorem event_log_is_append_only_and_tamper_evident:
  assumes "library_ok lib" "verify_log lib file = Inr es" "event_type_ok event_type" "json_plain (JObj payload)"
    and "verify_log lib other = Inr ds" "ds \<noteq> []" "payloads_plain es" "payloads_plain ds"
  shows "\<exists>e line. append_event lib event_type payload file = (Inr e, Some ((case file of None \<Rightarrow> [] | Some s \<Rightarrow> s) @ line))
    \<and> verify_log lib (Some ((case file of None \<Rightarrow> [] | Some s \<Rightarrow> s) @ line)) = Inr (es @ [e])
    \<and> event_content e = (event_type, json_sort (JObj payload))
    \<and> (le_hash (last ds) = le_hash e \<longrightarrow> inj_on (lib_sha256 lib) (hashed_text lib ` set (es @ e # ds))
         \<longrightarrow> map event_content ds = map event_content es @ [(event_type, json_sort (JObj payload))])"
proof -
  obtain e file' where e: "append_event lib event_type payload file = (Inr e, Some file')"
    "verify_log lib (Some file') = Inr (es @ [e])" "le_type e = event_type" "JObj (le_payload e) = json_sort (JObj payload)"
    "\<exists>line. file' = (case file of None \<Rightarrow> [] | Some s \<Rightarrow> s) @ line"
    by (rule append_event_verifies [OF assms(1-4)])
  from e(5) obtain line where line: "file' = (case file of None \<Rightarrow> [] | Some s \<Rightarrow> s) @ line" ..
  have content: "event_content e = (event_type, json_sort (JObj payload))"
    by (simp only: event_content_def e(3,4) json_sort_idem)
  have chains: "chained lib (es @ [e])" "chained lib ds"
    by (rule verify_log_chained [OF e(2)]) (rule verify_log_chained [OF assms(5)])
  have plain: "payloads_plain (es @ [e])"
    using assms(7) json_plain_sort [OF assms(4)] e(4) by (simp add: payloads_plain_def del: json_plain.simps json_sort.simps)
  have "map event_content (es @ [e]) = map event_content ds"
    if "le_hash (last ds) = le_hash e" "inj_on (lib_sha256 lib) (hashed_text lib ` set (es @ e # ds))"
    by (rule chain_determines_content [OF chains plain assms(8)])
      (use assms(6) that in \<open>simp_all add: chain_head_def insert_commute Un_commute\<close>)
  then show ?thesis using e(1,2) line content by (metis (no_types, lifting) map_append list.map)
qed

definition constant_library :: log_library where
  "constant_library = \<lparr>lib_sha256 = (\<lambda>_. genesis_previous), lib_float_repr = (\<lambda>l. l)\<rparr>"

lemma constant_library_ok: "library_ok constant_library"
  by (simp add: library_ok_def constant_library_def genesis_ok)

theorem event_log_witness:
  "\<exists>e file. append_event constant_library ''opened'' [(''n'', JInt 1)] None = (Inr e, Some file)
    \<and> verify_log constant_library (Some file) = Inr [e] \<and> event_content e = (''opened'', JObj [(''n'', JInt 1)])"
proof -
  have ok: "verify_log constant_library None = Inr []" "event_type_ok ''opened''" "json_plain (JObj [(''n'', JInt 1)])"
    by (simp_all add: verify_log_def event_type_ok_def lower_letter_def is_digit_def code_point_def)
  obtain d other where other: "append_event constant_library ''opened'' [(''n'', JInt 1)] None = (Inr d, Some other)"
    "verify_log constant_library (Some other) = Inr ([] @ [d])" "JObj (le_payload d) = json_sort (JObj [(''n'', JInt 1)])"
    by (rule append_event_verifies [OF constant_library_ok ok]) (rule that)
  then have "payloads_plain [d]" by (simp add: payloads_plain_def)
  with event_log_is_append_only_and_tamper_evident [OF constant_library_ok ok other(2)] show ?thesis
    by (auto simp: payloads_plain_def)
qed

end
