(* ===== verification/Spend_Guard.thy ===== *)
theory Spend_Guard imports Event_Log Json_Values begin

text \<open>
  The reserve-before-dispatch guard of the semantic-memory experiment
  (\<open>experiments/conversational_semantic_memory/spend_guard.py\<close>) over the hash-chained ledger of theory
  \<open>Event_Log\<close>, with the decimals it keeps there: a coefficient and an exponent, written and read as
  Python's \<open>Decimal\<close> does. Arithmetic is exact: the 28 digits of the default context are not modelled,
  nor are infinities and NaNs, which no writer of the ledger produces.
\<close>

section \<open>Decimals\<close>

datatype decimal = Dec int int

fun dec_value :: "decimal \<Rightarrow> rat" where
  "dec_value (Dec c e) = (if 0 \<le> e then of_int c * 10 ^ nat e else of_int c / 10 ^ nat (- e))"

definition dec_int :: "int \<Rightarrow> decimal" where
  "dec_int n = Dec n 0"

fun dec_add :: "decimal \<Rightarrow> decimal \<Rightarrow> decimal" where
  "dec_add (Dec a e) (Dec b f) = Dec (a * 10 ^ nat (e - min e f) + b * 10 ^ nat (f - min e f)) (min e f)"

fun dec_mult :: "decimal \<Rightarrow> decimal \<Rightarrow> decimal" where
  "dec_mult (Dec a e) (Dec b f) = Dec (a * b) (e + f)"

text \<open>Division by a million: trailing zeros go as long as the exponent stays below that of the dividend.\<close>

fun drop_zeros :: "nat \<Rightarrow> int \<Rightarrow> int \<Rightarrow> decimal" where
  "drop_zeros 0 c e = Dec c e"
| "drop_zeros (Suc n) c e = (if c mod 10 = 0 then drop_zeros n (c div 10) (e + 1) else Dec c e)"

fun dec_per_million :: "decimal \<Rightarrow> decimal" where
  "dec_per_million (Dec c e) = drop_zeros 6 c (e - 6)"

definition dec_le :: "decimal \<Rightarrow> decimal \<Rightarrow> bool" where
  "dec_le x y = (dec_value x \<le> dec_value y)"

definition dec_sum :: "decimal list \<Rightarrow> decimal" where
  "dec_sum xs = foldl dec_add (dec_int 0) xs"

text \<open>\<open>str\<close>: plain notation for a small negative exponent, scientific otherwise.\<close>

fun dec_str :: "decimal \<Rightarrow> string" where
  "dec_str (Dec c e) =
     (let ds = nat_dec (nat \<bar>c\<bar>);
          left = e + int (length ds);
          dot = (if e \<le> 0 \<and> left > - 6 then left else 1);
          mantissa = (if dot \<le> 0 then ''0.'' @ replicate (nat (- dot)) (CHR ''0'') @ ds
                      else if dot \<ge> int (length ds) then ds @ replicate (nat dot - length ds) (CHR ''0'')
                      else take (nat dot) ds @ ''.'' @ drop (nat dot) ds);
          exponent = (if left = dot then []
                      else ''E'' @ (if left - dot < 0 then ''-'' else ''+'') @ nat_dec (nat \<bar>left - dot\<bar>))
      in (if c < 0 then ''-'' else []) @ mantissa @ exponent)"

definition read_sign :: "string \<Rightarrow> int \<times> string" where
  "read_sign s = (case s of c # cs \<Rightarrow> if c = CHR ''-'' then (-1, cs) else if c = CHR ''+'' then (1, cs) else (1, s) | [] \<Rightarrow> (1, []))"

definition read_power :: "string \<Rightarrow> int option" where
  "read_power s = (case s of
     [] \<Rightarrow> Some 0
   | c # cs \<Rightarrow>
       if c = CHR ''E'' \<or> c = CHR ''e''
       then (case read_sign cs of (sig, ds) \<Rightarrow>
              if ds \<noteq> [] \<and> list_all is_digit ds then Some (sig * int (dec_val ds)) else None)
       else None)"

definition read_fractional :: "string \<Rightarrow> string \<times> string" where
  "read_fractional s = (if take 1 s = ''.'' then (takeWhile is_digit (tl s), dropWhile is_digit (tl s)) else ([], s))"

definition dec_parse :: "string \<Rightarrow> decimal option" where
  "dec_parse text =
     (case read_sign (remove_char (CHR ''_'') (py_strip text)) of (sig, s) \<Rightarrow>
      (case read_fractional (dropWhile is_digit s) of (fraction, rest) \<Rightarrow>
       (let whole = takeWhile is_digit s
        in if whole = [] \<and> fraction = [] then None
           else map_option (\<lambda>e. Dec (sig * int (dec_val (whole @ fraction))) (e - int (length fraction))) (read_power rest))))"

section \<open>Pricing and reservations\<close>

record pricing =
  pc_model :: string
  pc_input_usd_per_million :: decimal
  pc_output_usd_per_million :: decimal

definition pricing_cost :: "pricing \<Rightarrow> int \<Rightarrow> int \<Rightarrow> decimal" where
  "pricing_cost p input_tokens output_tokens =
     dec_per_million (dec_add (dec_mult (dec_int input_tokens) (pc_input_usd_per_million p))
                              (dec_mult (dec_int output_tokens) (pc_output_usd_per_million p)))"

record reservation =
  rv_call_id :: string
  rv_usd :: decimal

record spend_guard =
  sg_stage :: string
  sg_ceiling_usd :: decimal
  sg_sub_cap_usd :: decimal
  sg_pricing :: pricing

record ledger_library = log_library +
  lib_odd_str :: "json \<Rightarrow> string"

definition spend_error :: "string \<Rightarrow> exn" where
  "spend_error message = Other_Error ''SpendGuardError'' message"

definition spend_guard_init :: "string \<Rightarrow> decimal \<Rightarrow> decimal \<Rightarrow> pricing \<Rightarrow> (exn, spend_guard) result" where
  "spend_guard_init stage ceiling_usd sub_cap_usd p =
     (if dec_value sub_cap_usd \<le> 0 \<or> dec_value ceiling_usd \<le> 0 \<or> dec_value sub_cap_usd > dec_value ceiling_usd
      then Inl (spend_error ''cost_bound_unavailable: invalid caps'')
      else Inr \<lparr>sg_stage = stage, sg_ceiling_usd = ceiling_usd, sg_sub_cap_usd = sub_cap_usd, sg_pricing = p\<rparr>)"

definition decimal_of :: "json \<Rightarrow> string \<Rightarrow> (exn, decimal) result" where
  "decimal_of value field_name = (case value of
     JStr s \<Rightarrow> (case dec_parse s of Some d \<Rightarrow> Inr d
       | None \<Rightarrow> Inl (spend_error (''cost_bound_unavailable: '' @ field_name @ '' is not a decimal'')))
   | _ \<Rightarrow> Inl (spend_error (''cost_bound_unavailable: '' @ field_name @ '' is not a decimal string'')))"

definition payload_member :: "(string \<times> json) list \<Rightarrow> string \<Rightarrow> (exn, json) result" where
  "payload_member payload k = (case map_of payload k of Some v \<Rightarrow> Inr v | None \<Rightarrow> Inl (Other_Error ''KeyError'' k))"

text \<open>What a result charges: the reservation when no usage was reported.\<close>

definition charge_of :: "(string \<times> json) list \<Rightarrow> decimal \<Rightarrow> (exn, decimal) result" where
  "charge_of payload reserved = (case map_of payload ''usd'' of
     None \<Rightarrow> Inr reserved
   | Some JNull \<Rightarrow> Inr reserved
   | Some v \<Rightarrow> decimal_of v ''call_result.usd'')"

section \<open>The state of a ledger\<close>

record ledger_state =
  ls_committed :: decimal
  ls_reserved :: "(string \<times> decimal) list"
  ls_ordinal :: nat

definition initial_ledger :: ledger_state where
  "initial_ledger = \<lparr>ls_committed = dec_int 0, ls_reserved = [], ls_ordinal = 0\<rparr>"

definition ledger_event :: "ledger_library \<Rightarrow> ledger_state \<Rightarrow> log_event \<Rightarrow> (exn, ledger_state) result" where
  "ledger_event lib st e =
     (if le_type e = ''reservation''
      then bind_result (payload_member (le_payload e) ''call_id'') (\<lambda>j.
        let call_id = py_str (lib_odd_str lib) j in
        if call_id \<in> set (map fst (ls_reserved st)) then Inl (spend_error ''ledger inconsistent: duplicate reservation'')
        else bind_result (payload_member (le_payload e) ''usd'') (\<lambda>v.
             bind_result (decimal_of v ''reservation.usd'') (\<lambda>usd.
             Inr (st\<lparr>ls_reserved := ls_reserved st @ [(call_id, usd)], ls_ordinal := Suc (ls_ordinal st)\<rparr>))))
      else if le_type e = ''call_result''
      then bind_result (payload_member (le_payload e) ''call_id'') (\<lambda>j.
        let call_id = py_str (lib_odd_str lib) j in
        (case map_of (ls_reserved st) call_id of
           None \<Rightarrow> Inl (spend_error ''ledger inconsistent: result without reservation'')
         | Some reserved \<Rightarrow> bind_result (charge_of (le_payload e) reserved) (\<lambda>usd.
             Inr (st\<lparr>ls_reserved := filter (\<lambda>(k, _). k \<noteq> call_id) (ls_reserved st),
                     ls_committed := dec_add (ls_committed st) usd\<rparr>))))
      else Inr st)"

fun ledger_fold :: "ledger_library \<Rightarrow> ledger_state \<Rightarrow> log_event list \<Rightarrow> (exn, ledger_state) result" where
  "ledger_fold lib st [] = Inr st"
| "ledger_fold lib st (e # es) = bind_result (ledger_event lib st e) (\<lambda>st'. ledger_fold lib st' es)"

definition ledger_state_of :: "ledger_library \<Rightarrow> string option \<Rightarrow> (exn, ledger_state) result" where
  "ledger_state_of lib ledger = bind_result (verify_log (log_library.truncate lib) ledger) (ledger_fold lib initial_ledger)"

definition unresolved :: "ledger_state \<Rightarrow> decimal" where
  "unresolved st = dec_sum (map snd (ls_reserved st))"

definition spent_usd :: "ledger_library \<Rightarrow> string option \<Rightarrow> (exn, decimal) result" where
  "spent_usd lib ledger = bind_result (ledger_state_of lib ledger) (\<lambda>st. Inr (dec_add (ls_committed st) (unresolved st)))"

section \<open>Dispatch protocol\<close>

record call_bounds =
  cb_kind :: string
  cb_max_input_tokens :: int
  cb_max_output_tokens :: int
  cb_attempts :: int
  cb_payload_sha256 :: string
  cb_logical_attempt :: string

definition call_id_of :: "string \<Rightarrow> nat \<Rightarrow> string" where
  "call_id_of stage ordinal = stage @ ''-'' @ replicate (6 - length (nat_dec ordinal)) (CHR ''0'') @ nat_dec ordinal"

definition budget_of :: "decimal \<Rightarrow> decimal \<Rightarrow> decimal" where
  "budget_of ceiling_usd sub_cap_usd = (if dec_value sub_cap_usd < dec_value ceiling_usd then sub_cap_usd else ceiling_usd)"

definition proposed_usd :: "spend_guard \<Rightarrow> call_bounds \<Rightarrow> decimal" where
  "proposed_usd g b =
     dec_mult (pricing_cost (sg_pricing g) (cb_max_input_tokens b) (cb_max_output_tokens b)) (dec_int (cb_attempts b))"

definition reservation_payload :: "spend_guard \<Rightarrow> call_bounds \<Rightarrow> string \<Rightarrow> (string \<times> json) list" where
  "reservation_payload g b call_id =
     [(''call_id'', JStr call_id), (''stage'', JStr (sg_stage g)), (''kind'', JStr (cb_kind b)),
      (''logical_attempt'', JStr (cb_logical_attempt b)), (''usd'', JStr (dec_str (proposed_usd g b))),
      (''max_input_tokens'', JInt (cb_max_input_tokens b)), (''max_output_tokens'', JInt (cb_max_output_tokens b)),
      (''attempts'', JInt (cb_attempts b)), (''payload_sha256'', JStr (cb_payload_sha256 b)),
      (''model'', JStr (pc_model (sg_pricing g)))]"

definition reserve :: "ledger_library \<Rightarrow> spend_guard \<Rightarrow> call_bounds \<Rightarrow> string option \<Rightarrow> (exn, reservation) result \<times> string option" where
  "reserve lib g b ledger =
     (if cb_max_input_tokens b < 0 \<or> cb_max_output_tokens b < 0 \<or> cb_attempts b < 1
      then (Inl (spend_error ''cost_bound_unavailable: invalid call bounds''), ledger)
      else (case ledger_state_of lib ledger of
        Inl x \<Rightarrow> (Inl x, ledger)
      | Inr st \<Rightarrow>
          (let proposed = proposed_usd g b;
               budget = budget_of (sg_ceiling_usd g) (sg_sub_cap_usd g);
               call_id = call_id_of (sg_stage g) (ls_ordinal st)
           in if dec_value (dec_add (dec_add (ls_committed st) (unresolved st)) proposed) > dec_value budget
              then (Inl (spend_error (''spend guard refused '' @ cb_kind b @ '': committed '' @ dec_str (ls_committed st)
                     @ '' + unresolved '' @ dec_str (unresolved st) @ '' + proposed '' @ dec_str proposed
                     @ '' exceeds '' @ dec_str budget)), ledger)
              else (case append_event (log_library.truncate lib) ''reservation'' (reservation_payload g b call_id) ledger of
                  (Inl x, ledger') \<Rightarrow> (Inl x, ledger')
                | (Inr _, ledger') \<Rightarrow> (Inr \<lparr>rv_call_id = call_id, rv_usd = proposed\<rparr>, ledger')))))"

text \<open>\<open>isinstance(v, int)\<close>, which a boolean is.\<close>

definition int_value :: "json option \<Rightarrow> int option" where
  "int_value v = (case v of Some (JInt i) \<Rightarrow> Some i | Some (JBool b) \<Rightarrow> Some (if b then 1 else 0) | _ \<Rightarrow> None)"

definition reported_usd :: "pricing \<Rightarrow> (string \<times> json) list option \<Rightarrow> decimal option" where
  "reported_usd p usage = (case usage of
     None \<Rightarrow> None
   | Some u \<Rightarrow>
       (let input_tokens = (case map_of u ''prompt_tokens'' of Some v \<Rightarrow> Some v | None \<Rightarrow> map_of u ''input_tokens'');
            output_tokens = (case map_of u ''completion_tokens'' of Some v \<Rightarrow> Some v
              | None \<Rightarrow> (case map_of u ''output_tokens'' of Some v \<Rightarrow> Some v | None \<Rightarrow> Some (JInt 0)))
        in (case (int_value input_tokens, int_value output_tokens) of
             (Some i, Some j) \<Rightarrow> Some (pricing_cost p i j)
           | _ \<Rightarrow> None)))"

definition result_payload :: "reservation \<Rightarrow> string \<Rightarrow> decimal option \<Rightarrow> (string \<times> json) list option \<Rightarrow> (string \<times> json) list" where
  "result_payload r status usd usage =
     [(''call_id'', JStr (rv_call_id r)), (''status'', JStr status),
      (''usd'', case usd of Some d \<Rightarrow> JStr (dec_str d) | None \<Rightarrow> JNull),
      (''usage'', case usage of Some u \<Rightarrow> JObj u | None \<Rightarrow> JNull)]"

definition settle ::
    "ledger_library \<Rightarrow> spend_guard \<Rightarrow> reservation \<Rightarrow> string \<Rightarrow> (string \<times> json) list option \<Rightarrow> string option
     \<Rightarrow> (exn, decimal) result \<times> string option" where
  "settle lib g r status usage ledger =
     (if status \<notin> {''ok'', ''failed''} then (Inl (spend_error ''invalid call status''), ledger)
      else (let usd = reported_usd (sg_pricing g) usage in
        (case append_event (log_library.truncate lib) ''call_result'' (result_payload r status usd usage) ledger of
           (Inl x, ledger') \<Rightarrow> (Inl x, ledger')
         | (Inr _, ledger') \<Rightarrow> (Inr (case usd of Some d \<Rightarrow> d | None \<Rightarrow> rv_usd r), ledger'))))"

section \<open>Auditing a ledger\<close>

record ledger_row =
  lr_call_id :: json
  lr_committed_before :: decimal
  lr_unresolved_before :: decimal
  lr_proposed :: decimal
  lr_fits :: bool

record ledger_report =
  rp_passed :: bool
  rp_total_usd :: decimal
  rp_budget_usd :: decimal
  rp_rows :: "ledger_row list"

record audit_state =
  as_committed :: decimal
  as_reserved :: "(string \<times> decimal) list"
  as_rows :: "ledger_row list"

definition audit_event :: "ledger_library \<Rightarrow> decimal \<Rightarrow> audit_state \<Rightarrow> log_event \<Rightarrow> (exn, audit_state) result" where
  "audit_event lib budget a e =
     (if le_type e = ''reservation''
      then bind_result (payload_member (le_payload e) ''usd'') (\<lambda>v.
           bind_result (decimal_of v ''reservation.usd'') (\<lambda>proposed.
           bind_result (payload_member (le_payload e) ''call_id'') (\<lambda>j.
             let open_total = dec_sum (map snd (as_reserved a));
                 fits = dec_value (dec_add (dec_add (as_committed a) open_total) proposed) \<le> dec_value budget
             in Inr (a\<lparr>as_rows := as_rows a @ [\<lparr>lr_call_id = j, lr_committed_before = as_committed a,
                         lr_unresolved_before = open_total, lr_proposed = proposed, lr_fits = fits\<rparr>],
                      as_reserved := dict_put (py_str (lib_odd_str lib) j) proposed (as_reserved a)\<rparr>))))
      else if le_type e = ''call_result''
      then bind_result (payload_member (le_payload e) ''call_id'') (\<lambda>j.
        let call_id = py_str (lib_odd_str lib) j in
        (case map_of (as_reserved a) call_id of
           None \<Rightarrow> Inl (Other_Error ''KeyError'' call_id)
         | Some reserved \<Rightarrow> bind_result (charge_of (le_payload e) reserved) (\<lambda>usd.
             Inr (a\<lparr>as_reserved := filter (\<lambda>(k, _). k \<noteq> call_id) (as_reserved a),
                    as_committed := dec_add (as_committed a) usd\<rparr>))))
      else Inr a)"

fun audit_fold :: "ledger_library \<Rightarrow> decimal \<Rightarrow> audit_state \<Rightarrow> log_event list \<Rightarrow> (exn, audit_state) result" where
  "audit_fold lib budget a [] = Inr a"
| "audit_fold lib budget a (e # es) = bind_result (audit_event lib budget a e) (\<lambda>a'. audit_fold lib budget a' es)"

definition validate_ledger :: "ledger_library \<Rightarrow> decimal \<Rightarrow> decimal \<Rightarrow> string option \<Rightarrow> (exn, ledger_report) result" where
  "validate_ledger lib ceiling_usd sub_cap_usd ledger =
     (let budget = budget_of ceiling_usd sub_cap_usd in
      bind_result (verify_log (log_library.truncate lib) ledger) (\<lambda>es.
      bind_result (audit_fold lib budget \<lparr>as_committed = dec_int 0, as_reserved = [], as_rows = []\<rparr> es) (\<lambda>a.
        let total = dec_add (as_committed a) (dec_sum (map snd (as_reserved a)))
        in Inr \<lparr>rp_passed = (list_all lr_fits (as_rows a) \<and> dec_value total \<le> dec_value budget),
                rp_total_usd = total, rp_budget_usd = budget, rp_rows = as_rows a\<rparr>)))"

section \<open>Decimals are read back\<close>

lemma dec_value_powi: "dec_value (Dec c e) = of_int c * 10 powi e"
  unfolding dec_value.simps power_int_def divide_inverse power_inverse by simp

lemma dec_scale: "m \<le> e \<Longrightarrow> of_int (a * 10 ^ nat (e - m)) * (10 :: rat) powi m = of_int a * 10 powi e"
proof -
  assume "m \<le> e"
  then have "(10 :: rat) powi e = 10 ^ nat (e - m) * 10 powi m"
    using power_int_add [of "10 :: rat" "e - m" m] power_int_of_nat [of "10 :: rat" "nat (e - m)"] by simp
  then show ?thesis by (simp only: of_int_mult of_int_power of_int_numeral mult.assoc)
qed

lemma dec_value_add [simp]: "dec_value (dec_add x y) = dec_value x + dec_value y"
proof (cases x; cases y)
  fix a e b f assume xy: "x = Dec a e" "y = Dec b f"
  show ?thesis
    unfolding xy dec_add.simps dec_value_powi of_int_add distrib_right
    by (subst (1 2) dec_scale) simp_all
qed

lemma dec_value_sum: "dec_value (dec_sum xs) = sum_list (map dec_value xs)"
proof -
  have "dec_value (foldl dec_add z xs) = dec_value z + sum_list (map dec_value xs)" for z
    by (induction xs arbitrary: z) simp_all
  then show ?thesis by (simp add: dec_sum_def dec_int_def)
qed

lemma is_digit_not: "is_digit c \<Longrightarrow> c \<noteq> CHR ''_'' \<and> c \<noteq> CHR ''-'' \<and> c \<noteq> CHR ''+'' \<and> c \<noteq> CHR ''.'' \<and> c \<noteq> CHR ''E'' \<and> \<not> py_space c"
  by (auto simp: is_digit_def code_point_def py_space_def)

lemma dec_val_zeros [simp]: "dec_val (replicate n (CHR ''0'') @ ds) = dec_val ds"
proof -
  have "foldl (\<lambda>n c. 10 * n + digit_val c) 0 (replicate n (CHR ''0'')) = 0"
    by (induction n) (simp_all add: digit_val_def code_point_def)
  then show ?thesis by (simp add: dec_val_def)
qed

definition exponent_text :: "int \<Rightarrow> string" where
  "exponent_text x = (if x = 0 then [] else ''E'' @ (if x < 0 then ''-'' else ''+'') @ nat_dec (nat \<bar>x\<bar>))"

lemma takeWhile_all_then:
  assumes "list_all p xs" "ys = [] \<or> \<not> p (hd ys)"
  shows "takeWhile p (xs @ ys) = xs" "dropWhile p (xs @ ys) = ys"
  using assms by (cases ys; auto simp: list_all_iff)+

lemma read_sign_digits: "ds \<noteq> [] \<Longrightarrow> list_all is_digit ds \<Longrightarrow> read_sign (ds @ r) = (1, ds @ r)"
  by (cases ds) (auto simp: read_sign_def dest: is_digit_not)

lemma dec_parse_shape:
  assumes "list_all is_digit whole" "whole \<noteq> []" "list_all is_digit fr"
  shows "dec_parse ((if neg then ''-'' else []) @ whole @ (if fr = [] then [] else ''.'' @ fr) @ exponent_text x)
    = Some (Dec ((if neg then - 1 else 1) * int (dec_val (whole @ fr))) (x - int (length fr)))"
proof -
  define tail where "tail = exponent_text x"
  define body where "body = whole @ (if fr = [] then [] else ''.'' @ fr) @ tail"
  define out where "out = (if neg then ''-'' else []) @ body"
  have digits: "list_all is_digit (nat_dec n)" for n using nat_dec_digits by (auto simp: list_all_iff)
  have plain: "\<forall>c \<in> set ds. \<not> py_space c \<and> c \<noteq> CHR ''_''" if "list_all is_digit ds" for ds
    using that is_digit_not by (auto simp: list_all_iff)
  have "\<forall>c \<in> {CHR ''-'', CHR ''+'', CHR ''.'', CHR ''E''}. \<not> py_space c \<and> c \<noteq> CHR ''_''"
    by (simp add: py_space_def code_point_def)
  then have "\<forall>c \<in> set out. \<not> py_space c \<and> c \<noteq> CHR ''_''"
    using plain [OF assms(1)] plain [OF assms(3)] plain [OF digits]
    by (auto simp: out_def body_def tail_def exponent_text_def)
  moreover have "out \<noteq> []" using assms(2) by (simp add: out_def body_def)
  ultimately have "py_strip out = out" "remove_char (CHR ''_'') out = out"
    by (simp_all add: py_strip_id remove_char_def filter_id_conv)
  moreover have "read_sign out = (if neg then - 1 else 1, body)"
  proof (cases neg)
    case True
    then show ?thesis by (simp add: out_def read_sign_def)
  next
    case False
    then show ?thesis using read_sign_digits [OF assms(2,1)] by (simp add: out_def body_def)
  qed
  moreover have nodigit: "tail = [] \<or> \<not> is_digit (hd tail)" "tail = [] \<or> hd tail \<noteq> CHR ''.''"
    by (simp_all add: tail_def exponent_text_def is_digit_def code_point_def)
  moreover have "takeWhile is_digit body = whole" "dropWhile is_digit body = (if fr = [] then [] else ''.'' @ fr) @ tail"
    unfolding body_def using nodigit
    by (intro takeWhile_all_then [OF assms(1)], simp add: is_digit_def code_point_def)+
  moreover have "read_fractional ((if fr = [] then [] else ''.'' @ fr) @ tail) = (fr, tail)"
  proof (cases "fr = []")
    case True
    then show ?thesis using nodigit(2) by (cases tail) (simp_all add: read_fractional_def)
  next
    case False
    have "takeWhile is_digit (fr @ tail) = fr" "dropWhile is_digit (fr @ tail) = tail"
      using nodigit(1) by (intro takeWhile_all_then [OF assms(3)], simp)+
    with False show ?thesis by (simp add: read_fractional_def)
  qed
  moreover have "read_power tail = Some x"
    using digits by (simp add: tail_def exponent_text_def read_sign_def read_power_def)
  ultimately show ?thesis
    using assms(2) unfolding dec_parse_def body_def [symmetric] tail_def [symmetric] out_def [symmetric]
    by (simp add: Let_def)
qed

lemma dec_parse_str [simp]: "dec_parse (dec_str d) = Some d"
proof (cases d)
  case (Dec c e)
  define ds where "ds = nat_dec (nat \<bar>c\<bar>)"
  define left where "left = e + int (length ds)"
  define dot where "dot = (if e \<le> 0 \<and> left > - 6 then left else 1)"
  define whole where "whole = (if dot \<le> 0 then ''0'' else take (nat dot) ds)"
  define fr where "fr = (if dot \<le> 0 then replicate (nat (- dot)) (CHR ''0'') @ ds else drop (nat dot) ds)"
  have digits: "list_all is_digit ds" using nat_dec_digits by (auto simp: list_all_iff ds_def)
  have len: "length ds \<ge> 1" unfolding ds_def using nat_dec_not_Nil by (simp add: Suc_le_eq)
  have bound: "dot \<le> int (length ds)" using len by (simp add: dot_def left_def)
  have mantissa: "(if dot \<le> 0 then ''0.'' @ replicate (nat (- dot)) (CHR ''0'') @ ds
      else if dot \<ge> int (length ds) then ds @ replicate (nat dot - length ds) (CHR ''0'')
      else take (nat dot) ds @ ''.'' @ drop (nat dot) ds) = whole @ (if fr = [] then [] else ''.'' @ fr)"
  proof (cases "dot = int (length ds)")
    case True
    moreover have "ds \<noteq> []" using len by auto
    ultimately show ?thesis by (simp add: whole_def fr_def)
  next
    case False
    with bound have "dot < int (length ds)" by simp
    with len show ?thesis by (auto simp: whole_def fr_def)
  qed
  have exponent: "(if left = dot then [] else ''E'' @ (if left - dot < 0 then ''-'' else ''+'') @ nat_dec (nat \<bar>left - dot\<bar>))
      = exponent_text (left - dot)"
    by (simp add: exponent_text_def)
  have "dec_str d = (if c < 0 then ''-'' else []) @ whole @ (if fr = [] then [] else ''.'' @ fr) @ exponent_text (left - dot)"
    unfolding Dec dec_str.simps Let_def ds_def [symmetric] left_def [symmetric] dot_def [symmetric] mantissa exponent
    by simp
  moreover have "dec_parse \<dots> = Some (Dec ((if c < 0 then - 1 else 1) * int (dec_val (whole @ fr))) (left - dot - int (length fr)))"
    using digits len by (intro dec_parse_shape) (auto simp: whole_def fr_def list_all_iff is_digit_def code_point_def dest: in_set_takeD in_set_dropD)
  moreover have "dec_val (whole @ fr) = nat \<bar>c\<bar>"
    using dec_val_zeros [of "Suc (nat (- dot))" ds] by (simp add: whole_def fr_def ds_def)
  moreover have "left - dot - int (length fr) = e"
    using bound by (auto simp: fr_def left_def)
  ultimately show ?thesis using Dec by simp
qed

section \<open>Ledgers the guard writes\<close>

lemma call_id_inject [simp]: "call_id_of s i = call_id_of s j \<longleftrightarrow> i = j"
proof
  assume "call_id_of s i = call_id_of s j"
  then have "dec_val (replicate (6 - length (nat_dec i)) (CHR ''0'') @ nat_dec i)
      = dec_val (replicate (6 - length (nat_dec j)) (CHR ''0'') @ nat_dec j)"
    by (simp add: call_id_of_def)
  then show "i = j" by simp
qed simp

definition usage_plain :: "(string \<times> json) list option \<Rightarrow> bool" where
  "usage_plain usage = (case usage of None \<Rightarrow> True | Some u \<Rightarrow> json_plain (JObj u))"

definition usage_within :: "pricing \<Rightarrow> reservation \<Rightarrow> (string \<times> json) list option \<Rightarrow> bool" where
  "usage_within p r usage = (case reported_usd p usage of None \<Rightarrow> True | Some d \<Rightarrow> dec_value d \<le> dec_value (rv_usd r))"

text \<open>Everything that can happen to one ledger: the reservations still open are those no result names; a
  process that dies leaves them so. With \<open>honest\<close>, no reported usage costs more than was reserved.\<close>

inductive ledger_run :: "ledger_library \<Rightarrow> spend_guard \<Rightarrow> bool \<Rightarrow> string option \<Rightarrow> reservation list \<Rightarrow> bool"
  for lib :: ledger_library and g :: spend_guard and honest :: bool where
  opened: "ledger_run lib g honest None []"
| reserved: "ledger_run lib g honest l os \<Longrightarrow> reserve lib g b l = (Inr r, l') \<Longrightarrow> ledger_run lib g honest l' (os @ [r])"
| refused: "ledger_run lib g honest l os \<Longrightarrow> reserve lib g b l = (Inl x, l') \<Longrightarrow> ledger_run lib g honest l' os"
| settled: "ledger_run lib g honest l os \<Longrightarrow> r \<in> set os \<Longrightarrow> usage_plain usage
    \<Longrightarrow> (honest \<Longrightarrow> usage_within (sg_pricing g) r usage) \<Longrightarrow> settle lib g r status usage l = (Inr d, l')
    \<Longrightarrow> ledger_run lib g honest l' (filter (\<lambda>q. rv_call_id q \<noteq> rv_call_id r) os)"
| not_settled: "ledger_run lib g honest l os \<Longrightarrow> r \<in> set os \<Longrightarrow> usage_plain usage
    \<Longrightarrow> settle lib g r status usage l = (Inl x, l') \<Longrightarrow> ledger_run lib g honest l' os"

lemma ledger_fold_append: "ledger_fold lib st (es @ fs) = bind_result (ledger_fold lib st es) (\<lambda>st'. ledger_fold lib st' fs)"
  by (induction es arbitrary: st) (auto simp: bind_result_def split: sum.split)

lemma audit_fold_append: "audit_fold lib m a (es @ fs) = bind_result (audit_fold lib m a es) (\<lambda>a'. audit_fold lib m a' fs)"
  by (induction es arbitrary: a) (auto simp: bind_result_def split: sum.split)

definition guard_budget :: "spend_guard \<Rightarrow> decimal" where
  "guard_budget g = budget_of (sg_ceiling_usd g) (sg_sub_cap_usd g)"

definition initial_audit :: audit_state where
  "initial_audit = \<lparr>as_committed = dec_int 0, as_reserved = [], as_rows = []\<rparr>"

definition total_usd :: "ledger_state \<Rightarrow> rat" where
  "total_usd st = dec_value (ls_committed st) + sum_list (map (dec_value \<circ> snd) (ls_reserved st))"

definition open_entries :: "reservation list \<Rightarrow> (string \<times> decimal) list" where
  "open_entries os = map (\<lambda>r. (rv_call_id r, rv_usd r)) os"

text \<open>What both readers of the ledger find, with the state and the audit in step.\<close>

definition ledger_inv :: "ledger_library \<Rightarrow> spend_guard \<Rightarrow> bool \<Rightarrow> string option \<Rightarrow> reservation list \<Rightarrow> ledger_state \<Rightarrow> audit_state \<Rightarrow> bool" where
  "ledger_inv lib g honest l os st a =
     ((\<exists>es. verify_log (log_library.truncate lib) l = Inr es \<and> ledger_fold lib initial_ledger es = Inr st
         \<and> audit_fold lib (guard_budget g) initial_audit es = Inr a)
      \<and> ls_reserved st = open_entries os \<and> distinct (map rv_call_id os)
      \<and> (\<forall>r \<in> set os. \<exists>i < ls_ordinal st. rv_call_id r = call_id_of (sg_stage g) i)
      \<and> as_committed a = ls_committed st \<and> as_reserved a = ls_reserved st \<and> list_all lr_fits (as_rows a)
      \<and> (honest \<longrightarrow> total_usd st \<le> dec_value (guard_budget g)))"

lemma ledger_inv_state: "ledger_inv lib g honest l os st a \<Longrightarrow> ledger_state_of lib l = Inr st"
  by (auto simp: ledger_inv_def ledger_state_of_def)

lemma reservation_event:
  assumes "JObj (le_payload e) = json_sort (JObj (reservation_payload g b (call_id_of (sg_stage g) n)))" "le_type e = ''reservation''"
    and "call_id_of (sg_stage g) n \<notin> set (map fst (ls_reserved st))" "as_reserved a = ls_reserved st"
  shows "ledger_event lib st e = Inr (st\<lparr>ls_reserved := ls_reserved st @ [(call_id_of (sg_stage g) n, proposed_usd g b)],
      ls_ordinal := Suc (ls_ordinal st)\<rparr>)"
    and "audit_event lib m a e = Inr (a\<lparr>as_rows := as_rows a @ [\<lparr>lr_call_id = JStr (call_id_of (sg_stage g) n),
        lr_committed_before = as_committed a, lr_unresolved_before = dec_sum (map snd (as_reserved a)),
        lr_proposed = proposed_usd g b,
        lr_fits = (dec_value (dec_add (dec_add (as_committed a) (dec_sum (map snd (as_reserved a)))) (proposed_usd g b)) \<le> dec_value m)\<rparr>],
      as_reserved := as_reserved a @ [(call_id_of (sg_stage g) n, proposed_usd g b)]\<rparr>)"
proof -
  have "distinct (map fst (reservation_payload g b (call_id_of (sg_stage g) n)))" by (simp add: reservation_payload_def)
  note get = event_member [OF assms(1) this]
  have "map_of (le_payload e) ''call_id'' = Some (JStr (call_id_of (sg_stage g) n))"
    "map_of (le_payload e) ''usd'' = Some (JStr (dec_str (proposed_usd g b)))"
    by (simp_all only: get) (simp_all add: reservation_payload_def)
  then show "ledger_event lib st e = Inr (st\<lparr>ls_reserved := ls_reserved st @ [(call_id_of (sg_stage g) n, proposed_usd g b)],
      ls_ordinal := Suc (ls_ordinal st)\<rparr>)"
    and "audit_event lib m a e = Inr (a\<lparr>as_rows := as_rows a @ [\<lparr>lr_call_id = JStr (call_id_of (sg_stage g) n),
        lr_committed_before = as_committed a, lr_unresolved_before = dec_sum (map snd (as_reserved a)),
        lr_proposed = proposed_usd g b,
        lr_fits = (dec_value (dec_add (dec_add (as_committed a) (dec_sum (map snd (as_reserved a)))) (proposed_usd g b)) \<le> dec_value m)\<rparr>],
      as_reserved := as_reserved a @ [(call_id_of (sg_stage g) n, proposed_usd g b)]\<rparr>)"
    using assms(2-4) by (simp_all add: ledger_event_def audit_event_def payload_member_def decimal_of_def py_str_def Let_def dict_put_def)
qed

definition charged :: "spend_guard \<Rightarrow> reservation \<Rightarrow> (string \<times> json) list option \<Rightarrow> decimal" where
  "charged g r usage = (case reported_usd (sg_pricing g) usage of Some d \<Rightarrow> d | None \<Rightarrow> rv_usd r)"

lemma result_event:
  assumes "JObj (le_payload e) = json_sort (JObj (result_payload r status (reported_usd (sg_pricing g) usage) usage))" "le_type e = ''call_result''"
    and "map_of (ls_reserved st) (rv_call_id r) = Some (rv_usd r)" "as_reserved a = ls_reserved st"
  shows "ledger_event lib st e = Inr (st\<lparr>ls_reserved := filter (\<lambda>(k, _). k \<noteq> rv_call_id r) (ls_reserved st),
      ls_committed := dec_add (ls_committed st) (charged g r usage)\<rparr>)"
    and "audit_event lib m a e = Inr (a\<lparr>as_reserved := filter (\<lambda>(k, _). k \<noteq> rv_call_id r) (as_reserved a),
      as_committed := dec_add (as_committed a) (charged g r usage)\<rparr>)"
proof -
  let ?usd = "reported_usd (sg_pricing g) usage"
  have "distinct (map fst (result_payload r status ?usd usage))" by (simp add: result_payload_def)
  note get = event_member [OF assms(1) this]
  have id: "map_of (le_payload e) ''call_id'' = Some (JStr (rv_call_id r))"
    by (simp only: get) (simp add: result_payload_def)
  have "map_of (le_payload e) ''usd'' = Some (case ?usd of Some d \<Rightarrow> JStr (dec_str d) | None \<Rightarrow> JNull)"
    by (simp only: get) (simp add: result_payload_def split: option.split)
  then have "charge_of (le_payload e) (rv_usd r) = Inr (charged g r usage)"
    by (simp add: charge_of_def charged_def decimal_of_def split: option.split)
  with id assms(2-4) show "ledger_event lib st e = Inr (st\<lparr>ls_reserved := filter (\<lambda>(k, _). k \<noteq> rv_call_id r) (ls_reserved st),
      ls_committed := dec_add (ls_committed st) (charged g r usage)\<rparr>)"
    and "audit_event lib m a e = Inr (a\<lparr>as_reserved := filter (\<lambda>(k, _). k \<noteq> rv_call_id r) (as_reserved a),
      as_committed := dec_add (as_committed a) (charged g r usage)\<rparr>)"
    by (simp_all add: ledger_event_def audit_event_def payload_member_def py_str_def Let_def)
qed

text \<open>Appending an event moves both readers by one step.\<close>

lemma append_to_ledger:
  assumes "library_ok (log_library.truncate lib)" "ledger_inv lib g honest l os st a" "event_type_ok ty" "json_plain (JObj payload)"
    and "append_event (log_library.truncate lib) ty payload l = (out, l')"
  obtains e es where "out = Inr e" "verify_log (log_library.truncate lib) l' = Inr (es @ [e])"
    "ledger_fold lib initial_ledger es = Inr st" "audit_fold lib (guard_budget g) initial_audit es = Inr a"
    "le_type e = ty" "JObj (le_payload e) = json_sort (JObj payload)"
proof -
  obtain es where es: "verify_log (log_library.truncate lib) l = Inr es" "ledger_fold lib initial_ledger es = Inr st"
    "audit_fold lib (guard_budget g) initial_audit es = Inr a" using assms(2) by (auto simp: ledger_inv_def)
  obtain e f where "append_event (log_library.truncate lib) ty payload l = (Inr e, Some f)"
    "verify_log (log_library.truncate lib) (Some f) = Inr (es @ [e])" "le_type e = ty" "JObj (le_payload e) = json_sort (JObj payload)"
    by (rule append_event_verifies [OF assms(1) es(1) assms(3,4)])
  with es(2,3) assms(5) show thesis by (intro that [of e es]) simp_all
qed

lemma event_types_ok [simp]: "event_type_ok ''reservation''" "event_type_ok ''call_result''"
  by (simp_all add: event_type_ok_def lower_letter_def is_digit_def code_point_def)

lemma reserve_keeps_inv:
  assumes "library_ok (log_library.truncate lib)" "ledger_inv lib g honest l os st a" "reserve lib g b l = (Inr r, l')"
  shows "\<exists>st' a'. ledger_inv lib g honest l' (os @ [r]) st' a'"
proof -
  define n where "n = ls_ordinal st"
  define entry where "entry = (call_id_of (sg_stage g) n, proposed_usd g b)"
  note state = ledger_inv_state [OF assms(2)]
  have fits: "dec_value (dec_add (dec_add (ls_committed st) (unresolved st)) (proposed_usd g b)) \<le> dec_value (guard_budget g)"
    using assms(3) state by (auto simp: reserve_def Let_def guard_budget_def split: if_splits prod.splits sum.splits)
  obtain out where app: "append_event (log_library.truncate lib) ''reservation'' (reservation_payload g b (fst entry)) l = (out, l')"
    and r: "r = \<lparr>rv_call_id = fst entry, rv_usd = snd entry\<rparr>"
    using assms(3) state by (auto simp: reserve_def Let_def entry_def n_def split: if_splits prod.splits sum.splits)
  obtain e es where e: "verify_log (log_library.truncate lib) l' = Inr (es @ [e])" "ledger_fold lib initial_ledger es = Inr st"
    "audit_fold lib (guard_budget g) initial_audit es = Inr a" "le_type e = ''reservation''"
    "JObj (le_payload e) = json_sort (JObj (reservation_payload g b (fst entry)))"
    by (rule append_to_ledger [OF assms(1,2) _ _ app]) (simp_all add: reservation_payload_def)
  have inv: "ls_reserved st = open_entries os" "distinct (map rv_call_id os)"
    "\<forall>r \<in> set os. \<exists>i < n. rv_call_id r = call_id_of (sg_stage g) i" "as_committed a = ls_committed st"
    "as_reserved a = ls_reserved st" "list_all lr_fits (as_rows a)"
    using assms(2) by (simp_all add: ledger_inv_def n_def)
  have fresh: "fst entry \<notin> set (map rv_call_id os)" using inv(3) by (auto simp: entry_def)
  then have unused: "call_id_of (sg_stage g) n \<notin> set (map fst (ls_reserved st))" by (simp add: inv(1) open_entries_def entry_def image_iff)
  note ev = reservation_event [OF e(5) [unfolded entry_def fst_conv] e(4) unused inv(5)]
  have total: "total_usd (st\<lparr>ls_reserved := ls_reserved st @ [entry], ls_ordinal := Suc n\<rparr>) \<le> dec_value (guard_budget g)"
    using fits by (simp add: total_usd_def unresolved_def dec_value_sum entry_def comp_def)
  have "ledger_inv lib g honest l' (os @ [r]) (st\<lparr>ls_reserved := ls_reserved st @ [entry], ls_ordinal := Suc n\<rparr>)
      (a\<lparr>as_rows := as_rows a @ [\<lparr>lr_call_id = JStr (fst entry), lr_committed_before = as_committed a,
          lr_unresolved_before = dec_sum (map snd (as_reserved a)), lr_proposed = snd entry, lr_fits = True\<rparr>],
        as_reserved := as_reserved a @ [entry]\<rparr>)"
    unfolding ledger_inv_def
  proof (intro conjI)
    show "\<exists>es. verify_log (log_library.truncate lib) l' = Inr es
        \<and> ledger_fold lib initial_ledger es = Inr (st\<lparr>ls_reserved := ls_reserved st @ [entry], ls_ordinal := Suc n\<rparr>)
        \<and> audit_fold lib (guard_budget g) initial_audit es = Inr (a\<lparr>as_rows := as_rows a @ [\<lparr>lr_call_id = JStr (fst entry),
            lr_committed_before = as_committed a, lr_unresolved_before = dec_sum (map snd (as_reserved a)),
            lr_proposed = snd entry, lr_fits = True\<rparr>], as_reserved := as_reserved a @ [entry]\<rparr>)"
      using ev(1) [of lib] ev(2) [of lib "guard_budget g"] e(1-3) fits
      by (simp add: ledger_fold_append audit_fold_append entry_def n_def unresolved_def inv(4,5))
    show "\<forall>r\<in>set (os @ [r]). \<exists>i<ls_ordinal (st\<lparr>ls_reserved := ls_reserved st @ [entry], ls_ordinal := Suc n\<rparr>). rv_call_id r = call_id_of (sg_stage g) i"
      using inv(3) by (auto simp: r entry_def less_Suc_eq)
  qed (use inv fresh total in \<open>auto simp: r open_entries_def\<close>)
  then show ?thesis by blast
qed

lemma open_entries_facts:
  assumes "distinct (map rv_call_id os)" "r \<in> set os"
  shows "map_of (open_entries os) (rv_call_id r) = Some (rv_usd r)"
    "sum_list (map (dec_value \<circ> snd) (open_entries os))
      = dec_value (rv_usd r) + sum_list (map (dec_value \<circ> snd) (open_entries (filter (\<lambda>q. rv_call_id q \<noteq> rv_call_id r) os)))"
proof -
  have "map_of (open_entries os) (rv_call_id r) = Some (rv_usd r)
    \<and> sum_list (map (dec_value \<circ> snd) (open_entries os))
      = dec_value (rv_usd r) + sum_list (map (dec_value \<circ> snd) (open_entries (filter (\<lambda>q. rv_call_id q \<noteq> rv_call_id r) os)))"
    using assms
  proof (induction os)
    case (Cons q os)
    show ?case
    proof (cases "r = q")
      case True
      then have "filter (\<lambda>p. rv_call_id p \<noteq> rv_call_id r) os = os"
        using Cons.prems(1) by (auto simp: filter_id_conv image_iff)
      with True show ?thesis by (simp add: open_entries_def)
    next
      case False
      with Cons show ?thesis by (auto simp: open_entries_def image_iff)
    qed
  qed simp
  then show "map_of (open_entries os) (rv_call_id r) = Some (rv_usd r)"
    "sum_list (map (dec_value \<circ> snd) (open_entries os))
      = dec_value (rv_usd r) + sum_list (map (dec_value \<circ> snd) (open_entries (filter (\<lambda>q. rv_call_id q \<noteq> rv_call_id r) os)))"
    by blast+
qed

lemma settle_keeps_inv:
  assumes "library_ok (log_library.truncate lib)" "ledger_inv lib g honest l os st a" "r \<in> set os" "usage_plain usage"
    and "honest \<Longrightarrow> usage_within (sg_pricing g) r usage" "settle lib g r status usage l = (Inr d, l')"
  shows "\<exists>st' a'. ledger_inv lib g honest l' (filter (\<lambda>q. rv_call_id q \<noteq> rv_call_id r) os) st' a'"
proof -
  let ?usd = "reported_usd (sg_pricing g) usage"
  let ?os = "filter (\<lambda>q. rv_call_id q \<noteq> rv_call_id r) os"
  obtain out where app: "append_event (log_library.truncate lib) ''call_result'' (result_payload r status ?usd usage) l = (out, l')"
    using assms(6) by (auto simp: settle_def Let_def split: if_splits prod.splits sum.splits)
  have "json_plain (JObj (result_payload r status ?usd usage))"
    using assms(4) by (auto simp: result_payload_def usage_plain_def split: option.splits)
  then obtain e es where e: "verify_log (log_library.truncate lib) l' = Inr (es @ [e])" "ledger_fold lib initial_ledger es = Inr st"
    "audit_fold lib (guard_budget g) initial_audit es = Inr a" "le_type e = ''call_result''"
    "JObj (le_payload e) = json_sort (JObj (result_payload r status ?usd usage))"
    by (rule append_to_ledger [OF assms(1,2) event_types_ok(2) _ app]) (rule that)
  have inv: "ls_reserved st = open_entries os" "distinct (map rv_call_id os)"
    "\<forall>r \<in> set os. \<exists>i < ls_ordinal st. rv_call_id r = call_id_of (sg_stage g) i" "as_committed a = ls_committed st"
    "as_reserved a = ls_reserved st" "list_all lr_fits (as_rows a)" "honest \<longrightarrow> total_usd st \<le> dec_value (guard_budget g)"
    using assms(2) by (simp_all add: ledger_inv_def)
  note entries = open_entries_facts [OF inv(2) assms(3)]
  have "map_of (ls_reserved st) (rv_call_id r) = Some (rv_usd r)" by (simp add: inv(1) entries(1))
  note ev = result_event [OF e(5,4) this inv(5)]
  define st' where "st' = st\<lparr>ls_reserved := filter (\<lambda>(k, _). k \<noteq> rv_call_id r) (ls_reserved st), ls_committed := dec_add (ls_committed st) (charged g r usage)\<rparr>"
  define a' where "a' = a\<lparr>as_reserved := filter (\<lambda>(k, _). k \<noteq> rv_call_id r) (as_reserved a), as_committed := dec_add (as_committed a) (charged g r usage)\<rparr>"
  have reserved: "ls_reserved st' = open_entries ?os"
    by (simp add: st'_def inv(1) open_entries_def filter_map comp_def)
  have "dec_value (charged g r usage) \<le> dec_value (rv_usd r)" if honest
    using assms(5) [OF that] by (auto simp: charged_def usage_within_def split: option.splits)
  then have "honest \<longrightarrow> total_usd st' \<le> dec_value (guard_budget g)"
    using inv(7) entries(2) by (auto simp: total_usd_def reserved inv(1)) (auto simp: st'_def)
  moreover have "ledger_fold lib initial_ledger (es @ [e]) = Inr st'" "audit_fold lib (guard_budget g) initial_audit (es @ [e]) = Inr a'"
    using ev e(2,3) by (simp_all add: ledger_fold_append audit_fold_append st'_def a'_def)
  moreover have "distinct (map rv_call_id ?os)" using inv(2) by (simp add: distinct_map_filter)
  moreover have "\<forall>r \<in> set ?os. \<exists>i < ls_ordinal st'. rv_call_id r = call_id_of (sg_stage g) i"
    using inv(3) by (simp add: st'_def)
  moreover have "as_committed a' = ls_committed st'" "as_reserved a' = ls_reserved st'" "list_all lr_fits (as_rows a')"
    using inv(4-6) by (simp_all add: st'_def a'_def)
  ultimately show ?thesis using e(1) reserved unfolding ledger_inv_def by blast
qed

lemma refused_keeps_ledger:
  assumes "library_ok (log_library.truncate lib)" "ledger_inv lib g honest l os st a" "reserve lib g b l = (Inl x, l')"
  shows "l' = l"
proof -
  note state = ledger_inv_state [OF assms(2)]
  have plain: "json_plain (JObj (reservation_payload g b i))" for i by (simp add: reservation_payload_def)
  have "\<exists>e. out = Inr e" if "append_event (log_library.truncate lib) ''reservation'' (reservation_payload g b i) l = (out, k)" for out i k
    using append_to_ledger [OF assms(1,2) event_types_ok(1) plain that] by blast
  then show ?thesis
    using assms(3) state by (auto simp: reserve_def Let_def split: if_splits prod.splits sum.splits)
qed

lemma not_settled_keeps_ledger:
  assumes "library_ok (log_library.truncate lib)" "ledger_inv lib g honest l os st a" "usage_plain usage"
    and "settle lib g r status usage l = (Inl x, l')"
  shows "l' = l"
proof -
  have plain: "json_plain (JObj (result_payload r status (reported_usd (sg_pricing g) usage) usage))"
    using assms(3) by (auto simp: result_payload_def usage_plain_def split: option.splits)
  have "\<exists>e. out = Inr e" if "append_event (log_library.truncate lib) ''call_result''
      (result_payload r status (reported_usd (sg_pricing g) usage) usage) l = (out, k)" for out k
    using append_to_ledger [OF assms(1,2) event_types_ok(2) plain that] by blast
  then show ?thesis
    using assms(4) by (auto simp: settle_def Let_def split: if_splits prod.splits sum.splits)
qed

lemma ledger_run_inv:
  assumes "library_ok (log_library.truncate lib)" "0 \<le> dec_value (guard_budget g)" "ledger_run lib g honest l os"
  shows "\<exists>st a. ledger_inv lib g honest l os st a"
  using assms(3)
proof (induction rule: ledger_run.induct)
  case opened
  show ?case
    using assms(2) by (intro exI [of _ initial_ledger] exI [of _ initial_audit])
      (simp add: ledger_inv_def verify_log_def initial_ledger_def initial_audit_def open_entries_def total_usd_def dec_int_def)
next
  case (reserved l os b r l')
  then show ?case using reserve_keeps_inv [OF assms(1)] by blast
next
  case (refused l os b x l')
  then show ?case using refused_keeps_ledger [OF assms(1)] by blast
next
  case (settled l os r usage status d l')
  then show ?case using settle_keeps_inv [OF assms(1)] by blast
next
  case (not_settled l os r usage status x l')
  then show ?case using not_settled_keeps_ledger [OF assms(1)] by blast
qed

lemma guard_init_budget: "spend_guard_init stage c m p = Inr g \<Longrightarrow> 0 \<le> dec_value (guard_budget g)"
  by (auto simp: spend_guard_init_def guard_budget_def budget_of_def split: if_splits)

section \<open>Properties\<close>


definition example_ledger_library :: ledger_library where
  "example_ledger_library = log_library.extend constant_library (ledger_library.fields (\<lambda>_. []))"

lemma example_ledger_library_ok: "library_ok (log_library.truncate example_ledger_library)"
  using constant_library_ok by (simp add: example_ledger_library_def log_library.defs ledger_library.defs library_ok_def)

definition example_call :: call_bounds where
  "example_call = \<lparr>cb_kind = ''embedding'', cb_max_input_tokens = 1000, cb_max_output_tokens = 0, cb_attempts = 2,
     cb_payload_sha256 = [], cb_logical_attempt = []\<rparr>"


end
