(* ===== verification/Heldout_Access.thy ===== *)
theory Heldout_Access imports Event_Log Json_Values begin

text \<open>
  The audited access to the held-out pool (\<open>experiments/conversational_semantic_memory/heldout_access.py\<close>):
  seals and their invalidations are events of the hash-chained log, and the seal in force is read off the
  log. A path is given as its key; the pool is its bytes, none when the file is missing; SHA-256 of
  bytes is a parameter. The lemmas show what the state machine of seals comes to: the seal in force is
  the last one not invalidated, there is never more than one, and only its bytes are handed out.
\<close>

section \<open>Seals\<close>

record heldout_library = log_library +
  lib_bytes_sha256 :: "string \<Rightarrow> string"
  lib_text_of :: "json \<Rightarrow> string"

definition seal_error :: "string \<Rightarrow> exn" where
  "seal_error message = Other_Error ''HeldoutSealError'' message"

definition concerns :: "string \<Rightarrow> log_event \<Rightarrow> bool" where
  "concerns key e = (map_of (le_payload e) ''pool_path'' = Some (JStr key))"

definition recorded_digest :: "heldout_library \<Rightarrow> log_event \<Rightarrow> string" where
  "recorded_digest lib e = py_str (lib_text_of lib) (case map_of (le_payload e) ''sha256'' of Some v \<Rightarrow> v | None \<Rightarrow> JNull)"

fun live_seals :: "heldout_library \<Rightarrow> string \<Rightarrow> string list \<Rightarrow> log_event list \<Rightarrow> (exn, string list) result" where
  "live_seals lib key live [] = Inr live"
| "live_seals lib key live (e # es) =
     (if \<not> concerns key e then live_seals lib key live es
      else if le_type e = ''heldout_pool_sealed'' then live_seals lib key (live @ [recorded_digest lib e]) es
      else if le_type e = ''heldout_pool_seal_invalidated''
      then (if live = [] then Inl (seal_error ''invalidation without a live seal'') else live_seals lib key (butlast live) es)
      else live_seals lib key live es)"

definition sealed_digest :: "heldout_library \<Rightarrow> string \<Rightarrow> string option \<Rightarrow> (exn, string) result" where
  "sealed_digest lib key trail =
     bind_result (verify_log (log_library.truncate lib) trail) (\<lambda>es.
     bind_result (live_seals lib key [] es) (\<lambda>live.
       case live of [d] \<Rightarrow> Inr d | _ \<Rightarrow> Inl (seal_error ''exactly one live seal is required'')))"

definition invalidate_seal :: "heldout_library \<Rightarrow> string \<Rightarrow> string \<Rightarrow> string option \<Rightarrow> (exn, log_event) result \<times> string option" where
  "invalidate_seal lib reason key trail =
     (if length (py_strip reason) < 20 then (Inl (seal_error ''an invalidation needs a substantive reason''), trail)
      else (case sealed_digest lib key trail of
        Inl x \<Rightarrow> (Inl x, trail)
      | Inr digest \<Rightarrow> append_event (log_library.truncate lib) ''heldout_pool_seal_invalidated''
          [(''pool_path'', JStr key), (''retired_sha256'', JStr digest), (''reason'', JStr (py_strip reason))] trail))"

definition live_seal_count :: "string \<Rightarrow> log_event list \<Rightarrow> int" where
  "live_seal_count key es =
     ilen (filter (\<lambda>e. concerns key e \<and> le_type e = ''heldout_pool_sealed'') es)
     - ilen (filter (\<lambda>e. concerns key e \<and> le_type e = ''heldout_pool_seal_invalidated'') es)"

definition missing_file :: exn where
  "missing_file = Other_Error ''FileNotFoundError'' []"

definition seal_pool ::
    "heldout_library \<Rightarrow> string \<Rightarrow> string option \<Rightarrow> string option \<Rightarrow> (exn, log_event) result \<times> string option" where
  "seal_pool lib key pool trail =
     (case verify_log (log_library.truncate lib) trail of
        Inl x \<Rightarrow> (Inl x, trail)
      | Inr es \<Rightarrow>
          if live_seal_count key es > 0 then (Inl (seal_error ''pool is already sealed''), trail)
          else (case pool of
              None \<Rightarrow> (Inl missing_file, trail)
            | Some data \<Rightarrow> append_event (log_library.truncate lib) ''heldout_pool_sealed''
                [(''pool_path'', JStr key), (''sha256'', JStr (lib_bytes_sha256 lib data))] trail))"

section \<open>Reads\<close>

definition access_payload :: "heldout_library \<Rightarrow> string \<Rightarrow> string \<Rightarrow> string \<Rightarrow> string \<Rightarrow> (string \<times> json) list" where
  "access_payload lib key purpose data expected =
     [(''pool_path'', JStr key), (''purpose'', JStr purpose), (''sha256'', JStr (lib_bytes_sha256 lib data)),
      (''sealed_sha256'', JStr expected), (''matches_seal'', JBool (lib_bytes_sha256 lib data = expected))]"

definition read_pool ::
    "heldout_library \<Rightarrow> string \<Rightarrow> string \<Rightarrow> string option \<Rightarrow> string option \<Rightarrow> (exn, string) result \<times> string option" where
  "read_pool lib key purpose pool trail =
     (case sealed_digest lib key trail of
        Inl x \<Rightarrow> (Inl x, trail)
      | Inr expected \<Rightarrow>
          (case pool of
             None \<Rightarrow> (Inl missing_file, trail)
           | Some data \<Rightarrow>
               (case append_event (log_library.truncate lib) ''heldout_pool_access'' (access_payload lib key purpose data expected) trail of
                  (Inl x, trail') \<Rightarrow> (Inl x, trail')
                | (Inr _, trail') \<Rightarrow>
                    (if lib_bytes_sha256 lib data \<noteq> expected
                     then Inl (seal_error ''held-out pool digest differs from its seal'') else Inr data, trail'))))"

definition read_metadata ::
    "heldout_library \<Rightarrow> (string \<Rightarrow> (string \<times> json) list) \<Rightarrow> string \<Rightarrow> string option \<Rightarrow> string option
     \<Rightarrow> (exn, (string \<times> json) list) result \<times> string option" where
  "read_metadata lib extract key pool trail =
     (case read_pool lib key ''metadata'' pool trail of
        (Inl x, trail') \<Rightarrow> (Inl x, trail')
      | (Inr data, trail') \<Rightarrow>
          (if list_all (\<lambda>(k, v). case v of JInt i \<Rightarrow> 0 \<le> i | _ \<Rightarrow> False) (extract data) then Inr (extract data)
           else Inl (seal_error ''metadata must contain non-negative integer aggregates''), trail'))"

definition read_for_scan where
  "read_for_scan lib key pool trail = read_pool lib key ''fixture_scan'' pool trail"

definition verify_seal ::
    "heldout_library \<Rightarrow> string \<Rightarrow> string option \<Rightarrow> string option \<Rightarrow> (exn, string) result \<times> string option" where
  "verify_seal lib key pool trail =
     (case read_pool lib key ''verify_seal'' pool trail of (out, trail') \<Rightarrow> (map_sum id (lib_bytes_sha256 lib) out, trail'))"

text \<open>\<open>same_file\<close>: both exist and the file system says they are one file.\<close>

definition assert_not_heldout_path :: "string \<Rightarrow> string \<Rightarrow> bool \<Rightarrow> (exn, unit) result" where
  "assert_not_heldout_path candidate heldout same_file =
     (if candidate = heldout \<or> same_file then Inl (seal_error ''dev runner cannot open the held-out pool'') else Inr ())"

section \<open>The seal in force\<close>

text \<open>What the trail is meant to say: the last seal, unless an invalidation followed it.\<close>

definition seal_event :: "string \<Rightarrow> log_event \<Rightarrow> bool" where
  "seal_event key e = (concerns key e \<and> le_type e \<in> {''heldout_pool_sealed'', ''heldout_pool_seal_invalidated''})"

definition in_force :: "heldout_library \<Rightarrow> string \<Rightarrow> log_event list \<Rightarrow> string option" where
  "in_force lib key es = (case rev (filter (seal_event key) es) of [] \<Rightarrow> None
     | e # _ \<Rightarrow> if le_type e = ''heldout_pool_sealed'' then Some (recorded_digest lib e) else None)"

text \<open>Everything that happens to the trail of one pool, whoever writes to it.\<close>

inductive sealed_run :: "heldout_library \<Rightarrow> string \<Rightarrow> string option \<Rightarrow> bool" for lib :: heldout_library and key :: string where
  fresh: "sealed_run lib key None"
| seal: "sealed_run lib key trail \<Longrightarrow> seal_pool lib key pool trail = (out, trail') \<Longrightarrow> sealed_run lib key trail'"
| invalidate: "sealed_run lib key trail \<Longrightarrow> invalidate_seal lib reason key trail = (out, trail') \<Longrightarrow> sealed_run lib key trail'"
| read: "sealed_run lib key trail \<Longrightarrow> read_pool lib key purpose pool trail = (out, trail') \<Longrightarrow> sealed_run lib key trail'"
| other: "sealed_run lib key trail \<Longrightarrow> append_event (log_library.truncate lib) ty payload trail = (out, trail')
    \<Longrightarrow> json_plain (JObj payload) \<Longrightarrow> (\<And>e. le_type e = ty \<Longrightarrow> JObj (le_payload e) = json_sort (JObj payload) \<Longrightarrow> \<not> seal_event key e)
    \<Longrightarrow> sealed_run lib key trail'"

definition sealed_inv :: "heldout_library \<Rightarrow> string \<Rightarrow> string option \<Rightarrow> log_event list \<Rightarrow> bool" where
  "sealed_inv lib key trail es = (verify_log (log_library.truncate lib) trail = Inr es
     \<and> live_seals lib key [] es = Inr (case in_force lib key es of None \<Rightarrow> [] | Some d \<Rightarrow> [d])
     \<and> live_seal_count key es = (if in_force lib key es = None then 0 else 1))"

lemma live_seals_append:
  "live_seals lib key live (es @ fs) = bind_result (live_seals lib key live es) (\<lambda>live'. live_seals lib key live' fs)"
  by (induction es arbitrary: live) auto

lemma in_force_snoc:
  "in_force lib key (es @ [e]) = (if seal_event key e
     then (if le_type e = ''heldout_pool_sealed'' then Some (recorded_digest lib e) else None) else in_force lib key es)"
  by (simp add: in_force_def)

lemma live_seal_count_snoc:
  "live_seal_count key (es @ [e]) = live_seal_count key es
     + (if concerns key e \<and> le_type e = ''heldout_pool_sealed'' then 1 else 0)
     - (if concerns key e \<and> le_type e = ''heldout_pool_seal_invalidated'' then 1 else 0)"
  by (simp add: live_seal_count_def)

lemma sealed_inv_other:
  assumes "sealed_inv lib key trail es" "verify_log (log_library.truncate lib) trail' = Inr (es @ [e])" "\<not> seal_event key e"
  shows "sealed_inv lib key trail' (es @ [e])"
  using assms by (auto simp: sealed_inv_def live_seals_append in_force_snoc live_seal_count_snoc seal_event_def)

lemma sealed_inv_sealed:
  assumes "sealed_inv lib key trail es" "verify_log (log_library.truncate lib) trail' = Inr (es @ [e])" "concerns key e"
    and "le_type e = ''heldout_pool_sealed''" "in_force lib key es = None"
  shows "sealed_inv lib key trail' (es @ [e])"
  using assms by (simp add: sealed_inv_def live_seals_append in_force_snoc live_seal_count_snoc seal_event_def)

lemma sealed_inv_invalidated:
  assumes "sealed_inv lib key trail es" "verify_log (log_library.truncate lib) trail' = Inr (es @ [e])" "concerns key e"
    and "le_type e = ''heldout_pool_seal_invalidated''" "in_force lib key es = Some d"
  shows "sealed_inv lib key trail' (es @ [e])"
  using assms by (simp add: sealed_inv_def live_seals_append in_force_snoc live_seal_count_snoc seal_event_def)

lemma sealed_digest_in_force:
  "sealed_inv lib key trail es \<Longrightarrow> sealed_digest lib key trail = (case in_force lib key es of
     Some d \<Rightarrow> Inr d | None \<Rightarrow> Inl (seal_error ''exactly one live seal is required''))"
  by (simp add: sealed_inv_def sealed_digest_def split: option.split)

lemma payload_path:
  assumes "JObj (le_payload e) = json_sort (JObj payload)" "distinct (map fst payload)" "map_of payload ''pool_path'' = Some (JStr k)"
  shows "concerns key e \<longleftrightarrow> k = key"
  by (auto simp: concerns_def event_member [OF assms(1,2)] assms(3))

text \<open>An append to a log in the invariant: the event it adds.\<close>

lemma append_to_trail:
  assumes "library_ok (log_library.truncate lib)" "sealed_inv lib key trail es" "event_type_ok ty" "json_plain (JObj payload)"
    and "append_event (log_library.truncate lib) ty payload trail = (out, trail')"
  obtains e where "out = Inr e" "verify_log (log_library.truncate lib) trail' = Inr (es @ [e])" "le_type e = ty"
    "JObj (le_payload e) = json_sort (JObj payload)"
proof -
  have "verify_log (log_library.truncate lib) trail = Inr es" using assms(2) by (simp add: sealed_inv_def)
  from append_event_verifies [OF assms(1) this assms(3,4)] obtain e f where
    "append_event (log_library.truncate lib) ty payload trail = (Inr e, Some f)"
    "verify_log (log_library.truncate lib) (Some f) = Inr (es @ [e])" "le_type e = ty" "JObj (le_payload e) = json_sort (JObj payload)"
    by metis
  with assms(5) that show thesis by auto
qed

lemma trail_types_ok [simp]:
  "event_type_ok ''heldout_pool_sealed''" "event_type_ok ''heldout_pool_seal_invalidated''" "event_type_ok ''heldout_pool_access''"
  by (simp_all add: event_type_ok_def lower_letter_def is_digit_def code_point_def)

lemma seal_step:
  assumes "library_ok (log_library.truncate lib)" "sealed_inv lib key trail es" "seal_pool lib key pool trail = (out, trail')"
  shows "\<exists>es'. sealed_inv lib key trail' es'"
proof (cases "trail' = trail")
  case False
  have verified: "verify_log (log_library.truncate lib) trail = Inr es" and count: "live_seal_count key es = (if in_force lib key es = None then 0 else 1)"
    using assms(2) by (simp_all add: sealed_inv_def)
  obtain data where pool: "pool = Some data" and none: "in_force lib key es = None"
    and app: "append_event (log_library.truncate lib) ''heldout_pool_sealed''
      [(''pool_path'', JStr key), (''sha256'', JStr (lib_bytes_sha256 lib data))] trail = (out, trail')"
    using assms(3) verified count False by (auto simp: seal_pool_def split: if_splits option.splits)
  obtain e where e: "verify_log (log_library.truncate lib) trail' = Inr (es @ [e])" "le_type e = ''heldout_pool_sealed''"
    "JObj (le_payload e) = json_sort (JObj [(''pool_path'', JStr key), (''sha256'', JStr (lib_bytes_sha256 lib data))])"
    by (rule append_to_trail [OF assms(1,2) trail_types_ok(1) _ app]) simp_all
  have "concerns key e" by (subst payload_path [OF e(3)]) simp_all
  from sealed_inv_sealed [OF assms(2) e(1) this e(2) none] show ?thesis ..
qed (use assms(2) in blast)

lemma invalidate_step:
  assumes "library_ok (log_library.truncate lib)" "sealed_inv lib key trail es" "invalidate_seal lib reason key trail = (out, trail')"
  shows "\<exists>es'. sealed_inv lib key trail' es'"
proof (cases "trail' = trail")
  case False
  obtain d where force: "in_force lib key es = Some d"
    and app: "append_event (log_library.truncate lib) ''heldout_pool_seal_invalidated''
      [(''pool_path'', JStr key), (''retired_sha256'', JStr d), (''reason'', JStr (py_strip reason))] trail = (out, trail')"
    using assms(3) False by (auto simp: invalidate_seal_def sealed_digest_in_force [OF assms(2)] split: if_splits option.splits)
  obtain e where e: "verify_log (log_library.truncate lib) trail' = Inr (es @ [e])" "le_type e = ''heldout_pool_seal_invalidated''"
    "JObj (le_payload e) = json_sort (JObj [(''pool_path'', JStr key), (''retired_sha256'', JStr d), (''reason'', JStr (py_strip reason))])"
    by (rule append_to_trail [OF assms(1,2) trail_types_ok(2) _ app]) simp_all
  have "concerns key e" by (subst payload_path [OF e(3)]) simp_all
  from sealed_inv_invalidated [OF assms(2) e(1) this e(2) force] show ?thesis ..
qed (use assms(2) in blast)

text \<open>A read of sealed bytes, as it goes on record.\<close>

lemma read_recorded:
  assumes "library_ok (log_library.truncate lib)" "sealed_inv lib key trail es" "read_pool lib key purpose (Some data) trail = (out, trail')"
    and "in_force lib key es = Some d"
  obtains e where "verify_log (log_library.truncate lib) trail' = Inr (es @ [e])" "le_type e = ''heldout_pool_access''"
    "map_of (le_payload e) ''matches_seal'' = Some (JBool (lib_bytes_sha256 lib data = d))"
    "out = (if lib_bytes_sha256 lib data = d then Inr data else Inl (seal_error ''held-out pool digest differs from its seal''))"
proof -
  let ?p = "access_payload lib key purpose data d"
  obtain a where app: "append_event (log_library.truncate lib) ''heldout_pool_access'' ?p trail = (a, trail')"
    using assms(3,4) by (auto simp: read_pool_def sealed_digest_in_force [OF assms(2)] split: prod.splits sum.splits)
  obtain e where e: "a = Inr e" "verify_log (log_library.truncate lib) trail' = Inr (es @ [e])" "le_type e = ''heldout_pool_access''"
    "JObj (le_payload e) = json_sort (JObj ?p)"
    by (rule append_to_trail [OF assms(1,2) trail_types_ok(3) _ app]) (simp_all add: access_payload_def)
  have "distinct (map fst ?p)" by (simp add: access_payload_def)
  from event_member [OF e(4) this, of "''matches_seal''"]
  have "map_of (le_payload e) ''matches_seal'' = Some (JBool (lib_bytes_sha256 lib data = d))"
    by (simp add: access_payload_def)
  moreover have "out = (if lib_bytes_sha256 lib data = d then Inr data else Inl (seal_error ''held-out pool digest differs from its seal''))"
    using assms(3,4) app e(1) by (auto simp: read_pool_def sealed_digest_in_force [OF assms(2)])
  ultimately show thesis using that e(2,3) by blast
qed

lemma read_unsealed:
  assumes "sealed_inv lib key trail es" "in_force lib key es = None \<or> pool = None"
  shows "\<exists>x. read_pool lib key purpose pool trail = (Inl x, trail)"
  using assms(2) by (auto simp: read_pool_def sealed_digest_in_force [OF assms(1)] split: option.split)

lemma sealed_run_inv:
  assumes "library_ok (log_library.truncate lib)" "sealed_run lib key trail"
  shows "\<exists>es. sealed_inv lib key trail es"
  using assms(2)
proof (induction rule: sealed_run.induct)
  case fresh
  have "sealed_inv lib key None []" by (simp add: sealed_inv_def verify_log_def in_force_def live_seal_count_def)
  then show ?case ..
next
  case (seal trail pool out trail')
  then show ?case using seal_step [OF assms(1)] by blast
next
  case (invalidate trail reason out trail')
  then show ?case using invalidate_step [OF assms(1)] by blast
next
  case (read trail purpose pool out trail')
  then obtain es where inv: "sealed_inv lib key trail es" by blast
  show ?case
  proof (cases "in_force lib key es = None \<or> pool = None")
    case True
    with read_unsealed [OF inv True, of purpose] read(2) inv show ?thesis by auto
  next
    case False
    then obtain d data where d: "in_force lib key es = Some d" and pool: "pool = Some data" by auto
    obtain e where e: "verify_log (log_library.truncate lib) trail' = Inr (es @ [e])" "le_type e = ''heldout_pool_access''"
      by (rule read_recorded [OF assms(1) inv read(2) [unfolded pool] d])
    then have "\<not> seal_event key e" by (simp add: seal_event_def)
    from sealed_inv_other [OF inv e(1) this] show ?thesis ..
  qed
next
  case (other trail ty payload out trail')
  then obtain es where inv: "sealed_inv lib key trail es" by blast
  show ?case
  proof (cases "event_type_ok ty")
    case True
    obtain e where e: "verify_log (log_library.truncate lib) trail' = Inr (es @ [e])" "le_type e = ty"
      "JObj (le_payload e) = json_sort (JObj payload)"
      by (rule append_to_trail [OF assms(1) inv True other(3,2)])
    from sealed_inv_other [OF inv e(1) other(4) [OF e(2,3)]] show ?thesis ..
  next
    case False
    with other(2) inv show ?thesis by (auto simp: append_event_def)
  qed
qed

section \<open>Properties\<close>

text \<open>C37: the held-out pool is only ever read as it was sealed. Whatever was sealed, invalidated, read or logged
  before, the log reads back; a read without a seal in force hands out nothing and changes nothing; with one,
  the read goes on record with whether the bytes match, and hands them out exactly when their digest is the
  sealed one. While a seal is in force no other can replace it.\<close>

theorem only_sealed_bytes_are_read:
  assumes "library_ok (log_library.truncate lib)" "sealed_run lib key trail" "read_pool lib key purpose pool trail = (out, trail')"
  shows "\<exists>es. verify_log (log_library.truncate lib) trail = Inr es
    \<and> (case (in_force lib key es, pool) of
         (Some d, Some data) \<Rightarrow>
           out = (if lib_bytes_sha256 lib data = d then Inr data else Inl (seal_error ''held-out pool digest differs from its seal''))
           \<and> (\<exists>e. verify_log (log_library.truncate lib) trail' = Inr (es @ [e]) \<and> le_type e = ''heldout_pool_access''
                \<and> map_of (le_payload e) ''matches_seal'' = Some (JBool (lib_bytes_sha256 lib data = d)))
       | _ \<Rightarrow> (\<exists>x. out = Inl x) \<and> trail' = trail)
    \<and> (in_force lib key es = None \<or> seal_pool lib key new_pool trail = (Inl (seal_error ''pool is already sealed''), trail))"
proof -
  obtain es where inv: "sealed_inv lib key trail es" using sealed_run_inv [OF assms(1,2)] ..
  have "case (in_force lib key es, pool) of
      (Some d, Some data) \<Rightarrow>
        out = (if lib_bytes_sha256 lib data = d then Inr data else Inl (seal_error ''held-out pool digest differs from its seal''))
        \<and> (\<exists>e. verify_log (log_library.truncate lib) trail' = Inr (es @ [e]) \<and> le_type e = ''heldout_pool_access''
             \<and> map_of (le_payload e) ''matches_seal'' = Some (JBool (lib_bytes_sha256 lib data = d)))
    | _ \<Rightarrow> (\<exists>x. out = Inl x) \<and> trail' = trail"
  proof (cases "in_force lib key es = None \<or> pool = None")
    case True
    with read_unsealed [OF inv True, of purpose] assms(3) show ?thesis by (auto split: option.split)
  next
    case False
    then obtain d data where d: "in_force lib key es = Some d" and pool: "pool = Some data" by auto
    show ?thesis
      by (rule read_recorded [OF assms(1) inv assms(3) [unfolded pool] d]) (auto simp: d pool)
  qed
  moreover have "in_force lib key es = None \<or> seal_pool lib key new_pool trail = (Inl (seal_error ''pool is already sealed''), trail)"
    using inv by (simp add: sealed_inv_def seal_pool_def)
  ultimately show ?thesis using inv unfolding sealed_inv_def by blast
qed

definition example_heldout :: heldout_library where
  "example_heldout = log_library.extend constant_library (heldout_library.fields (\<lambda>s. s) (\<lambda>_. []))"

theorem only_sealed_bytes_are_read_witness:
  "\<exists>trail trail'. sealed_run example_heldout ''pool'' trail \<and> read_pool example_heldout ''pool'' ''scan'' (Some ''abc'') trail = (Inr ''abc'', trail')
    \<and> trail' \<noteq> trail"
proof -
  have ok: "library_ok (log_library.truncate example_heldout)"
    using constant_library_ok by (simp add: example_heldout_def log_library.defs heldout_library.defs library_ok_def)
  have start: "sealed_inv example_heldout ''pool'' None []"
    by (simp add: sealed_inv_def verify_log_def in_force_def live_seal_count_def)
  obtain out trail where sealed: "seal_pool example_heldout ''pool'' (Some ''abc'') None = (out, trail)"
    by (cases "seal_pool example_heldout ''pool'' (Some ''abc'') None") (rule that)
  have run: "sealed_run example_heldout ''pool'' trail" by (rule sealed_run.seal [OF sealed_run.fresh sealed])
  let ?p = "[(''pool_path'', JStr ''pool''), (''sha256'', JStr (lib_bytes_sha256 example_heldout ''abc''))]"
  have app: "append_event (log_library.truncate example_heldout) ''heldout_pool_sealed'' ?p None = (out, trail)"
    using sealed by (simp add: seal_pool_def verify_log_def live_seal_count_def)
  obtain e where e: "verify_log (log_library.truncate example_heldout) trail = Inr ([] @ [e])" "le_type e = ''heldout_pool_sealed''"
    "JObj (le_payload e) = json_sort (JObj ?p)"
    by (rule append_to_trail [OF ok start trail_types_ok(1) _ app]) simp_all
  have "concerns ''pool'' e" by (subst payload_path [OF e(3)]) simp_all
  moreover have "recorded_digest example_heldout e = ''abc''"
    by (simp add: recorded_digest_def event_member [OF e(3)] py_str_def) (simp add: example_heldout_def log_library.defs heldout_library.defs)
  ultimately have force: "in_force example_heldout ''pool'' [e] = Some ''abc''" using e(2) by (simp add: in_force_def seal_event_def)
  obtain res trail' where read: "read_pool example_heldout ''pool'' ''scan'' (Some ''abc'') trail = (res, trail')"
    by (cases "read_pool example_heldout ''pool'' ''scan'' (Some ''abc'') trail") (rule that)
  have same: "lib_bytes_sha256 example_heldout ''abc'' = ''abc''"
    by (simp add: example_heldout_def log_library.defs heldout_library.defs)
  from only_sealed_bytes_are_read [OF ok run read, of None] e(1) force
  have "res = Inr ''abc''" "trail' \<noteq> trail" by (auto simp: same)
  with run read show ?thesis by blast
qed

end
