(* ===== verification/Fact_Store.thy ===== *)
theory Fact_Store imports Event_Log begin

text \<open>
  The fact store of the semantic-memory experiment
  (\<open>experiments/conversational_semantic_memory/facts.py\<close>): validated operations applied to an immutable
  store whose facts are superseded or retracted but never removed. Unicode normalization (NFC, and
  NFKC followed by case folding) and SHA-256 are parameters; a surrogate, which UTF-8 refuses, is
  outside the alphabet. The lemmas show that the life of the facts refines a map from slots to values,
  and that the links between a fact and its successor agree.
\<close>

section \<open>Operations\<close>

record fact_library = log_library +
  lib_nfc :: "string \<Rightarrow> string"
  lib_nfkc_casefold :: "string \<Rightarrow> string"

definition fact_error :: "string \<Rightarrow> exn" where
  "fact_error message = Other_Error ''ValueError'' message"

definition text_value :: "fact_library \<Rightarrow> string \<Rightarrow> (exn, string) result" where
  "text_value lib s = (if py_strip s = [] then Inl (fact_error ''expected non-empty text'') else Inr (lib_nfc lib s))"

definition json_text_value :: "fact_library \<Rightarrow> json \<Rightarrow> (exn, string) result" where
  "json_text_value lib j = (case j of JStr s \<Rightarrow> text_value lib s | _ \<Rightarrow> Inl (fact_error ''expected non-empty text''))"

definition fact_kinds :: "string list" where
  "fact_kinds = [''fact'', ''preference'', ''constraint'', ''decision'', ''goal'']"

definition slot_key_ok :: "string \<Rightarrow> bool" where
  "slot_key_ok s = (s \<noteq> [] \<and> lower_letter (hd s)
     \<and> list_all (\<lambda>p. p \<noteq> [] \<and> list_all (\<lambda>c. lower_letter c \<or> is_digit c) p) (py_split (CHR ''_'') s))"

record operation =
  fo_op :: string
  fo_slot_key :: string
  fo_value :: "string option"
  fo_kind :: string
  fo_sources :: "string list"

text \<open>\<open>x in {...}\<close> for a set of strings: a list or an object cannot be hashed.\<close>

definition member_of_set :: "json \<Rightarrow> string list \<Rightarrow> (exn, bool) result" where
  "member_of_set j xs = (case j of JStr s \<Rightarrow> Inr (s \<in> set xs) | JArr _ \<Rightarrow> Inl (Other_Error ''TypeError'' [])
     | JObj _ \<Rightarrow> Inl (Other_Error ''TypeError'' []) | _ \<Rightarrow> Inr False)"

fun text_values :: "fact_library \<Rightarrow> json list \<Rightarrow> (exn, string list) result" where
  "text_values lib [] = Inr []"
| "text_values lib (j # js) = bind_result (json_text_value lib j) (\<lambda>_.
     bind_result (text_values lib js) (\<lambda>ss. Inr ((case j of JStr s \<Rightarrow> s | _ \<Rightarrow> []) # ss)))"

definition operation_keys :: "string list" where
  "operation_keys = [''op'', ''slot_key'', ''value'', ''kind'', ''source_message_ids'']"

definition payload_value :: "(string \<times> json) list \<Rightarrow> string \<Rightarrow> json" where
  "payload_value payload k = (case map_of payload k of Some v \<Rightarrow> v | None \<Rightarrow> JNull)"

text \<open>\<open>Operation.from_payload\<close> with the checks of the constructor, in their order.\<close>

definition operation_of_payload :: "fact_library \<Rightarrow> (string \<times> json) list \<Rightarrow> (exn, operation) result" where
  "operation_of_payload lib payload =
     (if set (map fst payload) \<noteq> set operation_keys then Inl (fact_error ''unexpected operation fields'')
      else (case payload_value payload ''source_message_ids'' of
        JArr sources \<Rightarrow>
          bind_result (member_of_set (payload_value payload ''op'') [''assert'', ''retract'']) (\<lambda>known.
            if \<not> known then Inl (fact_error ''unknown operation'')
            else (case payload_value payload ''slot_key'' of
              JStr slot \<Rightarrow>
                if \<not> slot_key_ok slot then Inl (fact_error ''slot_key must be snake_case'')
                else bind_result (member_of_set (payload_value payload ''kind'') fact_kinds) (\<lambda>known_kind.
                  if \<not> known_kind then Inl (fact_error ''unknown kind'')
                  else bind_result
                    (if payload_value payload ''op'' = JStr ''assert''
                     then bind_result (json_text_value lib (payload_value payload ''value'')) (\<lambda>_. Inr ())
                     else if payload_value payload ''value'' \<noteq> JNull then Inl (fact_error ''retract requires null value'') else Inr ())
                    (\<lambda>_. if sources = [] then Inl (fact_error ''non-empty provenance tuple required'')
                      else bind_result (text_values lib sources) (\<lambda>ss.
                        Inr \<lparr>fo_op = (case payload_value payload ''op'' of JStr s \<Rightarrow> s | _ \<Rightarrow> []), fo_slot_key = slot,
                             fo_value = (case payload_value payload ''value'' of JStr v \<Rightarrow> Some v | _ \<Rightarrow> None),
                             fo_kind = (case payload_value payload ''kind'' of JStr k \<Rightarrow> k | _ \<Rightarrow> []), fo_sources = ss\<rparr>)))
            | _ \<Rightarrow> Inl (fact_error ''slot_key must be snake_case'')))
      | _ \<Rightarrow> Inl (fact_error ''source_message_ids must be a JSON array'')))"

section \<open>Facts\<close>

datatype fact_status = Active | Superseded | Retracted

record fact =
  fa_id :: string
  fa_tenant :: string
  fa_conversation :: string
  fa_slot_key :: string
  fa_value :: string
  fa_kind :: string
  fa_statement :: string
  fa_sources :: "string list"
  fa_sequence :: int
  fa_status :: fact_status
  fa_supersedes :: "string option"
  fa_superseded_by :: "string option"
  fa_extractor_version :: string

record audit_operation =
  ao_reason :: string
  ao_operation :: "operation option"
  ao_sequence :: int
  ao_index :: int
  ao_detail :: "string option"

record fact_store =
  fs_tenant :: string
  fs_conversation :: string
  fs_extractor_version :: string
  fs_facts :: "fact list"
  fs_audit :: "audit_operation list"
  fs_last_sequence :: int

text \<open>The constructor, which a replacement runs again.\<close>

definition fact_store_init :: "fact_library \<Rightarrow> fact_store \<Rightarrow> (exn, fact_store) result" where
  "fact_store_init lib st =
     bind_result (text_value lib (fs_tenant st)) (\<lambda>t. bind_result (text_value lib (fs_conversation st)) (\<lambda>c.
     bind_result (text_value lib (fs_extractor_version st)) (\<lambda>v.
       Inr (st\<lparr>fs_tenant := t, fs_conversation := c, fs_extractor_version := v\<rparr>))))"

definition empty_fact_store :: "fact_library \<Rightarrow> string \<Rightarrow> string \<Rightarrow> string \<Rightarrow> (exn, fact_store) result" where
  "empty_fact_store lib tenant conversation version = fact_store_init lib
     \<lparr>fs_tenant = tenant, fs_conversation = conversation, fs_extractor_version = version, fs_facts = [], fs_audit = [], fs_last_sequence = -1\<rparr>"

definition fact_id_encoding :: string where
  "fact_id_encoding = ''orq39-fact-id-v1''"

definition fact_id :: "fact_library \<Rightarrow> string \<Rightarrow> string \<Rightarrow> string \<Rightarrow> int \<Rightarrow> int \<Rightarrow> (exn, string) result" where
  "fact_id lib tenant conversation slot seq index =
     (if seq < 0 \<or> index < 0 then Inl (fact_error ''expected a non-negative integer'')
      else bind_result (text_value lib tenant) (\<lambda>t. bind_result (text_value lib conversation) (\<lambda>c. bind_result (text_value lib slot) (\<lambda>s.
        Inr (lib_sha256 lib (canonical_text (log_library.truncate lib) (JObj [
          (''encoding_version'', JStr fact_id_encoding), (''tenant_id'', JStr t), (''conversation_id'', JStr c),
          (''slot_key'', JStr s), (''source_sequence'', JInt seq), (''op_index_within_extraction'', JInt index)])))))))"

text \<open>Runs of blanks become one space.\<close>

definition normalize_value :: "fact_library \<Rightarrow> string \<Rightarrow> string" where
  "normalize_value lib v = py_join '' '' (py_words (lib_nfkc_casefold lib v))"

definition active_index :: "fact list \<Rightarrow> string \<Rightarrow> nat option" where
  "active_index fs slot = find (\<lambda>i. fa_slot_key (fs ! i) = slot \<and> fa_status (fs ! i) = Active) [0..<length fs]"

definition unique_in_order :: "'a list \<Rightarrow> 'a list" where
  "unique_in_order xs = rev (remdups (rev xs))"

definition op_value :: "operation \<Rightarrow> string" where
  "op_value p = (case fo_value p of Some v \<Rightarrow> v | None \<Rightarrow> [])"

definition apply_operation ::
    "fact_library \<Rightarrow> fact_store \<Rightarrow> int \<Rightarrow> string \<Rightarrow> int \<Rightarrow> operation \<Rightarrow> fact list \<times> audit_operation list
     \<Rightarrow> (exn, fact list \<times> audit_operation list) result" where
  "apply_operation lib st seq statement index p fa = (case fa of (fs, audit) \<Rightarrow>
     (let active = active_index fs (fo_slot_key p) in
      if fo_op p = ''retract''
      then Inr (case active of
          None \<Rightarrow> (fs, audit @ [\<lparr>ao_reason = ''retract_without_active_fact'', ao_operation = Some p, ao_sequence = seq,
             ao_index = index, ao_detail = None\<rparr>])
        | Some i \<Rightarrow> (fs[i := (fs ! i)\<lparr>fa_status := Retracted, fa_superseded_by := None\<rparr>], audit))
      else (case active of
          Some i \<Rightarrow>
            if normalize_value lib (fa_value (fs ! i)) = normalize_value lib (op_value p)
            then Inr (fs[i := (fs ! i)\<lparr>fa_sources := unique_in_order (fa_sources (fs ! i) @ fo_sources p)\<rparr>], audit)
            else bind_result (fact_id lib (fs_tenant st) (fs_conversation st) (fo_slot_key p) seq index) (\<lambda>identifier.
              Inr (fs[i := (fs ! i)\<lparr>fa_status := Superseded, fa_superseded_by := Some identifier\<rparr>] @
                [\<lparr>fa_id = identifier, fa_tenant = fs_tenant st, fa_conversation = fs_conversation st, fa_slot_key = fo_slot_key p,
                  fa_value = op_value p, fa_kind = fo_kind p, fa_statement = statement, fa_sources = fo_sources p, fa_sequence = seq,
                  fa_status = Active, fa_supersedes = Some (fa_id (fs ! i)), fa_superseded_by = None,
                  fa_extractor_version = fs_extractor_version st\<rparr>], audit))
        | None \<Rightarrow> bind_result (fact_id lib (fs_tenant st) (fs_conversation st) (fo_slot_key p) seq index) (\<lambda>identifier.
            Inr (fs @
              [\<lparr>fa_id = identifier, fa_tenant = fs_tenant st, fa_conversation = fs_conversation st, fa_slot_key = fo_slot_key p,
                fa_value = op_value p, fa_kind = fo_kind p, fa_statement = statement, fa_sources = fo_sources p, fa_sequence = seq,
                fa_status = Active, fa_supersedes = None, fa_superseded_by = None,
                fa_extractor_version = fs_extractor_version st\<rparr>], audit)))))"

datatype operation_input = Validated operation | Payload "(string \<times> json) list"

definition validated :: "fact_library \<Rightarrow> operation_input \<Rightarrow> (exn, operation) result" where
  "validated lib x = (case x of Validated p \<Rightarrow> Inr p | Payload kvs \<Rightarrow> operation_of_payload lib kvs)"

fun apply_operations ::
    "fact_library \<Rightarrow> fact_store \<Rightarrow> int \<Rightarrow> string \<Rightarrow> int \<Rightarrow> operation_input list \<Rightarrow> fact list \<times> audit_operation list
     \<Rightarrow> (exn, fact list \<times> audit_operation list) result" where
  "apply_operations lib st seq statement index [] fa = Inr fa"
| "apply_operations lib st seq statement index (x # xs) fa =
     bind_result (validated lib x) (\<lambda>p. bind_result (apply_operation lib st seq statement index p fa) (\<lambda>fa'.
       apply_operations lib st seq statement (index + 1) xs fa'))"

definition apply_extraction ::
    "fact_library \<Rightarrow> fact_store \<Rightarrow> operation_input list \<Rightarrow> int \<Rightarrow> string \<Rightarrow> (exn, fact_store) result" where
  "apply_extraction lib st ops seq statement =
     (if seq < 0 then Inl (fact_error ''expected a non-negative integer'')
      else if seq \<le> fs_last_sequence st then Inl (fact_error ''extractions must advance the message sequence'')
      else bind_result (text_value lib statement) (\<lambda>stmt.
        bind_result (apply_operations lib st seq stmt 0 ops (fs_facts st, fs_audit st)) (\<lambda>(facts, audit).
          fact_store_init lib (st\<lparr>fs_facts := facts, fs_audit := audit, fs_last_sequence := seq\<rparr>))))"


section \<open>What a sequence of facts means\<close>

text \<open>The map from slots to normalized values that the active facts denote, and what an operation does to it.\<close>

definition slot_values :: "fact_library \<Rightarrow> fact list \<Rightarrow> string \<Rightarrow> string option" where
  "slot_values lib fs k = map_option (\<lambda>i. normalize_value lib (fa_value (fs ! i))) (active_index fs k)"

definition slot_update :: "fact_library \<Rightarrow> (string \<Rightarrow> string option) \<Rightarrow> operation \<Rightarrow> string \<Rightarrow> string option" where
  "slot_update lib m p = m(fo_slot_key p := (if fo_op p = ''retract'' then None else Some (normalize_value lib (op_value p))))"

fun validated_all :: "fact_library \<Rightarrow> operation_input list \<Rightarrow> (exn, operation list) result" where
  "validated_all lib [] = Inr []"
| "validated_all lib (x # xs) = bind_result (validated lib x) (\<lambda>p. bind_result (validated_all lib xs) (\<lambda>ps. Inr (p # ps)))"

definition active_at :: "fact list \<Rightarrow> string \<Rightarrow> nat \<Rightarrow> bool" where
  "active_at fs k i = (i < length fs \<and> fa_slot_key (fs ! i) = k \<and> fa_status (fs ! i) = Active)"

definition succeeds_at :: "fact list \<Rightarrow> nat \<Rightarrow> nat \<Rightarrow> bool" where
  "succeeds_at fs i j = (j < length fs \<and> i < j \<and> fa_superseded_by (fs ! i) = Some (fa_id (fs ! j))
     \<and> fa_supersedes (fs ! j) = Some (fa_id (fs ! i)) \<and> fa_slot_key (fs ! j) = fa_slot_key (fs ! i))"

definition linked :: "fact list \<Rightarrow> nat \<Rightarrow> bool" where
  "linked fs i = (if fa_status (fs ! i) = Superseded then \<exists>j\<in>set [0..<length fs]. succeeds_at fs i j
     else fa_superseded_by (fs ! i) = None)"

text \<open>One active fact per slot, links that agree at both ends, and facts in the order of their messages.\<close>

definition facts_ok :: "int \<Rightarrow> fact list \<Rightarrow> bool" where
  "facts_ok newest fs \<longleftrightarrow> (\<forall>k i j. active_at fs k i \<longrightarrow> active_at fs k j \<longrightarrow> i = j)
     \<and> (\<forall>i<length fs. linked fs i) \<and> sorted (map fa_sequence fs) \<and> (\<forall>f\<in>set fs. fa_sequence f \<le> newest)"

definition frozen :: "fact \<Rightarrow> fact" where
  "frozen f = f\<lparr>fa_status := Active, fa_superseded_by := None, fa_sources := []\<rparr>"

text \<open>Facts are never removed or rewritten: only the provenance of a fact grows, and only an active fact changes status.\<close>

definition facts_kept :: "fact list \<Rightarrow> fact list \<Rightarrow> bool" where
  "facts_kept fs fs' \<longleftrightarrow> length fs \<le> length fs' \<and> (\<forall>i<length fs. frozen (fs' ! i) = frozen (fs ! i)
     \<and> set (fa_sources (fs ! i)) \<subseteq> set (fa_sources (fs' ! i)) \<and> (fa_status (fs ! i) \<noteq> Active \<longrightarrow> fs' ! i = fs ! i))"

lemma find_upt_some: "find P [a..<b] = Some i \<Longrightarrow> a \<le> i \<and> i < b \<and> P i"
  by (auto simp: find_Some_iff)

lemma find_upt_none: "find P [a..<b] = None \<longleftrightarrow> (\<forall>i. a \<le> i \<and> i < b \<longrightarrow> \<not> P i)"
  by (auto simp: find_None_iff)

lemma active_index_some: "active_index fs k = Some i \<Longrightarrow> active_at fs k i"
  unfolding active_index_def active_at_def by (drule find_upt_some) simp

lemma active_index_none: "active_index fs k = None \<longleftrightarrow> (\<forall>i. \<not> active_at fs k i)"
  unfolding active_index_def active_at_def find_upt_none by auto

lemma active_index_unique:
  assumes "facts_ok s fs"
  shows "active_index fs k = Some i \<longleftrightarrow> active_at fs k i"
  using assms active_index_some[of fs k] active_index_none[of fs k] unfolding facts_ok_def
  by (metis option.exhaust)

lemma facts_ok_unique: "facts_ok s fs \<Longrightarrow> active_at fs k i \<Longrightarrow> active_at fs k j \<Longrightarrow> i = j"
  by (auto simp: facts_ok_def)

lemma slot_values_at: "facts_ok s fs \<Longrightarrow> active_at fs k i \<Longrightarrow> slot_values lib fs k = Some (normalize_value lib (fa_value (fs ! i)))"
  by (auto simp: slot_values_def active_index_unique)

lemma slot_values_none: "(\<forall>i. \<not> active_at fs k i) \<Longrightarrow> slot_values lib fs k = None"
  by (simp add: slot_values_def active_index_none)

text \<open>Two sequences with the same active facts denote the same map.\<close>

lemma slot_values_cong:
  assumes "facts_ok s fs" and "facts_ok s' fs'" and "\<And>i. active_at fs' k i = active_at fs k i"
    and "\<And>i. active_at fs k i \<Longrightarrow> fa_value (fs' ! i) = fa_value (fs ! i)"
  shows "slot_values lib fs' k = slot_values lib fs k"
proof (cases "\<exists>i. active_at fs k i")
  case True
  then obtain i where "active_at fs k i" by blast
  then show ?thesis using assms slot_values_at by metis
next
  case False
  then show ?thesis using assms(3) slot_values_none by metis
qed

lemma facts_kept_refl: "facts_kept fs fs"
  by (simp add: facts_kept_def)

lemma frozen_simps [simp]:
  "frozen (f\<lparr>fa_status := s\<rparr>) = frozen f" "frozen (f\<lparr>fa_superseded_by := q\<rparr>) = frozen f" "frozen (f\<lparr>fa_sources := ss\<rparr>) = frozen f"
  by (simp_all add: frozen_def)

lemma frozen_fields:
  assumes "frozen f = frozen g"
  shows "fa_id f = fa_id g" "fa_slot_key f = fa_slot_key g" "fa_value f = fa_value g" "fa_sequence f = fa_sequence g"
    "fa_supersedes f = fa_supersedes g"
  using assms by (auto simp: frozen_def dest: arg_cong[where f = fa_id] arg_cong[where f = fa_slot_key]
      arg_cong[where f = fa_value] arg_cong[where f = fa_sequence] arg_cong[where f = fa_supersedes])

text \<open>The three ways a sequence of facts changes.\<close>

lemma active_at_update:
  "frozen g = frozen (fs ! i) \<Longrightarrow> active_at (fs[i := g]) k j \<longleftrightarrow>
     (if j = i then i < length fs \<and> fa_slot_key (fs ! i) = k \<and> fa_status g = Active else active_at fs k j)"
  using frozen_fields(2)[of g "fs ! i"] by (auto simp: active_at_def)

lemma active_at_append: "active_at (fs @ [f]) k j \<longleftrightarrow>
    (if j = length fs then fa_slot_key f = k \<and> fa_status f = Active else active_at fs k j)"
  by (auto simp: active_at_def nth_append)

lemma linked_superseded: "fa_status (fs ! i) = Superseded \<Longrightarrow> linked fs i \<longleftrightarrow> (\<exists>j. succeeds_at fs i j)"
  by (auto simp: linked_def succeeds_at_def)

lemma linked_other: "fa_status (fs ! i) \<noteq> Superseded \<Longrightarrow> linked fs i \<longleftrightarrow> fa_superseded_by (fs ! i) = None"
  by (simp add: linked_def)

lemma succeeds_at_append: "succeeds_at fs i j \<Longrightarrow> succeeds_at (fs @ gs) i j"
  by (simp add: succeeds_at_def nth_append)

lemma linked_append: "linked fs j \<Longrightarrow> j < length fs \<Longrightarrow> linked (fs @ gs) j"
  by (cases "fa_status (fs ! j) = Superseded")
    (auto simp: linked_superseded linked_other nth_append dest: succeeds_at_append)

lemma succeeds_at_update: "succeeds_at fs j l \<Longrightarrow> j \<noteq> i \<Longrightarrow> frozen g = frozen (fs ! i) \<Longrightarrow> succeeds_at (fs[i := g]) j l"
  using frozen_fields[of g "fs ! i"] by (cases "l = i") (auto simp: succeeds_at_def)

lemma linked_update:
  "linked fs j \<Longrightarrow> j \<noteq> i \<Longrightarrow> frozen g = frozen (fs ! i) \<Longrightarrow> linked (fs[i := g]) j"
  by (cases "fa_status (fs ! j) = Superseded")
    (auto simp: linked_superseded linked_other dest: succeeds_at_update)

lemma facts_kept_update: "frozen g = frozen (fs ! i) \<Longrightarrow> set (fa_sources (fs ! i)) \<subseteq> set (fa_sources g)
    \<Longrightarrow> fa_status (fs ! i) = Active \<Longrightarrow> facts_kept fs (fs[i := g] @ gs)"
  by (cases "i < length fs") (auto simp: facts_kept_def nth_append nth_list_update list_update_beyond)

lemma facts_kept_append: "facts_kept fs (fs @ gs)"
  by (simp add: facts_kept_def nth_append)

lemma facts_kept_trans: "facts_kept as bs \<Longrightarrow> facts_kept bs cs \<Longrightarrow> facts_kept as cs"
  unfolding facts_kept_def by (smt (verit, ccfv_SIG) dual_order.trans order.strict_trans2)

lemma map_sequence_update: "frozen g = frozen (fs ! i) \<Longrightarrow> map fa_sequence (fs[i := g]) = map fa_sequence fs"
  using frozen_fields(4)[of g "fs ! i"] by (metis list_update_beyond list_update_id map_update not_le)

lemma facts_ok_sequences: "facts_ok s fs \<longleftrightarrow> (\<forall>k i j. active_at fs k i \<longrightarrow> active_at fs k j \<longrightarrow> i = j)
     \<and> (\<forall>i<length fs. linked fs i) \<and> sorted (map fa_sequence fs) \<and> (\<forall>q\<in>set (map fa_sequence fs). q \<le> s)"
  by (simp add: facts_ok_def)

lemma facts_ok_update:
  assumes "facts_ok s fs" and "active_at fs k i" and "frozen g = frozen (fs ! i)"
    and "fa_status g = Active \<or> fa_status g = Retracted" and "fa_superseded_by g = None"
  shows "facts_ok s (fs[i := g])"
proof -
  have unique: "\<forall>k j l. active_at (fs[i := g]) k j \<longrightarrow> active_at (fs[i := g]) k l \<longrightarrow> j = l"
    using assms(1,2) unfolding active_at_update[OF assms(3)] facts_ok_def by (metis active_at_def)
  have "linked (fs[i := g]) i" using assms(2,4,5) by (auto simp: linked_def active_at_def)
  then have "\<forall>j<length fs. linked (fs[i := g]) j"
    using assms(1) linked_update[OF _ _ assms(3)] unfolding facts_ok_def by metis
  then show ?thesis using assms(1) unique
    unfolding facts_ok_sequences map_sequence_update[OF assms(3)] length_list_update by blast
qed

lemma facts_ok_append:
  assumes "\<forall>k i j. active_at fs k i \<longrightarrow> active_at fs k j \<longrightarrow> i = j" and "\<forall>i<length fs. linked (fs @ [f]) i"
    and "sorted (map fa_sequence fs)" and "\<forall>q\<in>set (map fa_sequence fs). q \<le> s"
    and "fa_sequence f = s" and "fa_status f = Active" and "fa_superseded_by f = None" and "\<forall>i. \<not> active_at fs (fa_slot_key f) i"
  shows "facts_ok s (fs @ [f])"
proof -
  have "linked (fs @ [f]) (length fs)" using assms(6,7) by (simp add: linked_def)
  then have "\<forall>i<length (fs @ [f]). linked (fs @ [f]) i" using assms(2) by (metis length_append_singleton less_SucE)
  moreover have "\<forall>k i j. active_at (fs @ [f]) k i \<longrightarrow> active_at (fs @ [f]) k j \<longrightarrow> i = j"
    unfolding active_at_append using assms(1,8) by metis
  ultimately show ?thesis using assms(3-5) by (simp add: facts_ok_sequences sorted_append del: length_append)
qed

lemma facts_ok_mono: "facts_ok s fs \<Longrightarrow> s \<le> t \<Longrightarrow> facts_ok t fs"
  by (auto simp: facts_ok_def)

text \<open>What replacing an active fact, and what adding a fact, does to the map.\<close>

lemma slot_values_update:
  assumes "facts_ok s fs" and "active_at fs k i" and "frozen g = frozen (fs ! i)" and "fa_superseded_by g = None"
  shows "fa_status g = Active \<Longrightarrow> slot_values lib (fs[i := g]) = slot_values lib fs"
    and "fa_status g = Retracted \<Longrightarrow> slot_values lib (fs[i := g]) = (slot_values lib fs)(k := None)"
proof -
  have i: "i < length fs" "fa_slot_key (fs ! i) = k" "fa_status (fs ! i) = Active" using assms(2) by (simp_all add: active_at_def)
  have v: "fa_value g = fa_value (fs ! i)" using frozen_fields(3)[OF assms(3)] .
  show "slot_values lib (fs[i := g]) = slot_values lib fs" if "fa_status g = Active"
  proof
    fix l
    have ok: "facts_ok s (fs[i := g])" using facts_ok_update assms that by blast
    show "slot_values lib (fs[i := g]) l = slot_values lib fs l"
    proof (rule slot_values_cong[OF assms(1) ok])
      show "active_at (fs[i := g]) l j = active_at fs l j" for j
        unfolding active_at_update[OF assms(3)] using i that by (auto simp: active_at_def)
      show "fa_value (fs[i := g] ! j) = fa_value (fs ! j)" for j using i(1) v by (cases "j = i") simp_all
    qed
  qed
  show "slot_values lib (fs[i := g]) = (slot_values lib fs)(k := None)" if r: "fa_status g = Retracted"
  proof
    fix l
    have ok: "facts_ok s (fs[i := g])" using facts_ok_update assms r by blast
    have act: "active_at (fs[i := g]) l j \<longleftrightarrow> j \<noteq> i \<and> active_at fs l j" for j
      unfolding active_at_update[OF assms(3)] using r by simp
    show "slot_values lib (fs[i := g]) l = ((slot_values lib fs)(k := None)) l"
    proof (cases "l = k")
      case True
      then have "\<not> active_at (fs[i := g]) l j" for j using act facts_ok_unique[OF assms(1) _ assms(2)] by blast
      then show ?thesis using True slot_values_none by simp
    next
      case False
      have "slot_values lib (fs[i := g]) l = slot_values lib fs l"
      proof (rule slot_values_cong[OF assms(1) ok])
        show "active_at (fs[i := g]) l j = active_at fs l j" for j using act False i(2) by (auto simp: active_at_def)
        show "fa_value (fs[i := g] ! j) = fa_value (fs ! j)" for j using i(1) v by (cases "j = i") simp_all
      qed
      then show ?thesis using False by simp
    qed
  qed
qed

lemma slot_values_added:
  assumes "facts_ok s (hs @ [f])" and "facts_ok s' fs" and "fa_status f = Active"
    and "\<And>l j. l \<noteq> fa_slot_key f \<Longrightarrow> active_at hs l j = active_at fs l j"
    and "\<And>j. fa_value (hs ! j) = fa_value (fs ! j)"
  shows "slot_values lib (hs @ [f]) = (slot_values lib fs)(fa_slot_key f \<mapsto> normalize_value lib (fa_value f))"
proof
  fix l
  show "slot_values lib (hs @ [f]) l = ((slot_values lib fs)(fa_slot_key f \<mapsto> normalize_value lib (fa_value f))) l"
  proof (cases "l = fa_slot_key f")
    case True
    then have "active_at (hs @ [f]) l (length hs)" using assms(3) by (simp add: active_at_append)
    then show ?thesis using True slot_values_at[OF assms(1)] by simp
  next
    case False
    have act: "active_at (hs @ [f]) l j = active_at fs l j" for j
      using False assms(4)[of l j] assms(4)[of l "length hs"] unfolding active_at_append
      by (auto simp: active_at_def)
    have "slot_values lib (hs @ [f]) l = slot_values lib fs l"
    proof (rule slot_values_cong[OF assms(2,1) act])
      fix j assume "active_at fs l j"
      then have "j < length hs" using assms(4)[OF False] by (auto simp: active_at_def)
      then show "fa_value ((hs @ [f]) ! j) = fa_value (fs ! j)" using assms(5) by (simp add: nth_append)
    qed
    then show ?thesis using False by simp
  qed
qed

text \<open>The outcomes of one operation.\<close>

lemma apply_operation_cases:
  assumes "apply_operation lib st seq stmt idx p (fs, a) = Inr (fs', a')"
  obtains
    (ignored) "fo_op p = ''retract''" "\<forall>i. \<not> active_at fs (fo_slot_key p) i" "fs' = fs"
  | (retired) i where "fo_op p = ''retract''" "active_at fs (fo_slot_key p) i"
      "fs' = fs[i := (fs ! i)\<lparr>fa_status := Retracted, fa_superseded_by := None\<rparr>]"
  | (repeated) i where "fo_op p \<noteq> ''retract''" "active_at fs (fo_slot_key p) i"
      "normalize_value lib (fa_value (fs ! i)) = normalize_value lib (op_value p)"
      "fs' = fs[i := (fs ! i)\<lparr>fa_sources := unique_in_order (fa_sources (fs ! i) @ fo_sources p)\<rparr>]"
  | (replaced) i f where "fo_op p \<noteq> ''retract''" "active_at fs (fo_slot_key p) i"
      "fs' = fs[i := (fs ! i)\<lparr>fa_status := Superseded, fa_superseded_by := Some (fa_id f)\<rparr>] @ [f]"
      "fa_slot_key f = fo_slot_key p" "fa_value f = op_value p" "fa_sequence f = seq" "fa_status f = Active"
      "fa_superseded_by f = None" "fa_supersedes f = Some (fa_id (fs ! i))"
  | (added) f where "fo_op p \<noteq> ''retract''" "\<forall>i. \<not> active_at fs (fo_slot_key p) i" "fs' = fs @ [f]"
      "fa_slot_key f = fo_slot_key p" "fa_value f = op_value p" "fa_sequence f = seq" "fa_status f = Active"
      "fa_superseded_by f = None"
proof (cases "active_index fs (fo_slot_key p)")
  case None
  then show thesis using assms that active_index_none[of fs "fo_slot_key p"] None
    by (auto simp: apply_operation_def Let_def bind_result_Inr_iff split: if_splits)
next
  case (Some i)
  then show thesis using assms that active_index_some[OF Some] Some
    by (auto simp: apply_operation_def Let_def bind_result_Inr_iff split: if_splits)
qed

text \<open>One operation.\<close>

definition operation_step :: "fact_library \<Rightarrow> int \<Rightarrow> operation \<Rightarrow> fact list \<Rightarrow> fact list \<Rightarrow> bool" where
  "operation_step lib seq p fs fs' \<longleftrightarrow> facts_ok seq fs' \<and> facts_kept fs fs'
     \<and> slot_values lib fs' = slot_update lib (slot_values lib fs) p"

lemma set_unique_in_order [simp]: "set (unique_in_order xs) = set xs"
  by (simp add: unique_in_order_def)

lemma operation_step_replaced:
  assumes ok: "facts_ok seq fs" and act: "active_at fs (fo_slot_key p) i" and op: "fo_op p \<noteq> ''retract''"
    and f: "fa_slot_key f = fo_slot_key p" "fa_value f = op_value p" "fa_sequence f = seq" "fa_status f = Active"
      "fa_superseded_by f = None" "fa_supersedes f = Some (fa_id (fs ! i))"
  shows "operation_step lib seq p fs (fs[i := (fs ! i)\<lparr>fa_status := Superseded, fa_superseded_by := Some (fa_id f)\<rparr>] @ [f])"
proof -
  define g where "g = (fs ! i)\<lparr>fa_status := Superseded, fa_superseded_by := Some (fa_id f)\<rparr>"
  have g: "frozen g = frozen (fs ! i)" "fa_status g = Superseded" by (simp_all add: g_def)
  have i: "i < length fs" "fa_slot_key (fs ! i) = fo_slot_key p" "fa_status (fs ! i) = Active" using act by (simp_all add: active_at_def)
  have hs: "active_at (fs[i := g]) l j \<longleftrightarrow> j \<noteq> i \<and> active_at fs l j" for l j
    unfolding active_at_update[OF g(1)] using g(2) by simp
  have link: "linked (fs[i := g] @ [f]) i"
  proof -
    have "succeeds_at (fs[i := g] @ [f]) i (length fs)" using i f by (simp add: succeeds_at_def nth_append g_def)
    then show ?thesis using i(1) g(2) linked_superseded[of "fs[i := g] @ [f]" i] by (auto simp: nth_append)
  qed
  have links: "linked (fs[i := g] @ [f]) j" if "j < length fs" for j
    using link linked_append[OF linked_update[OF _ _ g(1)]] that ok unfolding facts_ok_def by (metis length_list_update)
  have new: "facts_ok seq (fs[i := g] @ [f])"
  proof (rule facts_ok_append)
    show "\<forall>k l j. active_at (fs[i := g]) k l \<longrightarrow> active_at (fs[i := g]) k j \<longrightarrow> l = j" using hs facts_ok_unique[OF ok] by blast
    show "\<forall>l. \<not> active_at (fs[i := g]) (fa_slot_key f) l" using hs f(1) facts_ok_unique[OF ok _ act] by metis
  qed (use links f ok in \<open>simp_all add: map_sequence_update[OF g(1)] facts_ok_def\<close>)
  have "slot_values lib (fs[i := g] @ [f]) = (slot_values lib fs)(fa_slot_key f \<mapsto> normalize_value lib (fa_value f))"
  proof (rule slot_values_added[OF new ok f(4)])
    show "active_at (fs[i := g]) l j = active_at fs l j" if "l \<noteq> fa_slot_key f" for l j
      using hs that i(2) f(1) by (auto simp: active_at_def)
    show "fa_value (fs[i := g] ! j) = fa_value (fs ! j)" for j
      using i(1) frozen_fields(3)[OF g(1)] by (cases "j = i") simp_all
  qed
  then show ?thesis
    using new facts_kept_update[OF g(1) _ i(3), of "[f]"] f(1,2) op
    by (simp add: operation_step_def slot_update_def g_def[symmetric]) (simp add: g_def)
qed

lemma operation_step_added:
  assumes ok: "facts_ok seq fs" and idle: "\<forall>i. \<not> active_at fs (fo_slot_key p) i" and op: "fo_op p \<noteq> ''retract''"
    and f: "fa_slot_key f = fo_slot_key p" "fa_value f = op_value p" "fa_sequence f = seq" "fa_status f = Active" "fa_superseded_by f = None"
  shows "operation_step lib seq p fs (fs @ [f])"
proof -
  have new: "facts_ok seq (fs @ [f])"
    by (rule facts_ok_append) (use ok idle f linked_append in \<open>simp_all add: facts_ok_def\<close>)
  have "slot_values lib (fs @ [f]) = (slot_values lib fs)(fa_slot_key f \<mapsto> normalize_value lib (fa_value f))"
    by (rule slot_values_added[OF new ok f(4)]) simp_all
  then show ?thesis using new facts_kept_append[of fs "[f]"] f(1,2) op by (simp add: operation_step_def slot_update_def)
qed

lemma operation_step_repeated:
  assumes ok: "facts_ok seq fs" and act: "active_at fs (fo_slot_key p) i" and op: "fo_op p \<noteq> ''retract''"
    and same: "normalize_value lib (fa_value (fs ! i)) = normalize_value lib (op_value p)"
  shows "operation_step lib seq p fs (fs[i := (fs ! i)\<lparr>fa_sources := unique_in_order (fa_sources (fs ! i) @ fo_sources p)\<rparr>])"
proof -
  define g where "g = (fs ! i)\<lparr>fa_sources := unique_in_order (fa_sources (fs ! i) @ fo_sources p)\<rparr>"
  have i: "i < length fs" "fa_status (fs ! i) = Active" using act by (simp_all add: active_at_def)
  have g: "frozen g = frozen (fs ! i)" "fa_status g = Active" "set (fa_sources (fs ! i)) \<subseteq> set (fa_sources g)"
    using i by (simp_all add: g_def)
  have "linked fs i" using ok i(1) by (simp add: facts_ok_def)
  then have n: "fa_superseded_by g = None" using i(2) by (simp add: linked_other g_def)
  have "(slot_values lib fs)(fo_slot_key p \<mapsto> normalize_value lib (op_value p)) = slot_values lib fs"
    using slot_values_at[OF ok act] same by (simp add: fun_upd_idem)
  then show ?thesis
    using facts_ok_update[OF ok act g(1) _ n] slot_values_update(1)[OF ok act g(1) n g(2)] facts_kept_update[OF g(1,3) i(2), of "[]"] g(2) op
    by (simp add: operation_step_def slot_update_def g_def[symmetric])
qed

lemma operation_step_retired:
  assumes ok: "facts_ok seq fs" and act: "active_at fs (fo_slot_key p) i" and op: "fo_op p = ''retract''"
  shows "operation_step lib seq p fs (fs[i := (fs ! i)\<lparr>fa_status := Retracted, fa_superseded_by := None\<rparr>])"
proof -
  define g where "g = (fs ! i)\<lparr>fa_status := Retracted, fa_superseded_by := None\<rparr>"
  have g: "frozen g = frozen (fs ! i)" "fa_status g = Retracted" "fa_superseded_by g = None" "set (fa_sources (fs ! i)) \<subseteq> set (fa_sources g)"
    by (simp_all add: g_def)
  have i: "fa_status (fs ! i) = Active" using act by (simp add: active_at_def)
  show ?thesis
    using facts_ok_update[OF ok act g(1) _ g(3)] slot_values_update(2)[OF ok act g(1,3,2)] facts_kept_update[OF g(1,4) i, of "[]"] g(2) op
    by (simp add: operation_step_def slot_update_def g_def[symmetric])
qed

lemma apply_operation_step:
  assumes "apply_operation lib st seq stmt idx p (fs, a) = Inr (fs', a')" and ok: "facts_ok seq fs"
  shows "operation_step lib seq p fs fs'"
  using assms(1)
proof (cases rule: apply_operation_cases)
  case ignored
  then show ?thesis using ok slot_values_none[of fs "fo_slot_key p" lib]
    by (simp add: operation_step_def slot_update_def facts_kept_refl fun_upd_idem)
qed (use operation_step_retired operation_step_repeated operation_step_replaced operation_step_added ok in simp_all)

text \<open>An extraction.\<close>

lemma apply_operations_steps:
  "apply_operations lib st seq stmt idx ops (fs, a) = Inr (fs', a') \<Longrightarrow> facts_ok seq fs \<Longrightarrow>
     \<exists>ps. validated_all lib ops = Inr ps \<and> slot_values lib fs' = foldl (slot_update lib) (slot_values lib fs) ps
        \<and> facts_ok seq fs' \<and> facts_kept fs fs'"
proof (induction ops arbitrary: idx fs a)
  case Nil
  then show ?case by (simp add: facts_kept_refl)
next
  case (Cons x xs)
  then obtain p gs b where v: "validated lib x = Inr p" and st: "apply_operation lib st seq stmt idx p (fs, a) = Inr (gs, b)"
    and rest: "apply_operations lib st seq stmt (idx + 1) xs (gs, b) = Inr (fs', a')"
    by (auto simp: bind_result_Inr_iff)
  have step: "operation_step lib seq p fs gs" using apply_operation_step[OF st Cons.prems(2)] .
  obtain ps where "validated_all lib xs = Inr ps" "slot_values lib fs' = foldl (slot_update lib) (slot_values lib gs) ps"
    "facts_ok seq fs'" "facts_kept gs fs'"
    using Cons.IH[OF rest] step by (auto simp: operation_step_def)
  then show ?case using v step facts_kept_trans by (auto simp: operation_step_def)
qed

section \<open>Sequences of extractions\<close>

definition fact_store_ok :: "fact_store \<Rightarrow> bool" where
  "fact_store_ok st = facts_ok (fs_last_sequence st) (fs_facts st)"

text \<open>Extractions, each with its operations, message sequence and statement.\<close>

fun apply_extractions ::
    "fact_library \<Rightarrow> (operation_input list \<times> int \<times> string) list \<Rightarrow> fact_store \<Rightarrow> (exn, fact_store) result" where
  "apply_extractions lib [] st = Inr st"
| "apply_extractions lib ((ops, seq, statement) # es) st =
     bind_result (apply_extraction lib st ops seq statement) (apply_extractions lib es)"

lemma fact_store_init_facts: "fact_store_init lib st = Inr st' \<Longrightarrow> fs_facts st' = fs_facts st \<and> fs_last_sequence st' = fs_last_sequence st"
  by (auto simp: fact_store_init_def bind_result_Inr_iff)

lemma apply_extraction_steps:
  assumes "apply_extraction lib st ops seq statement = Inr st'" and "fact_store_ok st"
  shows "\<exists>ps. validated_all lib ops = Inr ps
      \<and> slot_values lib (fs_facts st') = foldl (slot_update lib) (slot_values lib (fs_facts st)) ps"
    and "fact_store_ok st'" and "facts_kept (fs_facts st) (fs_facts st')" and "fs_last_sequence st < fs_last_sequence st'"
proof -
  obtain stmt facts audit where seq: "fs_last_sequence st < seq"
    and ops: "apply_operations lib st seq stmt 0 ops (fs_facts st, fs_audit st) = Inr (facts, audit)"
    and fin: "fact_store_init lib (st\<lparr>fs_facts := facts, fs_audit := audit, fs_last_sequence := seq\<rparr>) = Inr st'"
    using assms(1) by (auto simp: apply_extraction_def bind_result_Inr_iff split: if_splits)
  have "facts_ok seq (fs_facts st)" using assms(2) seq facts_ok_mono[of "fs_last_sequence st" "fs_facts st" seq] by (simp add: fact_store_ok_def)
  note steps = apply_operations_steps[OF ops this]
  have st': "fs_facts st' = facts" "fs_last_sequence st' = seq" using fact_store_init_facts[OF fin] by simp_all
  show "\<exists>ps. validated_all lib ops = Inr ps
      \<and> slot_values lib (fs_facts st') = foldl (slot_update lib) (slot_values lib (fs_facts st)) ps" using steps st' by metis
  show "fact_store_ok st'" "facts_kept (fs_facts st) (fs_facts st')" "fs_last_sequence st < fs_last_sequence st'"
    using steps st' seq by (auto simp: fact_store_ok_def)
qed

lemma validated_all_append: "validated_all lib (xs @ ys) =
    bind_result (validated_all lib xs) (\<lambda>ps. bind_result (validated_all lib ys) (\<lambda>qs. Inr (ps @ qs)))"
  by (induction xs) (auto simp: bind_result_def split: sum.splits)

lemma apply_extractions_steps:
  "apply_extractions lib es st = Inr st' \<Longrightarrow> fact_store_ok st \<Longrightarrow>
     (\<exists>ps. validated_all lib (concat (map fst es)) = Inr ps
       \<and> slot_values lib (fs_facts st') = foldl (slot_update lib) (slot_values lib (fs_facts st)) ps)
     \<and> fact_store_ok st' \<and> facts_kept (fs_facts st) (fs_facts st')"
proof (induction lib es st rule: apply_extractions.induct)
  case (1 lib st)
  then show ?case by (simp add: facts_kept_refl)
next
  case (2 lib ops seq statement es st)
  obtain mid where one: "apply_extraction lib st ops seq statement = Inr mid" and rest: "apply_extractions lib es mid = Inr st'"
    using "2.prems"(1) by (auto simp: bind_result_Inr_iff)
  note first = apply_extraction_steps[OF one "2.prems"(2)]
  note later = "2.IH"[OF rest first(2)]
  show ?case using first(1,3) later facts_kept_trans by (fastforce simp: validated_all_append)
qed

lemma empty_fact_store_ok: "empty_fact_store lib t c v = Inr st \<Longrightarrow> fs_facts st = [] \<and> fact_store_ok st"
  using fact_store_init_facts unfolding empty_fact_store_def by (fastforce simp: fact_store_ok_def facts_ok_def active_at_def)

section \<open>Properties\<close>

text \<open>
  C38: The fact store refines a map from slots to values. Whatever extractions are applied, in whatever
  order, to an empty store: each of their operations was validated, and the active facts denote the map
  those operations make of the empty one, an assertion binding its slot to the normalized value and a
  retraction unbinding it. The store stays well formed (at most one active fact per slot, a superseded
  fact and its successor naming each other, facts in the order of their messages), and a further
  extraction removes no fact and rewrites none: it only settles the status of an active fact or adds to
  its provenance.
\<close>

theorem fact_store_refines_slot_map:
  assumes "empty_fact_store lib tenant conversation version = Inr bare"
    and "apply_extractions lib es bare = Inr st"
    and "apply_extraction lib st ops seq statement = Inr st'"
  shows "(\<exists>ps. validated_all lib (concat (map fst es)) = Inr ps
           \<and> slot_values lib (fs_facts st) = foldl (slot_update lib) Map.empty ps)
       \<and> fact_store_ok st
       \<and> (\<exists>ps. validated_all lib ops = Inr ps
           \<and> slot_values lib (fs_facts st') = foldl (slot_update lib) (slot_values lib (fs_facts st)) ps)
       \<and> fact_store_ok st' \<and> facts_kept (fs_facts st) (fs_facts st') \<and> fs_last_sequence st < fs_last_sequence st'"
proof -
  have e: "fs_facts bare = []" "fact_store_ok bare" using empty_fact_store_ok[OF assms(1)] by simp_all
  have "slot_values lib [] = Map.empty" by (rule ext) (simp add: slot_values_def active_index_def)
  then show ?thesis
    using apply_extractions_steps[OF assms(2) e(2)] apply_extraction_steps[OF assms(3)] unfolding e(1) by metis
qed

text \<open>A value asserted, and replaced by another.\<close>

definition example_fact_library :: fact_library where
  "example_fact_library = \<lparr>lib_sha256 = (\<lambda>_. ''digest''), lib_float_repr = (\<lambda>l. l), lib_nfc = (\<lambda>s. s), lib_nfkc_casefold = (\<lambda>s. s)\<rparr>"

definition colour_is :: "string \<Rightarrow> operation_input" where
  "colour_is v = Validated \<lparr>fo_op = ''assert'', fo_slot_key = ''colour'', fo_value = Some v, fo_kind = ''fact'', fo_sources = [''m'']\<rparr>"

lemma text_value_example [simp]:
  "text_value example_fact_library ''t'' = Inr ''t''" "text_value example_fact_library ''c'' = Inr ''c''"
  "text_value example_fact_library ''v'' = Inr ''v''" "text_value example_fact_library ''m'' = Inr ''m''"
  "text_value example_fact_library ''n'' = Inr ''n''" "text_value example_fact_library ''colour'' = Inr ''colour''"
  by code_simp+

lemma normalize_value_example [simp]:
  "normalize_value example_fact_library ''red'' = ''red''" "normalize_value example_fact_library ''blue'' = ''blue''"
  by code_simp+

lemma fact_id_example [simp]: "0 \<le> n \<Longrightarrow> fact_id example_fact_library ''t'' ''c'' ''colour'' n 0 = Inr ''digest''"
  by (simp add: fact_id_def) (simp add: example_fact_library_def)

theorem fact_store_refines_slot_map_witness:
  "\<exists>bare st st'. empty_fact_store example_fact_library ''t'' ''c'' ''v'' = Inr bare
     \<and> apply_extractions example_fact_library [([colour_is ''red''], 0, ''m'')] bare = Inr st
     \<and> apply_extraction example_fact_library st [colour_is ''blue''] 4 ''n'' = Inr st'
     \<and> map fa_status (fs_facts st') = [Superseded, Active] \<and> fact_store_ok st'
     \<and> slot_values example_fact_library (fs_facts st') ''colour'' = Some ''blue''"
proof -
  obtain bare where b: "empty_fact_store example_fact_library ''t'' ''c'' ''v'' = Inr bare"
    and bare: "bare = \<lparr>fs_tenant = ''t'', fs_conversation = ''c'', fs_extractor_version = ''v'', fs_facts = [], fs_audit = [], fs_last_sequence = -1\<rparr>"
    by (simp add: empty_fact_store_def fact_store_init_def)
  obtain st where s: "apply_extractions example_fact_library [([colour_is ''red''], 0, ''m'')] bare = Inr st"
    and st: "apply_extraction example_fact_library bare [colour_is ''red''] 0 ''m'' = Inr st"
    by (simp add: bare apply_extraction_def colour_is_def validated_def apply_operation_def active_index_def fact_store_init_def op_value_def)
  obtain st' where e: "apply_extraction example_fact_library st [colour_is ''blue''] 4 ''n'' = Inr st'"
    and status: "map fa_status (fs_facts st') = [Superseded, Active]"
    and blue: "slot_values example_fact_library (fs_facts st') ''colour'' = Some ''blue''"
    using st by (auto simp: bare apply_extraction_def colour_is_def validated_def apply_operation_def active_index_def
        fact_store_init_def op_value_def slot_values_def)
  have "fact_store_ok st'" using fact_store_refines_slot_map[OF b s e] by (elim conjE)
  then show ?thesis using b s e status blue by (intro exI conjI)
qed

end
