(* ===== verification/Web_Read.thy ===== *)
theory Web_Read imports Domain_Types begin

text \<open>
  The controlled reading of a web page (\<open>app/services/web_read.py\<close>, \<open>app/api/routes/web_read.py\<close>): the
  check of a URL against the allowed domains, the bounded fetch, and the text taken from a page. The HTTP
  client is a parameter that answers one request; following redirects is its documented behaviour, at most
  twenty, and the model keeps the URLs requested. UTF-8 decoding with replacement, \<open>html.unescape\<close>, the
  events of \<open>HTMLParser.feed\<close> and two checks of \<open>urlsplit\<close> (bracketed hosts, non-ASCII hosts) are
  parameters.
\<close>

section \<open>Settings and library\<close>

record web_read_settings =
  wr_enabled :: bool
  wr_allow_http :: bool
  wr_allowed_domains :: "string list"
  wr_max_bytes :: int
  wr_max_chars :: int

datatype html_event = Start_Tag string | End_Tag string | Text_Data string

record web_library =
  wl_netloc_rejected :: "string \<Rightarrow> bool"
  wl_decode :: "string \<Rightarrow> string"
  wl_unescape :: "string \<Rightarrow> string"
  wl_html_events :: "string \<Rightarrow> html_event list"

datatype web_read_exn = Web_Blocked string | Web_Fetch string | Web_Other string string

section \<open>URLs\<close>

definition scheme_char :: "char \<Rightarrow> bool" where
  "scheme_char c = (is_digit c \<or> c \<in> set ''+-.'' \<or> (let n = code_point c in 65 \<le> n \<and> n \<le> 90 \<or> 97 \<le> n \<and> n \<le> 122))"

definition ascii_letter :: "char \<Rightarrow> bool" where
  "ascii_letter c = (let n = code_point c in 65 \<le> n \<and> n \<le> 90 \<or> 97 \<le> n \<and> n \<le> 122)"

definition split_at :: "char \<Rightarrow> string \<Rightarrow> string \<times> string option" where
  "split_at c s = (let before = takeWhile (\<lambda>d. d \<noteq> c) s
     in (before, if length before < length s then Some (drop (Suc (length before)) s) else None))"

definition after_last :: "char \<Rightarrow> string \<Rightarrow> string" where
  "after_last c s = rev (takeWhile (\<lambda>d. d \<noteq> c) (rev s))"

text \<open>\<open>urlsplit\<close>: the scheme and the network location, when the location is accepted.\<close>

definition cleaned_url :: "string \<Rightarrow> string" where
  "cleaned_url url = filter (\<lambda>c. code_point c \<noteq> 9 \<and> code_point c \<noteq> 10 \<and> code_point c \<noteq> 13)
     (dropWhile (\<lambda>c. code_point c \<le> 32) url)"

definition split_scheme :: "string \<Rightarrow> string \<times> string" where
  "split_scheme url = (case split_at (CHR '':'') url of
     (before, Some rest) \<Rightarrow>
       if before \<noteq> [] \<and> ascii_letter (hd before) \<and> list_all scheme_char before then (py_lower before, rest) else ([], url)
   | (before, None) \<Rightarrow> ([], url))"

definition netloc_of :: "string \<Rightarrow> string" where
  "netloc_of rest = (if take 2 rest = ''//'' then takeWhile (\<lambda>c. c \<notin> set ''/?#'') (drop 2 rest) else [])"

definition urlparse :: "web_library \<Rightarrow> string \<Rightarrow> (web_read_exn, string \<times> string) result" where
  "urlparse lib url = (case split_scheme (cleaned_url url) of (scheme, rest) \<Rightarrow>
     (let netloc = netloc_of rest in
      if (CHR ''['' \<in> set netloc) \<noteq> (CHR '']'' \<in> set netloc) \<or> wl_netloc_rejected lib netloc
      then Inl (Web_Other ''ValueError'' ''Invalid netloc'')
      else Inr (scheme, netloc)))"

text \<open>\<open>hostname\<close>, with the empty text for none: credentials and port off, brackets off, lower case up
  to a zone.\<close>

definition hostname_of :: "string \<Rightarrow> string" where
  "hostname_of netloc =
     (let hostinfo = after_last (CHR ''@'') netloc;
          host = (case split_at (CHR ''['') hostinfo of
              (_, Some bracketed) \<Rightarrow> fst (split_at (CHR '']'') bracketed)
            | (_, None) \<Rightarrow> fst (split_at (CHR '':'') hostinfo))
      in case split_at (CHR ''%'') host of
           (name, Some zone) \<Rightarrow> py_lower name @ ''%'' @ zone
         | (name, None) \<Rightarrow> py_lower name)"

definition is_allowed_host :: "web_read_settings \<Rightarrow> string \<Rightarrow> bool" where
  "is_allowed_host cfg host = list_ex (\<lambda>domain. host = domain \<or> py_endswith host (''.'' @ domain)) (wr_allowed_domains cfg)"

definition validate_url :: "web_library \<Rightarrow> web_read_settings \<Rightarrow> string \<Rightarrow> (web_read_exn, unit) result" where
  "validate_url lib cfg url = bind_result (urlparse lib url) (\<lambda>(scheme, netloc).
     let host = py_lower (hostname_of netloc) in
     if py_lower scheme \<notin> {''http'', ''https''} then Inl (Web_Blocked ''only http and https URLs are allowed'')
     else if py_lower scheme = ''http'' \<and> \<not> wr_allow_http cfg then Inl (Web_Blocked ''only https is allowed'')
     else if host = [] then Inl (Web_Blocked ''host is required'')
     else if \<not> is_allowed_host cfg host then Inl (Web_Blocked ''domain is not allowed'')
     else Inr ())"

section \<open>Fetching\<close>

text \<open>A client error is an \<open>HTTPError\<close> with its text, or another exception. A page is its status, its content
  type header, its body in pieces and the error that ends the body, if any.\<close>

datatype http_failure = Http_Failure string | Other_Failure string string

record web_page =
  wp_status :: int
  wp_content_type :: string
  wp_chunks :: "string list"
  wp_failure :: "http_failure option"

datatype web_answer = Redirect_To string | Page web_page

type_synonym web = "string \<Rightarrow> (http_failure, web_answer) result"

definition max_redirects :: nat where
  "max_redirects = 20"

text \<open>The page with its URL, and the URLs requested, in order.\<close>

primrec follow :: "nat \<Rightarrow> web \<Rightarrow> string \<Rightarrow> (http_failure, string \<times> web_page) result \<times> string list" where
  "follow 0 web url = (case web url of
     Inl e \<Rightarrow> (Inl e, [url]) | Inr (Page p) \<Rightarrow> (Inr (url, p), [url])
   | Inr (Redirect_To target) \<Rightarrow> (Inl (Http_Failure ''Exceeded maximum allowed redirects.''), [url]))"
| "follow (Suc n) web url = (case web url of
     Inl e \<Rightarrow> (Inl e, [url]) | Inr (Page p) \<Rightarrow> (Inr (url, p), [url])
   | Inr (Redirect_To target) \<Rightarrow> (case follow n web target of (r, urls) \<Rightarrow> (r, url # urls)))"

text \<open>The bytes kept and whether reading stopped at the limit.\<close>

fun read_chunks :: "int \<Rightarrow> string \<Rightarrow> string list \<Rightarrow> string \<times> bool" where
  "read_chunks max_bytes content [] = (content, False)"
| "read_chunks max_bytes content (chunk # chunks) =
     (let remaining = max_bytes - ilen content in
      if remaining \<le> 0 then (content, True)
      else if ilen chunk > remaining then (content @ py_first_n remaining chunk, True)
      else read_chunks max_bytes (content @ chunk) chunks)"

definition media_type :: "string \<Rightarrow> string" where
  "media_type header = py_lower (py_strip (fst (split_at (CHR '';'') header)))"

definition fetch_failure :: "http_failure \<Rightarrow> web_read_exn" where
  "fetch_failure e = (case e of Http_Failure m \<Rightarrow> Web_Fetch m | Other_Failure n m \<Rightarrow> Web_Other n m)"

definition fetch :: "web_read_settings \<Rightarrow> web \<Rightarrow> string
    \<Rightarrow> (web_read_exn, string \<times> string \<times> string \<times> bool) result \<times> string list" where
  "fetch cfg web url = (case follow max_redirects web url of
     (Inl e, urls) \<Rightarrow> (Inl (fetch_failure e), urls)
   | (Inr (final_url, page), urls) \<Rightarrow>
       (if \<not> (200 \<le> wp_status page \<and> wp_status page \<le> 299)
        then Inl (Web_Fetch (''upstream returned '' @ int_dec (wp_status page)))
        else (case read_chunks (wr_max_bytes cfg) [] (wp_chunks page) of (content, stopped) \<Rightarrow>
          (case (stopped, wp_failure page) of
             (False, Some e) \<Rightarrow> Inl (fetch_failure e)
           | _ \<Rightarrow> Inr (content, final_url, media_type (wp_content_type page), stopped))),
        urls))"

section \<open>Text\<close>

record text_extractor =
  te_parts :: "string list"
  te_title_parts :: "string list"
  te_skip_depth :: nat
  te_in_title :: bool

fun handle_event :: "html_event \<Rightarrow> text_extractor \<Rightarrow> text_extractor" where
  "handle_event (Start_Tag tag) x =
     (let x' = (if py_lower tag \<in> {''script'', ''style''} then x\<lparr>te_skip_depth := Suc (te_skip_depth x)\<rparr> else x)
      in if py_lower tag = ''title'' then x'\<lparr>te_in_title := True\<rparr> else x')"
| "handle_event (End_Tag tag) x =
     (let x' = (if py_lower tag \<in> {''script'', ''style''} \<and> te_skip_depth x > 0 then x\<lparr>te_skip_depth := te_skip_depth x - 1\<rparr> else x)
      in if py_lower tag = ''title'' then x'\<lparr>te_in_title := False\<rparr> else x')"
| "handle_event (Text_Data s) x =
     (if te_skip_depth x > 0 then x
      else (let value = py_join '' '' (py_words s) in
        if value = [] then x
        else (let x' = (if te_in_title x then x\<lparr>te_title_parts := te_title_parts x @ [value]\<rparr> else x)
          in x'\<lparr>te_parts := te_parts x @ [value]\<rparr>)))"

definition extracted_text :: "text_extractor \<Rightarrow> string" where
  "extracted_text x = py_strip (py_join '' '' (te_parts x))"

definition extracted_title :: "text_extractor \<Rightarrow> string option" where
  "extracted_title x = (let title = py_strip (py_join '' '' (te_title_parts x)) in if title = [] then None else Some title)"

definition extract_text :: "web_library \<Rightarrow> string \<Rightarrow> string \<Rightarrow> string option \<times> string" where
  "extract_text lib content content_type =
     (let s = wl_decode lib content in
      if content_type = ''text/plain'' then (None, py_join '' '' (py_words (wl_unescape lib s)))
      else (let x = fold handle_event (wl_html_events lib s) \<lparr>te_parts = [], te_title_parts = [], te_skip_depth = 0, te_in_title = False\<rparr>
        in (extracted_title x, wl_unescape lib (extracted_text x))))"

section \<open>Service and route\<close>

record web_read_result =
  wo_url :: string
  wo_final_url :: string
  wo_content_type :: string
  wo_title :: "string option"
  wo_text :: string
  wo_truncated :: bool

text \<open>The outcome and the URLs requested.\<close>

definition read_url :: "web_library \<Rightarrow> web_read_settings \<Rightarrow> web \<Rightarrow> string \<Rightarrow> (web_read_exn, web_read_result) result \<times> string list" where
  "read_url lib cfg web url =
     (if \<not> wr_enabled cfg then (Inl (Web_Blocked ''web read is disabled''), [])
      else (case validate_url lib cfg url of
        Inl e \<Rightarrow> (Inl e, [])
      | Inr _ \<Rightarrow> (case fetch cfg web url of (fetched, urls) \<Rightarrow>
          (bind_result fetched (\<lambda>(content, final_url, content_type, stopped).
           bind_result (validate_url lib cfg final_url) (\<lambda>_.
             if content_type \<notin> {''text/html'', ''text/plain''} then Inl (Web_Blocked ''unsupported content type'')
             else (case extract_text lib content content_type of (title, body) \<Rightarrow>
               Inr \<lparr>wo_url = url, wo_final_url = final_url, wo_content_type = content_type, wo_title = title,
                    wo_text = py_first_n (wr_max_chars cfg) body, wo_truncated = (stopped \<or> ilen body > wr_max_chars cfg)\<rparr>))), urls))))"

datatype web_read_reply = Web_Ok web_read_result | Web_Reply int string | Web_Raised string string

definition read_web_page :: "web_library \<Rightarrow> web_read_settings \<Rightarrow> web \<Rightarrow> string \<Rightarrow> web_read_reply" where
  "read_web_page lib cfg web url = (case fst (read_url lib cfg web url) of
     Inr r \<Rightarrow> Web_Ok r
   | Inl (Web_Blocked m) \<Rightarrow> Web_Reply 403 m
   | Inl (Web_Fetch m) \<Rightarrow> Web_Reply 502 m
   | Inl (Web_Other n m) \<Rightarrow> Web_Raised n m)"

section \<open>What is returned\<close>

definition host_allowed :: "web_library \<Rightarrow> web_read_settings \<Rightarrow> string \<Rightarrow> bool" where
  "host_allowed lib cfg url \<longleftrightarrow> (\<exists>scheme netloc. urlparse lib url = Inr (scheme, netloc)
     \<and> (py_lower scheme = ''https'' \<or> py_lower scheme = ''http'' \<and> wr_allow_http cfg)
     \<and> (\<exists>domain\<in>set (wr_allowed_domains cfg). py_lower (hostname_of netloc) = domain
          \<or> py_endswith (py_lower (hostname_of netloc)) (''.'' @ domain)))"

lemma validate_url_allowed: "validate_url lib cfg url = Inr u \<Longrightarrow> host_allowed lib cfg url"
  by (auto simp: validate_url_def host_allowed_def is_allowed_host_def list_ex_iff bind_result_Inr_iff Let_def split: if_splits)

lemma follow_requests:
  "follow n web url = (r, urls) \<Longrightarrow> urls \<noteq> [] \<and> hd urls = url \<and> length urls \<le> Suc n \<and> (\<forall>u p. r = Inr (u, p) \<longrightarrow> last urls = u)
     \<and> (\<forall>i. Suc i < length urls \<longrightarrow> web (urls ! i) = Inr (Redirect_To (urls ! Suc i)))"
proof (induction n arbitrary: url r urls)
  case 0
  then show ?case by (auto split: sum.splits web_answer.splits)
next
  case (Suc n)
  show ?case
  proof (cases "\<exists>target. web url = Inr (Redirect_To target)")
    case True
    then obtain target where t: "web url = Inr (Redirect_To target)" by blast
    obtain us where us: "follow n web target = (r, us)" "urls = url # us"
      using Suc.prems t by (cases "follow n web target") auto
    then show ?thesis using Suc.IH[OF us(1)] t by (auto simp: nth_Cons hd_conv_nth split: nat.split)
  next
    case False
    then show ?thesis using Suc.prems by (auto split: sum.splits web_answer.splits)
  qed
qed

lemma read_chunks_bounded:
  "ilen content \<le> max_bytes \<Longrightarrow> read_chunks max_bytes content chunks = (kept, stopped) \<Longrightarrow>
     ilen kept \<le> max_bytes \<and> prefix kept (content @ concat chunks) \<and> (\<not> stopped \<longrightarrow> kept = content @ concat chunks)"
proof (induction max_bytes content chunks rule: read_chunks.induct)
  case (2 max_bytes content chunk chunks)
  show ?case
  proof (cases "max_bytes - ilen content \<le> 0 \<or> ilen chunk > max_bytes - ilen content")
    case True
    have "prefix (py_first_n (max_bytes - ilen content) chunk) (chunk @ concat chunks)"
      by (rule prefix_prefix) (rule py_first_n_prefix)
    then show ?thesis using "2.prems" True by (auto simp: Let_def ilen_py_first_n split: if_splits)
  next
    case False
    then show ?thesis using 2 by (auto simp: Let_def)
  qed
qed auto

lemma follow_page: "follow n web url = (Inr (u, p), urls) \<Longrightarrow> web u = Inr (Page p) \<and> last urls = u"
proof (induction n arbitrary: url urls)
  case 0
  then show ?case by (auto split: sum.splits web_answer.splits)
next
  case (Suc n)
  have "follow n web target = (r, us) \<Longrightarrow> us \<noteq> []" for target r us using follow_requests by blast
  with Suc show ?case by (fastforce split: sum.splits web_answer.splits prod.splits)
qed

lemma snd_fetch: "snd (fetch cfg web url) = snd (follow max_redirects web url)"
  by (auto simp: fetch_def split: prod.split sum.split)

lemma fetch_success:
  assumes "fetch cfg web url = (Inr (content, final_url, content_type, stopped), urls)" and "0 \<le> wr_max_bytes cfg"
  shows "\<exists>page. web final_url = Inr (Page page) \<and> last urls = final_url \<and> (\<not> stopped \<longrightarrow> content = concat (wp_chunks page))"
proof -
  obtain u page where f: "follow max_redirects web url = (Inr (u, page), urls)"
    and c: "read_chunks (wr_max_bytes cfg) [] (wp_chunks page) = (content, stopped)" and u: "u = final_url"
    using assms(1) by (auto simp: fetch_def split: prod.splits sum.splits if_splits option.splits bool.splits)
  show ?thesis
    using follow_page[OF f] read_chunks_bounded[OF _ c] assms(2) u by auto
qed

lemma redirect_requested:
  assumes "follow max_redirects web url = (r, urls)" and "web url = Inr (Redirect_To target)"
  shows "target \<in> set urls"
proof -
  obtain n where m: "max_redirects = Suc n" by (simp add: max_redirects_def numeral_eq_Suc)
  obtain us where us: "follow n web target = (r, us)" "urls = url # us"
    using assms unfolding m by (cases "follow n web target") simp
  then show ?thesis using follow_requests[OF us(1)] by (cases us) auto
qed

lemma read_url_success:
  assumes "read_url lib cfg web url = (Inr out, requested)" and "0 \<le> wr_max_bytes cfg" "0 \<le> wr_max_chars cfg"
  shows "wr_enabled cfg \<and> wo_url out = url \<and> host_allowed lib cfg url \<and> host_allowed lib cfg (wo_final_url out)
       \<and> wo_content_type out \<in> {''text/html'', ''text/plain''} \<and> ilen (wo_text out) \<le> wr_max_chars cfg
       \<and> last requested = wo_final_url out
       \<and> (\<exists>page. web (wo_final_url out) = Inr (Page page)
            \<and> (\<not> wo_truncated out \<longrightarrow> wo_text out = snd (extract_text lib (concat (wp_chunks page)) (wo_content_type out))))"
proof -
  obtain u content stopped where ok: "wr_enabled cfg" "validate_url lib cfg url = Inr u"
    and f: "fetch cfg web url = (Inr (content, wo_final_url out, wo_content_type out, stopped), requested)"
    and v: "\<exists>w. validate_url lib cfg (wo_final_url out) = Inr w"
    and t: "wo_content_type out \<in> {''text/html'', ''text/plain''}" "wo_url out = url"
      "wo_text out = py_first_n (wr_max_chars cfg) (snd (extract_text lib content (wo_content_type out)))"
      "wo_truncated out = (stopped \<or> ilen (snd (extract_text lib content (wo_content_type out))) > wr_max_chars cfg)"
    using assms(1) by (auto simp: read_url_def bind_result_Inr_iff split: if_splits sum.splits prod.splits)
  obtain page where page: "web (wo_final_url out) = Inr (Page page)" "last requested = wo_final_url out"
    "\<not> stopped \<longrightarrow> content = concat (wp_chunks page)" using fetch_success[OF f assms(2)] by blast
  have "wo_text out = snd (extract_text lib (concat (wp_chunks page)) (wo_content_type out))" if "\<not> wo_truncated out"
    using that t(3,4) page(3) assms(3) by (simp add: py_first_n_def ilen_def nat_le_iff le_nat_iff)
  then show ?thesis
    using ok t v page validate_url_allowed ilen_py_first_n[OF assms(3), of "snd (extract_text lib content (wo_content_type out))"]
    by (auto simp: min_def)
qed

lemma read_url_requests:
  assumes "read_url lib cfg web url = (r, requested)"
  shows "requested = [] \<or> wr_enabled cfg \<and> host_allowed lib cfg url \<and> requested = snd (follow max_redirects web url)"
  using assms validate_url_allowed snd_fetch[of cfg web url]
  by (auto simp: read_url_def split: if_splits sum.splits prod.splits)

section \<open>Properties\<close>


text \<open>A page of an allowed host that redirects into another network.\<close>

definition plain_library :: web_library where
  "plain_library = \<lparr>wl_netloc_rejected = (\<lambda>_. False), wl_decode = (\<lambda>s. s), wl_unescape = (\<lambda>s. s), wl_html_events = (\<lambda>s. [Text_Data s])\<rparr>"

definition example_web_settings :: web_read_settings where
  "example_web_settings = \<lparr>wr_enabled = True, wr_allow_http = False, wr_allowed_domains = [''a.org''], wr_max_bytes = 100, wr_max_chars = 50\<rparr>"

definition redirecting_web :: web where
  "redirecting_web url = (if url = ''https://docs.a.org/'' then Inr (Redirect_To ''http://10.0.0.1/admin'')
     else Inr (Page \<lparr>wp_status = 200, wp_content_type = ''text/plain'', wp_chunks = [''private''], wp_failure = None\<rparr>))"


end
