(* ===== verification/Notion_Read.thy ===== *)
theory Notion_Read imports Domain_Types Json_Values begin

text \<open>
  Reading page metadata from Notion: the MCP client with its life cycle
  (\<open>app/services/notion_read_client.py\<close>), the service with the allowlist and the sanitizer
  (\<open>app/services/notion_read.py\<close>), the route (\<open>app/api/routes/notion_read.py\<close>) and the start and stop
  of the application around them (\<open>app/main.py\<close>). The MCP SDK is a parameter: which step of a start
  fails, and what a tool call answers. The log keeps what was done to the subprocess and the session. The
  texts of exceptions that reach no reply are shortened. The lemmas follow both through any run of starts,
  stops and requests.
\<close>

section \<open>The environment of the subprocess\<close>

definition clean_id :: "string \<Rightarrow> string" where
  "clean_id v = remove_char (CHR ''-'') (py_strip v)"

definition normalize_csv_ids :: "string list \<Rightarrow> string" where
  "normalize_csv_ids values' = py_join '','' (map clean_id (filter (\<lambda>v. py_strip v \<noteq> []) values'))"

datatype id_setting = Id_None | Id_Text string | Id_List "string list"

definition normalize_env_ids :: "(json \<Rightarrow> string) \<Rightarrow> id_setting \<Rightarrow> string" where
  "normalize_env_ids odd_str value = (case value of
     Id_None \<Rightarrow> []
   | Id_List vs \<Rightarrow> normalize_csv_ids vs
   | Id_Text s \<Rightarrow>
       (let raw_value = py_strip s in
        if raw_value = [] then []
        else (case (if py_startswith raw_value ''['' then json_loads raw_value else None) of
            Some (JArr xs) \<Rightarrow> normalize_csv_ids (map (py_str odd_str) xs)
          | _ \<Rightarrow> normalize_csv_ids (py_split (CHR '','') raw_value))))"

definition child_env ::
    "(json \<Rightarrow> string) \<Rightarrow> (string \<Rightarrow> string option) \<Rightarrow> string list \<Rightarrow> string list option \<Rightarrow> bool \<Rightarrow> string \<Rightarrow> string option" where
  "child_env odd_str host_env allowed_page_ids allowed_database_ids enable_write =
     (let env1 = (if host_env ''NOTION_API_TOKEN'' = None \<and> host_env ''NOTION_API_KEY'' \<noteq> None
          then host_env(''NOTION_API_TOKEN'' := host_env ''NOTION_API_KEY'') else host_env)
      in env1(''NOTION_ALLOWED_PAGE_IDS'' \<mapsto> normalize_csv_ids allowed_page_ids,
              ''NOTION_ALLOWED_DATABASE_IDS'' \<mapsto> normalize_env_ids odd_str (case allowed_database_ids of
                 Some ids \<Rightarrow> Id_List ids
               | None \<Rightarrow> (case host_env ''NOTION_ALLOWED_DATABASE_IDS'' of Some s \<Rightarrow> Id_Text s | None \<Rightarrow> Id_None)),
              ''NOTION_ENABLE_WRITE'' \<mapsto> (if enable_write then ''true'' else ''false'')))"

section \<open>The client\<close>

datatype mcp_exn = Mcp_Timeout string | Mcp_Protocol string | Mcp_Execution string

text \<open>What is done to the outside: entering and leaving the two contexts, with whether entering worked, the
  handshake and the tool calls.\<close>

datatype mcp_event =
  Enter_Subprocess bool | Leave_Subprocess | Enter_Session bool | Leave_Session | Handshake bool
| Tool_Call string string

record mcp_client =
  mc_stdio_cm :: bool
  mc_session_cm :: bool
  mc_session :: bool
  mc_started :: bool

definition new_client :: mcp_client where
  "new_client = \<lparr>mc_stdio_cm = False, mc_session_cm = False, mc_session = False, mc_started = False\<rparr>"

text \<open>The step of a start that fails, with the text of its exception.\<close>

datatype start_outcome = Start_Works | Spawn_Fails string | Session_Fails string | Handshake_Fails string

definition start_failure :: "string \<Rightarrow> mcp_exn" where
  "start_failure e = Mcp_Protocol (''Failed to start MCP subprocess: '' @ e)"

definition mcp_start :: "start_outcome \<Rightarrow> mcp_client \<Rightarrow> (mcp_exn, unit) result \<times> mcp_client \<times> mcp_event list" where
  "mcp_start outcome c =
     (if mc_started c then (Inr (), c, [])
      else (case outcome of
        Start_Works \<Rightarrow> (Inr (), \<lparr>mc_stdio_cm = True, mc_session_cm = True, mc_session = True, mc_started = True\<rparr>,
          [Enter_Subprocess True, Enter_Session True, Handshake True])
      | Spawn_Fails e \<Rightarrow> (Inl (start_failure e), new_client,
          [Enter_Subprocess False] @ (if mc_session_cm c then [Leave_Session] else []) @ [Leave_Subprocess])
      | Session_Fails e \<Rightarrow> (Inl (start_failure e), new_client,
          [Enter_Subprocess True, Enter_Session False, Leave_Session, Leave_Subprocess])
      | Handshake_Fails e \<Rightarrow> (Inl (start_failure e), new_client,
          [Enter_Subprocess True, Enter_Session True, Handshake False, Leave_Session, Leave_Subprocess])))"

definition mcp_stop :: "mcp_client \<Rightarrow> mcp_client \<times> mcp_event list" where
  "mcp_stop c =
     (if \<not> mc_started c then (c, [])
      else (new_client, (if mc_session_cm c then [Leave_Session] else []) @ (if mc_stdio_cm c then [Leave_Subprocess] else [])))"

text \<open>What a tool call answers: the typed blocks of its result, or an exception.\<close>

datatype tool_answer = Tool_Blocks "(string \<times> string) list" | Tool_Timeout | Tool_Raises string

definition page_of_blocks :: "(string \<times> string) list \<Rightarrow> (mcp_exn, (string \<times> json) list) result" where
  "page_of_blocks blocks = (case find (\<lambda>(kind, s). kind = ''text'') blocks of
     None \<Rightarrow> Inl (Mcp_Execution ''Empty or invalid MCP response'')
   | Some (_, s) \<Rightarrow> (case json_loads s of
       None \<Rightarrow> Inl (Mcp_Execution ''Invalid JSON response from MCP'')
     | Some (JObj kvs) \<Rightarrow> Inr kvs
     | Some _ \<Rightarrow> Inl (Mcp_Execution ''MCP error: no attribute keys'')))"

definition classify_failure :: "string \<Rightarrow> mcp_exn" where
  "classify_failure e = (let msg = py_lower e in
     if sublist ''protocol'' msg \<or> sublist ''subprocess'' msg then Mcp_Protocol e else Mcp_Execution (''MCP error: '' @ e))"

definition mcp_get_page ::
    "tool_answer \<Rightarrow> string \<Rightarrow> mcp_client \<Rightarrow> (mcp_exn, (string \<times> json) list) result \<times> mcp_event list" where
  "mcp_get_page answer page_id c =
     (if \<not> mc_started c \<or> \<not> mc_session c then (Inl (Mcp_Protocol ''MCP client not started''), [])
      else (case answer of
          Tool_Timeout \<Rightarrow> Inl (Mcp_Timeout ''MCP request timeout'')
        | Tool_Raises e \<Rightarrow> Inl (classify_failure e)
        | Tool_Blocks blocks \<Rightarrow> page_of_blocks blocks, [Tool_Call ''notion_get_page'' page_id]))"

definition mcp_health :: "mcp_client \<Rightarrow> string \<times> bool" where
  "mcp_health c = (if \<not> mc_started c then (''not_started'', False) else (''ready'', True))"

section \<open>The service\<close>

datatype read_exn = Read_Blocked string | Read_Mcp mcp_exn

definition page_allowed :: "string list \<Rightarrow> string \<Rightarrow> bool" where
  "page_allowed allowed page_id = (allowed \<noteq> [] \<and> clean_id page_id \<in> set (map clean_id allowed))"

definition metadata_fields :: "string list" where
  "metadata_fields = [''page_id'', ''title'', ''url'', ''created_time'', ''last_edited_time'']"

definition sanitize_response :: "(string \<times> json) list \<Rightarrow> (string \<times> json) list" where
  "sanitize_response raw = concat (map (\<lambda>f. case map_of raw f of Some v \<Rightarrow> [(f, v)] | None \<Rightarrow> []) metadata_fields)"

definition service_get_page ::
    "string list \<Rightarrow> tool_answer \<Rightarrow> string \<Rightarrow> mcp_client \<Rightarrow> (read_exn, (string \<times> json) list) result \<times> mcp_event list" where
  "service_get_page allowed answer page_id c =
     (if \<not> page_allowed allowed page_id then (Inl (Read_Blocked (''Page ID not in allowlist: '' @ clean_id page_id)), [])
      else (case mcp_get_page answer page_id c of
          (Inl e, events) \<Rightarrow> (Inl (Read_Mcp e), events)
        | (Inr raw, events) \<Rightarrow> (Inr (sanitize_response raw), events)))"

section \<open>The route\<close>

record page_out =
  po_page_id :: string
  po_title :: "string option"
  po_url :: string
  po_created_time :: "string option"
  po_last_edited_time :: "string option"

datatype page_reply = Page_Out page_out | Page_Status int string

definition optional_text :: "(string \<times> json) list \<Rightarrow> string \<Rightarrow> string option option" where
  "optional_text kvs k = (case map_of kvs k of
     None \<Rightarrow> Some None | Some JNull \<Rightarrow> Some None | Some (JStr s) \<Rightarrow> Some (Some s) | _ \<Rightarrow> None)"

text \<open>The response model: none when its validation fails.\<close>

definition page_out_of :: "string \<Rightarrow> (string \<times> json) list \<Rightarrow> page_out option" where
  "page_out_of page_id kvs = (case (optional_text kvs ''title'', map_of kvs ''url'', optional_text kvs ''created_time'',
       optional_text kvs ''last_edited_time'') of
     (Some title, Some (JStr url), Some created, Some edited) \<Rightarrow>
       Some \<lparr>po_page_id = page_id, po_title = title, po_url = url, po_created_time = created, po_last_edited_time = edited\<rparr>
   | _ \<Rightarrow> None)"

definition failure_reply :: "read_exn \<Rightarrow> page_reply" where
  "failure_reply e = (case e of
     Read_Blocked _ \<Rightarrow> Page_Status 403 ''Access denied: page not in allowlist''
   | Read_Mcp (Mcp_Timeout _) \<Rightarrow> Page_Status 504 ''Notion Read service timeout''
   | Read_Mcp (Mcp_Protocol _) \<Rightarrow> Page_Status 502 ''Notion Read service error (protocol)''
   | Read_Mcp (Mcp_Execution _) \<Rightarrow> Page_Status 502 ''Notion API error'')"

text \<open>\<open>service\<close>: the client of the application's service, if the start made one.\<close>

definition get_notion_page :: "string list \<Rightarrow> tool_answer \<Rightarrow> string \<Rightarrow> mcp_client option \<Rightarrow> page_reply \<times> mcp_event list" where
  "get_notion_page allowed answer page_id service = (case service of
     None \<Rightarrow> (Page_Status 503 ''Notion Read service unavailable'', [])
   | Some c \<Rightarrow> (case service_get_page allowed answer page_id c of
       (Inl e, events) \<Rightarrow> (failure_reply e, events)
     | (Inr kvs, events) \<Rightarrow> ((case page_out_of page_id kvs of Some out \<Rightarrow> Page_Out out | None \<Rightarrow> Page_Status 500 ''Internal error''), events)))"

section \<open>The application\<close>

text \<open>Its start makes a client and keeps it as the service when it started; its end stops it.\<close>

definition app_start :: "bool \<Rightarrow> start_outcome \<Rightarrow> mcp_client option \<times> mcp_event list" where
  "app_start enabled outcome =
     (if \<not> enabled then (None, [])
      else (case mcp_start outcome new_client of
          (Inr _, c, events) \<Rightarrow> (Some c, events) | (Inl _, c, events) \<Rightarrow> (None, events)))"

definition app_stop :: "mcp_client option \<Rightarrow> mcp_event list" where
  "app_stop service = (case service of None \<Rightarrow> [] | Some c \<Rightarrow> snd (mcp_stop c))"

section \<open>Runs\<close>

text \<open>The subprocess and the session as the log leaves them.\<close>

fun world :: "bool \<times> bool \<Rightarrow> mcp_event list \<Rightarrow> bool \<times> bool" where
  "world w [] = w"
| "world (p, q) (Enter_Subprocess ok # es) = world (p \<or> ok, q) es"
| "world (p, q) (Leave_Subprocess # es) = world (False, q) es"
| "world (p, q) (Enter_Session ok # es) = world (p, q \<or> ok) es"
| "world (p, q) (Leave_Session # es) = world (p, False) es"
| "world w (Handshake ok # es) = world w es"
| "world w (Tool_Call t i # es) = world w es"

text \<open>Starts, stops and requests in any order.\<close>

inductive notion_run :: "string list \<Rightarrow> mcp_client \<Rightarrow> mcp_event list \<Rightarrow> bool" for allowed where
  created: "notion_run allowed new_client []"
| started: "notion_run allowed c es \<Longrightarrow> mcp_start outcome c = (r, c', new) \<Longrightarrow> notion_run allowed c' (es @ new)"
| stopped: "notion_run allowed c es \<Longrightarrow> mcp_stop c = (c', new) \<Longrightarrow> notion_run allowed c' (es @ new)"
| asked: "notion_run allowed c es \<Longrightarrow> get_notion_page allowed answer page_id (Some c) = (reply, new) \<Longrightarrow> notion_run allowed c (es @ new)"

definition open_client :: mcp_client where
  "open_client = \<lparr>mc_stdio_cm = True, mc_session_cm = True, mc_session = True, mc_started = True\<rparr>"

definition calls_ok :: "string list \<Rightarrow> mcp_event list \<Rightarrow> bool" where
  "calls_ok allowed es \<longleftrightarrow> (\<forall>pre tool page_id post. es = pre @ Tool_Call tool page_id # post \<longrightarrow>
     tool = ''notion_get_page'' \<and> page_allowed allowed page_id \<and> world (False, False) pre = (True, True))"

lemma world_append [simp]: "world w (es @ fs) = world (world w es) fs"
  by (induction w es rule: world.induct) auto

lemma calls_ok_Nil [simp]: "calls_ok allowed []"
  by (simp add: calls_ok_def)

lemma calls_ok_append:
  assumes "calls_ok allowed es" and "\<And>e. e \<in> set new \<Longrightarrow> \<not> (\<exists>t i. e = Tool_Call t i)"
  shows "calls_ok allowed (es @ new)"
  unfolding calls_ok_def
proof (intro allI impI)
  fix pre tool page_id post
  assume split: "es @ new = pre @ Tool_Call tool page_id # post"
  then obtain us where "es = pre @ us \<and> us @ new = Tool_Call tool page_id # post \<or> es @ us = pre \<and> new = us @ Tool_Call tool page_id # post"
    by (auto simp: append_eq_append_conv2)
  then show "tool = ''notion_get_page'' \<and> page_allowed allowed page_id \<and> world (False, False) pre = (True, True)"
  proof
    assume a: "es = pre @ us \<and> us @ new = Tool_Call tool page_id # post"
    have "us \<noteq> []" using a assms(2)[of "Tool_Call tool page_id"] by auto
    then have "es = pre @ Tool_Call tool page_id # tl us" using a by (cases us) auto
    then show ?thesis using assms(1) unfolding calls_ok_def by blast
  next
    assume "es @ us = pre \<and> new = us @ Tool_Call tool page_id # post"
    then show ?thesis using assms(2)[of "Tool_Call tool page_id"] by auto
  qed
qed

lemma calls_ok_call:
  assumes "calls_ok allowed es" and "page_allowed allowed page_id" and "world (False, False) es = (True, True)"
  shows "calls_ok allowed (es @ [Tool_Call ''notion_get_page'' page_id])"
  unfolding calls_ok_def
proof (intro allI impI)
  fix pre tool pid post
  assume split: "es @ [Tool_Call ''notion_get_page'' page_id] = pre @ Tool_Call tool pid # post"
  show "tool = ''notion_get_page'' \<and> page_allowed allowed pid \<and> world (False, False) pre = (True, True)"
  proof (cases post rule: rev_cases)
    case Nil
    then show ?thesis using split assms by auto
  next
    case (snoc ps q)
    then have "es = pre @ Tool_Call tool pid # ps" using split by auto
    then show ?thesis using assms(1) unfolding calls_ok_def by blast
  qed
qed

lemma get_notion_page_cases:
  assumes "get_notion_page allowed answer page_id (Some c) = (reply, new)"
  obtains "new = []" "\<And>out. reply \<noteq> Page_Out out"
  | "page_allowed allowed page_id" "mc_started c" "new = [Tool_Call ''notion_get_page'' page_id]"
proof -
  have "new = [] \<and> (\<forall>out. reply \<noteq> Page_Out out) \<or> page_allowed allowed page_id \<and> mc_started c \<and> new = [Tool_Call ''notion_get_page'' page_id]"
    using assms by (auto simp: get_notion_page_def service_get_page_def mcp_get_page_def failure_reply_def split: if_splits sum.splits prod.splits)
  then show thesis using that by blast
qed

lemma client_world:
  "mcp_start outcome new_client = (r, c', new) \<Longrightarrow> (c' = new_client \<and> world (False, False) new = (False, False) \<or> c' = open_client \<and> world (False, False) new = (True, True))
     \<and> (\<forall>e\<in>set new. \<not> (\<exists>t i. e = Tool_Call t i))"
  by (auto simp: mcp_start_def new_client_def open_client_def split: start_outcome.splits)

lemma notion_run_inv:
  "notion_run allowed c es \<Longrightarrow> (c = new_client \<and> world (False, False) es = (False, False) \<or> c = open_client \<and> world (False, False) es = (True, True))
     \<and> calls_ok allowed es"
proof (induction rule: notion_run.induct)
  case created
  then show ?case by simp
next
  case (started c es outcome r c' new)
  show ?case
  proof (cases "c = new_client")
    case True
    then have "world (False, False) es = (False, False)" "calls_ok allowed es" using started.IH by (auto simp: new_client_def open_client_def)
    then show ?thesis using client_world[of outcome r c' new] started.hyps True calls_ok_append[of allowed es new] by auto
  next
    case False
    then have "c = open_client" using started.IH by blast
    then have "c' = c" "new = []" using started.hyps by (simp_all add: mcp_start_def open_client_def)
    then show ?thesis using started.IH by simp
  qed
next
  case (stopped c es c' new)
  then show ?case
    by (auto simp: mcp_stop_def new_client_def open_client_def intro!: calls_ok_append)
next
  case (asked c es answer page_id reply new)
  from asked.hyps(2) show ?case
  proof (cases rule: get_notion_page_cases)
    case 1
    then show ?thesis using asked.IH by simp
  next
    case 2
    then have "c = open_client" "world (False, False) es = (True, True)" using asked.IH by (auto simp: new_client_def)
    then show ?thesis using 2 asked.IH calls_ok_call[of allowed es page_id] by simp
  qed
qed

lemma sanitize_cong: "(\<And>f. f \<in> set metadata_fields \<Longrightarrow> map_of raw f = map_of raw' f) \<Longrightarrow> sanitize_response raw = sanitize_response raw'"
  unfolding sanitize_response_def by (rule arg_cong[where f = concat]) (rule map_cong, simp_all)

lemma get_page_same_metadata:
  assumes "json_loads s = Some (JObj kvs)" "json_loads s' = Some (JObj kvs')"
    and "\<And>f. f \<in> set metadata_fields \<Longrightarrow> map_of kvs f = map_of kvs' f"
  shows "get_notion_page allowed (Tool_Blocks [(''text'', s)]) page_id service = get_notion_page allowed (Tool_Blocks [(''text'', s')]) page_id service"
proof -
  have "sanitize_response kvs = sanitize_response kvs'" by (rule sanitize_cong) (rule assms(3))
  then show ?thesis
    using assms(1,2) by (simp add: get_notion_page_def service_get_page_def mcp_get_page_def page_of_blocks_def split: option.split)
qed

section \<open>Properties\<close>


text \<open>A page read from a started client.\<close>

definition example_page :: string where
  "example_page = json_dumps True (JObj [(''title'', JStr ''T''), (''url'', JStr ''u''), (''text'', JStr ''body'')])"


end
