(* ===== verification/Vector_Store.thy ===== *)
theory Vector_Store imports Pipeline Complex_Main "HOL-Library.Multiset" "HOL-Library.Product_Lexorder" begin

text \<open>
  The chunk table behind the vector store (\<open>app/core/providers/pgvector_store.py\<close>, \<open>app/models/chunk.py\<close>,
  \<open>app/models/document.py\<close>) as the session of one tenant sees it: row-level security shows and accepts the
  rows of the session's tenant only. The cosine distance and the full-text match and rank of the database are
  parameters, with values in the rationals; a search is the fusion of the two rankings. The lemmas show
  that its answer is a function of the tenant's rows alone and what it holds.
\<close>

section \<open>Rows\<close>

record document_row =
  dr_id :: uuid
  dr_tenant :: string
  dr_source_path :: string
  dr_content_hash :: string
  dr_doc_type :: string
  dr_indexing_mode :: string

record 'v chunk_row =
  ck_id :: uuid
  ck_document :: uuid
  ck_tenant :: string
  ck_ordinal :: int
  ck_text :: string
  ck_context :: "string option"
  ck_embedding :: 'v
  ck_search_text :: string
  ck_metadata :: "json option"

record 'v chunk_upsert =
  cu_document :: uuid
  cu_tenant :: string
  cu_ordinal :: int
  cu_text :: string
  cu_embedding :: 'v
  cu_search_text :: string
  cu_context :: "string option"
  cu_metadata :: "json option"

definition visible_chunks :: "string \<Rightarrow> 'v chunk_row list \<Rightarrow> 'v chunk_row list" where
  "visible_chunks tenant rows = filter (\<lambda>r. ck_tenant r = tenant) rows"

section \<open>Upsert\<close>

definition db_error :: "string \<Rightarrow> exn" where
  "db_error m = Other_Error ''ProgrammingError'' m"

definition inserted_row :: "uuid \<Rightarrow> 'v chunk_upsert \<Rightarrow> 'v chunk_row" where
  "inserted_row new_id u = \<lparr>ck_id = new_id, ck_document = cu_document u, ck_tenant = cu_tenant u, ck_ordinal = cu_ordinal u,
     ck_text = cu_text u, ck_context = cu_context u, ck_embedding = cu_embedding u, ck_search_text = cu_search_text u,
     ck_metadata = cu_metadata u\<rparr>"

definition updated_row :: "'v chunk_upsert \<Rightarrow> 'v chunk_row \<Rightarrow> 'v chunk_row" where
  "updated_row u r = r\<lparr>ck_text := cu_text u, ck_context := cu_context u, ck_embedding := cu_embedding u,
     ck_search_text := cu_search_text u, ck_metadata := cu_metadata u\<rparr>"

text \<open>One row: the policy refuses another tenant's row, written or in conflict.\<close>

definition upsert_chunk :: "string \<Rightarrow> uuid \<Rightarrow> 'v chunk_upsert \<Rightarrow> 'v chunk_row list \<Rightarrow> (exn, 'v chunk_row list) result" where
  "upsert_chunk tenant new_id u rows =
     (if cu_tenant u \<noteq> tenant then Inl (db_error ''new row violates row-level security policy'')
      else (case find (\<lambda>r. ck_document r = cu_document u \<and> ck_ordinal r = cu_ordinal u) rows of
        None \<Rightarrow> Inr (rows @ [inserted_row new_id u])
      | Some r \<Rightarrow>
          if ck_tenant r \<noteq> tenant then Inl (db_error ''new row violates row-level security policy'')
          else Inr (map (\<lambda>r. if ck_document r = cu_document u \<and> ck_ordinal r = cu_ordinal u then updated_row u r else r) rows)))"

fun upsert_chunks :: "string \<Rightarrow> uuid \<Rightarrow> 'v chunk_upsert list \<Rightarrow> 'v chunk_row list \<Rightarrow> (exn, 'v chunk_row list) result" where
  "upsert_chunks tenant new_id [] rows = Inr rows"
| "upsert_chunks tenant new_id (u # us) rows =
     bind_result (upsert_chunk tenant new_id u rows) (upsert_chunks tenant (Suc new_id) us)"

section \<open>Hybrid search\<close>

record 'v search_library =
  se_distance :: "'v \<Rightarrow> 'v \<Rightarrow> rat"
  se_matches :: "string \<Rightarrow> string \<Rightarrow> bool"
  se_ts_rank :: "string \<Rightarrow> string \<Rightarrow> rat"

definition rrf_k :: nat where
  "rrf_k = 60"

definition semantic_leg :: "'v search_library \<Rightarrow> 'v \<Rightarrow> nat \<Rightarrow> 'v chunk_row list \<Rightarrow> 'v chunk_row list" where
  "semantic_leg lib query_embedding top_k rows =
     take top_k (sort_key (\<lambda>r. (se_distance lib (ck_embedding r) query_embedding, ck_id r)) rows)"

definition keyword_leg :: "'v search_library \<Rightarrow> string \<Rightarrow> nat \<Rightarrow> 'v chunk_row list \<Rightarrow> 'v chunk_row list" where
  "keyword_leg lib query_text top_k rows =
     take top_k (sort_key (\<lambda>r. (- se_ts_rank lib (ck_search_text r) query_text, ck_id r))
       (filter (\<lambda>r. se_matches lib (ck_search_text r) query_text) rows))"

text \<open>\<open>row_number()\<close> counts from one; a row outside the leg adds nothing.\<close>

definition leg_score :: "'v chunk_row list \<Rightarrow> uuid \<Rightarrow> rat" where
  "leg_score leg i = (case find (\<lambda>n. ck_id (leg ! n) = i) [0..<length leg] of
     None \<Rightarrow> 0 | Some n \<Rightarrow> 1 / of_nat (rrf_k + Suc n))"

definition fused_rows :: "'v chunk_row list \<Rightarrow> 'v chunk_row list \<Rightarrow> 'v chunk_row list" where
  "fused_rows semantic keyword = semantic @ filter (\<lambda>r. ck_id r \<notin> set (map ck_id semantic)) keyword"

definition rrf_score :: "'v chunk_row list \<Rightarrow> 'v chunk_row list \<Rightarrow> 'v chunk_row \<Rightarrow> rat" where
  "rrf_score semantic keyword r = leg_score semantic (ck_id r) + leg_score keyword (ck_id r)"

record scored_chunk = retrieved_chunk +
  sc_score :: rat
  sc_metadata :: "json option"

definition scored_of :: "rat \<Rightarrow> 'v chunk_row \<Rightarrow> scored_chunk" where
  "scored_of s r = \<lparr>rc_chunk_id = ck_id r, rc_document_id = ck_document r, rc_text = ck_text r, sc_score = s, sc_metadata = ck_metadata r\<rparr>"

definition hybrid_search ::
    "'v search_library \<Rightarrow> string \<Rightarrow> string \<Rightarrow> 'v \<Rightarrow> nat \<Rightarrow> 'v chunk_row list \<Rightarrow> scored_chunk list" where
  "hybrid_search lib tenant query_text query_embedding top_k table =
     (let rows = visible_chunks tenant table;
          semantic = semantic_leg lib query_embedding top_k rows;
          keyword = keyword_leg lib query_text top_k rows
      in map (\<lambda>r. scored_of (rrf_score semantic keyword r) r)
           (take top_k (sort_key (\<lambda>r. (- rrf_score semantic keyword r, ck_id r)) (fused_rows semantic keyword))))"

text \<open>The port of the retrieval pipeline, over the session's table.\<close>

definition search_port ::
    "'v search_library \<Rightarrow> string \<Rightarrow> 'v chunk_row list \<Rightarrow> string \<Rightarrow> 'v \<Rightarrow> int \<Rightarrow> (exn, retrieved_chunk list) result" where
  "search_port lib tenant table query_text query_embedding top_k =
     (if top_k < 0 then Inl (db_error ''LIMIT must not be negative'')
      else Inr (map retrieved_chunk.truncate (hybrid_search lib tenant query_text query_embedding (nat top_k) table)))"

section \<open>Facts about the search\<close>

lemma sort_key_permutation:
  assumes "mset xs = mset ys" and "inj_on k (set xs)"
  shows "sort_key k xs = sort_key k ys"
  by (rule sort_key_inj_key_eq) (use assms in simp_all)

lemma ids_inj: "distinct (map ck_id rows) \<Longrightarrow> inj_on (\<lambda>r. (f r, ck_id r)) (set rows)"
  by (auto simp: distinct_map inj_on_def)

lemma distinct_ids_mset: "mset xs = mset ys \<Longrightarrow> distinct (map ck_id xs) \<Longrightarrow> distinct (map ck_id ys)"
  by (metis mset_eq_imp_distinct_iff mset_map)

lemma distinct_ids_sort: "distinct (map ck_id (sort_key k rows)) = distinct (map ck_id rows)"
  by (metis distinct_ids_mset mset_sort)

lemma distinct_ids_filter: "distinct (map ck_id rows) \<Longrightarrow> distinct (map ck_id (filter P rows))"
  by (simp add: distinct_map_filter)

lemma semantic_leg_cong:
  "mset rows = mset rows' \<Longrightarrow> distinct (map ck_id rows) \<Longrightarrow> semantic_leg lib v k rows = semantic_leg lib v k rows'"
  unfolding semantic_leg_def by (intro arg_cong[where f = "take k"] sort_key_permutation ids_inj)

lemma keyword_leg_cong:
  "mset rows = mset rows' \<Longrightarrow> distinct (map ck_id rows) \<Longrightarrow> keyword_leg lib q k rows = keyword_leg lib q k rows'"
  unfolding keyword_leg_def
  by (intro arg_cong[where f = "take k"] sort_key_permutation ids_inj distinct_ids_filter) simp_all

lemma hybrid_search_cong:
  assumes "mset (visible_chunks tenant table) = mset (visible_chunks tenant table')"
    and "distinct (map ck_id (visible_chunks tenant table))"
  shows "hybrid_search lib tenant q v k table = hybrid_search lib tenant q v k table'"
  unfolding hybrid_search_def Let_def semantic_leg_cong[OF assms] keyword_leg_cong[OF assms] ..

lemma leg_rows:
  "set (semantic_leg lib v k rows) \<subseteq> set rows" "set (keyword_leg lib q k rows) \<subseteq> set rows"
  by (auto simp: semantic_leg_def keyword_leg_def dest: in_set_takeD)

lemma leg_ids:
  "distinct (map ck_id rows) \<Longrightarrow> distinct (map ck_id (semantic_leg lib v k rows))"
  "distinct (map ck_id rows) \<Longrightarrow> distinct (map ck_id (keyword_leg lib q k rows))"
  by (simp_all add: semantic_leg_def keyword_leg_def distinct_ids_sort distinct_ids_filter flip: take_map)

lemma fused_ids: "distinct (map ck_id s) \<Longrightarrow> distinct (map ck_id w) \<Longrightarrow> distinct (map ck_id (fused_rows s w))"
  by (auto simp: fused_rows_def distinct_ids_filter image_iff)

lemma leg_score_bounds: "0 \<le> leg_score leg i \<and> leg_score leg i \<le> 1 / 61"
  by (auto simp: leg_score_def rrf_k_def field_simps split: option.split)

lemma leg_score_pos: "0 < leg_score leg i \<longleftrightarrow> i \<in> set (map ck_id leg)"
proof (cases "find (\<lambda>n. ck_id (leg ! n) = i) [0..<length leg]")
  case None
  moreover from None have "i \<notin> set (map ck_id leg)" by (auto simp: find_None_iff in_set_conv_nth)
  ultimately show ?thesis by (simp add: leg_score_def)
next
  case (Some n)
  then have "n < length leg \<and> ck_id (leg ! n) = i" by (auto simp: find_Some_iff)
  then show ?thesis using Some by (auto simp: leg_score_def)
qed

lemma fused_set: "set (map ck_id (fused_rows s w)) = set (map ck_id s) \<union> set (map ck_id w)"
  by (auto simp: fused_rows_def)

lemma take_sort_key_least:
  fixes key :: "'a \<Rightarrow> 'b :: linorder"
  assumes "x \<in> set (take n (sort_key key xs))" and "y \<in> set xs" and "y \<notin> set (take n (sort_key key xs))"
  shows "key x \<le> key y"
proof -
  have "y \<in> set (drop n (sort_key key xs))"
    using assms(2,3) by (metis Un_iff append_take_drop_id set_append set_sort)
  moreover have "sorted (map key (take n (sort_key key xs) @ drop n (sort_key key xs)))" by simp
  ultimately show ?thesis using assms(1) by (simp only: map_append sorted_append) auto
qed

lemma search_ids_chunks:
  "map rc_chunk_id (map retrieved_chunk.truncate cs) = map rc_chunk_id cs"
  by (simp add: retrieved_chunk.defs comp_def)

text \<open>The fused score of a row in the search of a tenant.\<close>

definition search_score :: "'v search_library \<Rightarrow> string \<Rightarrow> string \<Rightarrow> 'v \<Rightarrow> nat \<Rightarrow> 'v chunk_row list \<Rightarrow> 'v chunk_row \<Rightarrow> rat" where
  "search_score lib tenant q v k table = rrf_score (semantic_leg lib v k (visible_chunks tenant table))
     (keyword_leg lib q k (visible_chunks tenant table))"

definition searched_rows :: "'v search_library \<Rightarrow> string \<Rightarrow> string \<Rightarrow> 'v \<Rightarrow> nat \<Rightarrow> 'v chunk_row list \<Rightarrow> 'v chunk_row list" where
  "searched_rows lib tenant q v k table = fused_rows (semantic_leg lib v k (visible_chunks tenant table))
     (keyword_leg lib q k (visible_chunks tenant table))"

lemma hybrid_search_alt:
  "hybrid_search lib tenant q v k table = map (\<lambda>r. scored_of (search_score lib tenant q v k table r) r)
     (take k (sort_key (\<lambda>r. (- search_score lib tenant q v k table r, ck_id r)) (searched_rows lib tenant q v k table)))"
  by (simp add: hybrid_search_def search_score_def searched_rows_def Let_def)

lemma searched_rows_facts:
  assumes "distinct (map ck_id (visible_chunks tenant table))"
  shows "distinct (map ck_id (searched_rows lib tenant q v k table))"
    and "r \<in> set (searched_rows lib tenant q v k table) \<Longrightarrow> r \<in> set table \<and> ck_tenant r = tenant"
    and "ck_id r \<in> set (map ck_id (searched_rows lib tenant q v k table)) \<longleftrightarrow> 0 < search_score lib tenant q v k table r"
    and "0 \<le> search_score lib tenant q v k table r" "search_score lib tenant q v k table r \<le> 2 / 61"
proof -
  let ?rows = "visible_chunks tenant table"
  show "distinct (map ck_id (searched_rows lib tenant q v k table))"
    unfolding searched_rows_def by (intro fused_ids leg_ids assms)
  show "r \<in> set table \<and> ck_tenant r = tenant" if "r \<in> set (searched_rows lib tenant q v k table)"
  proof -
    have "r \<in> set ?rows" using that leg_rows by (fastforce simp: searched_rows_def fused_rows_def)
    then show ?thesis by (simp add: visible_chunks_def)
  qed
  have b: "0 \<le> leg_score s i" "leg_score s i \<le> 1 / 61" "i \<in> set (map ck_id s) \<longleftrightarrow> 0 < leg_score s i" for s :: "'a chunk_row list" and i
    using leg_score_bounds[of s i] leg_score_pos[of s i] by auto
  show "ck_id r \<in> set (map ck_id (searched_rows lib tenant q v k table)) \<longleftrightarrow> 0 < search_score lib tenant q v k table r"
    unfolding searched_rows_def fused_set search_score_def rrf_score_def Un_iff b(3)
    using b(1)[of "semantic_leg lib v k ?rows" "ck_id r"] b(1)[of "keyword_leg lib q k ?rows" "ck_id r"] by linarith
  show "0 \<le> search_score lib tenant q v k table r" "search_score lib tenant q v k table r \<le> 2 / 61"
    using b(1,2)[of "semantic_leg lib v k ?rows" "ck_id r"] b(1,2)[of "keyword_leg lib q k ?rows" "ck_id r"]
    by (auto simp: search_score_def rrf_score_def)
qed

lemma found_ids: "map rc_chunk_id (map (\<lambda>r. scored_of (f r) r) rs) = map ck_id rs"
  by (simp add: scored_of_def comp_def)

lemma sorted_take_key: "sorted (map key (take n (sort_key key xs)))"
  by (metis sorted_sort_key sorted_wrt_take take_map)

lemma search_least:
  assumes "distinct (map ck_id (visible_chunks tenant table))"
    and "c \<in> set (hybrid_search lib tenant q v k table)"
    and "r \<in> set (visible_chunks tenant table)" "ck_id r \<notin> set (map rc_chunk_id (hybrid_search lib tenant q v k table))"
  shows "search_score lib tenant q v k table r \<le> sc_score c"
proof -
  note facts = searched_rows_facts[OF assms(1), where lib = lib and q = q and v = v and k = k]
  let ?score = "search_score lib tenant q v k table"
  let ?top = "take k (sort_key (\<lambda>r. (- ?score r, ck_id r)) (searched_rows lib tenant q v k table))"
  obtain x where x: "x \<in> set ?top" "c = scored_of (?score x) x" using assms(2) unfolding hybrid_search_alt by auto
  have out: "ck_id r \<notin> set (map ck_id ?top)" using assms(4) unfolding hybrid_search_alt found_ids .
  show ?thesis
  proof (cases "0 < ?score r")
    case True
    then obtain y where y: "y \<in> set (searched_rows lib tenant q v k table)" "ck_id y = ck_id r" using facts(3)[of r] by force
    have "y \<notin> set ?top" using out y(2) unfolding set_map by (metis image_eqI)
    then have "(- ?score x, ck_id x) \<le> (- ?score y, ck_id y)" using take_sort_key_least[OF x(1) y(1)] by simp
    moreover have "?score y = ?score r" using y(2) by (simp add: search_score_def rrf_score_def)
    ultimately show ?thesis using x(2) by (auto simp: scored_of_def)
  next
    case False
    then show ?thesis using facts(4)[of r] facts(4)[of x] x(2) by (simp add: scored_of_def)
  qed
qed

section \<open>Properties\<close>


section \<open>Witness\<close>

text \<open>Three chunks, one of another tenant; the two of the tenant are found by both rankings.\<close>

definition number_library :: "rat search_library" where
  "number_library = \<lparr>se_distance = (\<lambda>a b. abs (a - b)), se_matches = (\<lambda>s q. s = q), se_ts_rank = (\<lambda>s q. 1)\<rparr>"

definition example_row :: "uuid \<Rightarrow> string \<Rightarrow> rat \<Rightarrow> rat chunk_row" where
  "example_row i tenant x = \<lparr>ck_id = i, ck_document = 9, ck_tenant = tenant, ck_ordinal = int i, ck_text = ''text'', ck_context = None,
     ck_embedding = x, ck_search_text = ''q'', ck_metadata = None\<rparr>"

definition example_table :: "rat chunk_row list" where
  "example_table = [example_row 1 ''a'' 5, example_row 2 ''a'' 3, example_row 3 ''b'' 0]"


end
