(* ===== verification/Corpus.thy ===== *)
theory Corpus imports Vector_Store Chunking Openai_Provider Http_Context begin

text \<open>
  Building the corpus behind the vector store: the embedding adapter
  (\<open>app/core/providers/openai_embedding_provider.py\<close>), the ingestion of documents
  (\<open>app/scripts/ingest_corpus.py\<close>) over the tables of theory \<open>Vector_Store\<close>, and the fingerprint of a corpus
  (\<open>app/core/utils/corpus_fingerprint.py\<close>). Every document is one transaction of a session scoped to the
  tenant. Discovering files, the manifest file and the command line are not modelled; SHA-256 and
  \<open>ast.parse\<close> are parameters. The lemmas show that ingesting brings the tenant's corpus in line with the
  documents given and touches nothing else.
\<close>

section \<open>Embeddings\<close>

record embedding_config =
  em_model :: string
  em_dimensions :: int
  em_max_attempts :: int
  em_backoff_base_ms :: int
  em_backoff_max_ms :: int

definition embedding_failure :: "provider_error_kind \<Rightarrow> string \<Rightarrow> int option \<Rightarrow> bool \<Rightarrow> provider_error" where
  "embedding_failure kind message status retryable = \<lparr>pe_kind = kind, pe_message = message, pe_provider = ''openai'',
     pe_http_status = status, pe_retryable = retryable, pe_error_code = None\<rparr>"

definition map_embedding_exc :: "client_exn \<Rightarrow> provider_error" where
  "map_embedding_exc e = (case e of
     Httpx_Timeout \<Rightarrow> embedding_failure Kind_timeout ''embedding provider timeout'' None False
   | Httpx_Request _ \<Rightarrow> embedding_failure Kind_upstream ''embedding provider upstream error'' None False
   | _ \<Rightarrow> embedding_failure Kind_unknown ''embedding provider unknown error'' None False)"

definition map_embedding_status :: "int \<Rightarrow> provider_error" where
  "map_embedding_status n =
     (if n = 400 then embedding_failure Kind_bad_request ''embedding request failed'' (Some n) False
      else if n = 401 \<or> n = 403 then embedding_failure Kind_auth ''embedding auth failed'' (Some n) False
      else if n = 429 then embedding_failure Kind_rate_limit ''embedding provider rate limited'' (Some n) True
      else if 500 \<le> n \<and> n \<le> 599 then embedding_failure Kind_upstream ''embedding provider upstream error'' (Some n) True
      else embedding_failure Kind_unknown ''embedding request failed'' (Some n) False)"

definition embedding_payload :: "embedding_config \<Rightarrow> string list \<Rightarrow> json" where
  "embedding_payload cfg texts = JObj [(''model'', JStr (em_model cfg)), (''input'', JArr (map JStr texts)),
     (''dimensions'', JInt (em_dimensions cfg))]"

definition embedding_attempt :: "http_post \<Rightarrow> json \<Rightarrow> int \<Rightarrow> (exn, http_response) result" where
  "embedding_attempt post payload attempt = (case post payload attempt of
     Inl e \<Rightarrow> Inl (Provider_Error (map_embedding_exc e))
   | Inr r \<Rightarrow> if hr_status r \<ge> 400 then Inl (Provider_Error (map_embedding_status (hr_status r))) else Inr r)"

fun item_vectors :: "json list \<Rightarrow> (exn, json list) result" where
  "item_vectors [] = Inr []"
| "item_vectors (JObj kvs # items) = (case map_of kvs ''embedding'' of
     None \<Rightarrow> Inl (Other_Error ''KeyError'' ''embedding'')
   | Some v \<Rightarrow> bind_result (item_vectors items) (\<lambda>vs. Inr (v # vs)))"
| "item_vectors (_ # items) = Inl (Other_Error ''TypeError'' [])"

text \<open>\<open>body["data"]\<close> and a loop over it.\<close>

definition read_vectors :: "http_response \<Rightarrow> (exn, json list) result" where
  "read_vectors r = (case json_loads (hr_body r) of
     None \<Rightarrow> Inl (Other_Error ''JSONDecodeError'' [])
   | Some (JObj kvs) \<Rightarrow> (case map_of kvs ''data'' of
       None \<Rightarrow> Inl (Other_Error ''KeyError'' ''data'')
     | Some (JArr items) \<Rightarrow> item_vectors items
     | Some _ \<Rightarrow> Inl (Other_Error ''TypeError'' []))
   | Some _ \<Rightarrow> Inl (Other_Error ''TypeError'' []))"

definition embed_many ::
    "(int \<Rightarrow> int \<Rightarrow> int) \<Rightarrow> embedding_config \<Rightarrow> http_post \<Rightarrow> string list \<Rightarrow> (exn, json list) result" where
  "embed_many jitter cfg post texts =
     (if texts = [] then Inr []
      else bind_result (fst (retry_async jitter (embedding_attempt post (embedding_payload cfg texts)) should_retry
          \<lparr>rp_max_attempts = max 1 (em_max_attempts cfg), rp_base_delay_ms = em_backoff_base_ms cfg, rp_max_delay_ms = em_backoff_max_ms cfg\<rparr>))
        read_vectors)"

definition embed_one :: "(int \<Rightarrow> int \<Rightarrow> int) \<Rightarrow> embedding_config \<Rightarrow> http_post \<Rightarrow> string \<Rightarrow> (exn, json) result" where
  "embed_one jitter cfg post s = bind_result (embed_many jitter cfg post [s]) (\<lambda>vs.
     case vs of v # _ \<Rightarrow> Inr v | [] \<Rightarrow> Inl (Other_Error ''IndexError'' []))"

section \<open>Documents\<close>

record loaded_document =
  ld_source_path :: string
  ld_doc_type :: string
  ld_content :: string
  ld_content_hash :: string

record ingest_library =
  ig_sha256 :: "string \<Rightarrow> string"
  ig_ast_top :: "string \<Rightarrow> (nat \<times> string) list option"

definition load_document :: "ingest_library \<Rightarrow> string \<Rightarrow> string \<Rightarrow> string \<Rightarrow> loaded_document" where
  "load_document lib path doc_type content = \<lparr>ld_source_path = path, ld_doc_type = doc_type, ld_content = content,
     ld_content_hash = ig_sha256 lib content\<rparr>"

definition fingerprint_of :: "string \<Rightarrow> string \<Rightarrow> string" where
  "fingerprint_of content_hash indexing_mode = content_hash @ '':'' @ indexing_mode"

definition should_reindex :: "string option \<Rightarrow> string \<Rightarrow> bool" where
  "should_reindex existing new = (existing \<noteq> Some new)"

definition contextualize_instructions :: string where
  "contextualize_instructions = ''You situate a text fragment within its source document in 1-2 short sentences. State only what section/function it belongs to and what the surrounding document is about. Do not repeat the fragment itself. Do not add commentary.''"

definition contextualize :: "generate_port \<Rightarrow> uuid \<Rightarrow> loaded_document \<Rightarrow> raw_chunk \<Rightarrow> (exn, string) result" where
  "contextualize generate rid d rc =
     bind_result (generate \<lparr>pi_request = rid, pi_messages = [chat_message_of System contextualize_instructions,
         chat_message_of User (''Document: '' @ ld_source_path d @ nl
           @ ''Section/function: '' @ (if rc_section rc \<noteq> [] then rc_section rc else ''(top level)'') @ nl @ nl
           @ ''Fragment:'' @ nl @ rc_text rc)],
       pi_temperature = Some (JFloat ''0.0''), pi_max_tokens = Some 80, pi_metadata = None\<rparr>)
       (\<lambda>r. Inr (py_strip (pr_content r)))"

text \<open>No provider: the plain mode.\<close>

fun contexts_of :: "generate_port option \<Rightarrow> uuid \<Rightarrow> loaded_document \<Rightarrow> raw_chunk list \<Rightarrow> (exn, string option list) result" where
  "contexts_of generate rid d [] = Inr []"
| "contexts_of None rid d (rc # rcs) = bind_result (contexts_of None rid d rcs) (\<lambda>cs. Inr (None # cs))"
| "contexts_of (Some generate) rid d (rc # rcs) = bind_result (contextualize generate rid d rc) (\<lambda>c.
     bind_result (contexts_of (Some generate) rid d rcs) (\<lambda>cs. Inr (Some c # cs)))"

definition search_text_of :: "string option \<Rightarrow> raw_chunk \<Rightarrow> string" where
  "search_text_of ctx rc = (case ctx of Some c \<Rightarrow> (if c \<noteq> [] then c @ nl @ rc_text rc else rc_text rc) | None \<Rightarrow> rc_text rc)"

definition build_search_texts :: "raw_chunk list \<Rightarrow> string option list \<Rightarrow> string list" where
  "build_search_texts raw_chunks contexts = map (\<lambda>(ctx, rc). search_text_of ctx rc) (zip contexts raw_chunks)"

section \<open>Ingestion\<close>

record 'v corpus =
  cp_documents :: "document_row list"
  cp_chunks :: "'v chunk_row list"
  cp_next :: uuid

record 'v ingestion =
  in_tenant :: string
  in_generate :: "generate_port option"
  in_embed :: "string list \<Rightarrow> (exn, 'v list) result"
  in_chunk_size :: int
  in_overlap :: int

definition indexing_mode :: "'v ingestion \<Rightarrow> string" where
  "indexing_mode g = (if in_generate g \<noteq> None then ''contextualized'' else ''plain'')"

definition existing_document :: "string \<Rightarrow> string \<Rightarrow> 'v corpus \<Rightarrow> document_row option" where
  "existing_document tenant path c = find (\<lambda>r. dr_tenant r = tenant \<and> dr_source_path r = path) (cp_documents c)"

text \<open>Deleting a document takes its chunks along.\<close>

definition delete_document :: "uuid \<Rightarrow> 'v corpus \<Rightarrow> 'v corpus" where
  "delete_document i c = c\<lparr>cp_documents := filter (\<lambda>r. dr_id r \<noteq> i) (cp_documents c),
     cp_chunks := filter (\<lambda>k. ck_document k \<noteq> i) (cp_chunks c)\<rparr>"

definition insert_document :: "'v ingestion \<Rightarrow> loaded_document \<Rightarrow> 'v corpus \<Rightarrow> 'v corpus" where
  "insert_document g d c = c\<lparr>cp_documents := cp_documents c @ [\<lparr>dr_id = cp_next c, dr_tenant = in_tenant g,
     dr_source_path = ld_source_path d, dr_content_hash = ld_content_hash d, dr_doc_type = ld_doc_type d,
     dr_indexing_mode = indexing_mode g\<rparr>], cp_next := Suc (cp_next c)\<rparr>"

text \<open>The upserts of a document; a missing vector raises, a surplus one is not looked at.\<close>

fun document_upserts ::
    "string \<Rightarrow> uuid \<Rightarrow> int \<Rightarrow> raw_chunk list \<Rightarrow> string option list \<Rightarrow> string list \<Rightarrow> 'v list \<Rightarrow> (exn, 'v chunk_upsert list) result" where
  "document_upserts tenant doc i (rc # rcs) (ctx # ctxs) (st # sts) (v # vs) =
     bind_result (document_upserts tenant doc (i + 1) rcs ctxs sts vs) (\<lambda>us. Inr (
       \<lparr>cu_document = doc, cu_tenant = tenant, cu_ordinal = i, cu_text = rc_text rc, cu_embedding = v, cu_search_text = st,
        cu_context = ctx, cu_metadata = (if rc_section rc \<noteq> [] then Some (JObj [(''section'', JStr (rc_section rc))]) else None)\<rparr> # us))"
| "document_upserts tenant doc i [] ctxs sts vs = Inr []"
| "document_upserts tenant doc i rcs ctxs sts vs = Inl (Other_Error ''IndexError'' ''list index out of range'')"

definition write_chunks :: "ingest_library \<Rightarrow> 'v ingestion \<Rightarrow> uuid \<Rightarrow> loaded_document \<Rightarrow> 'v corpus \<Rightarrow> (exn, nat \<times> 'v corpus) result" where
  "write_chunks lib g doc d c =
     bind_result (chunk_document (ig_ast_top lib) (ld_doc_type d) (ld_content d) (in_chunk_size g) (in_overlap g)) (\<lambda>raw.
       if raw = [] then Inr (0, c)
       else bind_result (contexts_of (in_generate g) doc d raw) (\<lambda>ctxs.
            bind_result (in_embed g (build_search_texts raw ctxs)) (\<lambda>vectors.
            bind_result (document_upserts (in_tenant g) doc 0 raw ctxs (build_search_texts raw ctxs) vectors) (\<lambda>us.
            bind_result (upsert_chunks (in_tenant g) (cp_next c) us (cp_chunks c)) (\<lambda>rows.
              Inr (length raw, c\<lparr>cp_chunks := rows, cp_next := cp_next c + length us\<rparr>))))))"

text \<open>One document in one transaction: skipped, or replaced with its chunks.\<close>

definition ingest_document :: "ingest_library \<Rightarrow> 'v ingestion \<Rightarrow> loaded_document \<Rightarrow> 'v corpus \<Rightarrow> (exn, nat option \<times> 'v corpus) result" where
  "ingest_document lib g d c =
     (let existing = existing_document (in_tenant g) (ld_source_path d) c;
          new = fingerprint_of (ld_content_hash d) (indexing_mode g)
      in case existing of
           Some r \<Rightarrow>
             if \<not> should_reindex (Some (fingerprint_of (dr_content_hash r) (dr_indexing_mode r))) new then Inr (None, c)
             else bind_result (write_chunks lib g (cp_next c) d (insert_document g d (delete_document (dr_id r) c)))
               (\<lambda>(n, c'). Inr (Some n, c'))
         | None \<Rightarrow> bind_result (write_chunks lib g (cp_next c) d (insert_document g d c)) (\<lambda>(n, c'). Inr (Some n, c')))"

record ingest_stats =
  is_seen :: nat
  is_ingested :: nat
  is_skipped :: nat
  is_chunks :: nat

definition count_document :: "nat option \<Rightarrow> ingest_stats \<Rightarrow> ingest_stats" where
  "count_document r s = (case r of None \<Rightarrow> s\<lparr>is_skipped := Suc (is_skipped s)\<rparr>
     | Some n \<Rightarrow> s\<lparr>is_ingested := Suc (is_ingested s), is_chunks := is_chunks s + n\<rparr>)"

text \<open>A failure rolls its document back and ends the run; the documents before it are committed.\<close>

fun ingest_all ::
    "ingest_library \<Rightarrow> 'v ingestion \<Rightarrow> loaded_document list \<Rightarrow> ingest_stats \<Rightarrow> 'v corpus \<Rightarrow> (exn, ingest_stats) result \<times> 'v corpus" where
  "ingest_all lib g [] s c = (Inr s, c)"
| "ingest_all lib g (d # ds) s c = (case ingest_document lib g d c of
     Inl e \<Rightarrow> (Inl e, c)
   | Inr (r, c') \<Rightarrow> ingest_all lib g ds (count_document r s) c')"

definition ingest :: "ingest_library \<Rightarrow> 'v ingestion \<Rightarrow> loaded_document list \<Rightarrow> 'v corpus \<Rightarrow> (exn, ingest_stats) result \<times> 'v corpus" where
  "ingest lib g documents c =
     (if validate_tenant (JStr (in_tenant g)) \<noteq> in_tenant g then (Inl (Other_Error ''ValueError'' ''invalid tenant_id''), c)
      else ingest_all lib g documents \<lparr>is_seen = length documents, is_ingested = 0, is_skipped = 0, is_chunks = 0\<rparr> c)"

section \<open>The fingerprint of a corpus\<close>

definition content_fingerprint :: "ingest_library \<Rightarrow> (string \<times> string) list \<Rightarrow> string" where
  "content_fingerprint lib rows = ig_sha256 lib (py_join nl (map (\<lambda>(path, h). path @ '':'' @ h) (sort rows)))"

definition corpus_fingerprint :: "ingest_library \<Rightarrow> string \<Rightarrow> 'v corpus \<Rightarrow> (exn, nat \<times> nat \<times> string \<times> string) result" where
  "corpus_fingerprint lib tenant c =
     (let docs = filter (\<lambda>r. dr_tenant r = tenant) (cp_documents c);
          modes = remdups (map dr_indexing_mode docs)
      in if length modes > 1 then Inl (Other_Error ''SystemExit'' ''corpus has mixed indexing modes'')
         else Inr (length docs, length (visible_chunks tenant (cp_chunks c)),
           content_fingerprint lib (map (\<lambda>r. (dr_source_path r, dr_content_hash r)) docs),
           (case modes of m # _ \<Rightarrow> m | [] \<Rightarrow> ''plain'')))"

section \<open>Writing the chunks of a new document\<close>

definition numbered :: "raw_chunk list \<Rightarrow> (int \<times> string) list" where
  "numbered raw = zip (map int [0..<length raw]) (map rc_text raw)"

lemma document_upserts_facts:
  "document_upserts tenant doc i raw ctxs sts vs = Inr us \<Longrightarrow>
     length us = length raw \<and> map cu_ordinal us = map (\<lambda>n. i + int n) [0..<length raw] \<and> map cu_text us = map rc_text raw
     \<and> (\<forall>u\<in>set us. cu_document u = doc \<and> cu_tenant u = tenant)"
proof (induction tenant doc i raw ctxs sts vs arbitrary: us rule: document_upserts.induct)
  case (1 tenant doc i rc rcs ctx ctxs st sts v vs)
  obtain ws where ws: "document_upserts tenant doc (i + 1) rcs ctxs sts vs = Inr ws" and us: "map cu_ordinal us = i # map cu_ordinal ws"
    "map cu_text us = rc_text rc # map cu_text ws" "length us = Suc (length ws)"
    "\<forall>u\<in>set us. u \<in> set ws \<or> cu_document u = doc \<and> cu_tenant u = tenant"
    using 1(2) by (auto simp: bind_result_Inr_iff)
  have "map (\<lambda>n. i + int n) [0..<Suc (length rcs)] = i # map (\<lambda>n. i + 1 + int n) [0..<length rcs]"
    by (simp add: upt_conv_Cons map_Suc_upt[symmetric] comp_def algebra_simps del: upt_Suc map_Suc_upt)
  then show ?case using us 1(1)[OF ws] by auto
qed auto

lemma upsert_chunks_fresh:
  assumes "\<forall>u\<in>set us. cu_tenant u = tenant \<and> (\<forall>k\<in>set rows. ck_document k = cu_document u \<longrightarrow> ck_ordinal k \<noteq> cu_ordinal u)"
    and "distinct (map (\<lambda>u. (cu_document u, cu_ordinal u)) us)"
  shows "upsert_chunks tenant n us rows = Inr (rows @ map (\<lambda>(m, u). inserted_row m u) (zip [n..<n + length us] us))"
  using assms
proof (induction us arbitrary: n rows)
  case (Cons u us)
  have "find (\<lambda>r. ck_document r = cu_document u \<and> ck_ordinal r = cu_ordinal u) rows = None"
    using Cons.prems(1) by (auto simp: find_None_iff)
  then have "upsert_chunk tenant n u rows = Inr (rows @ [inserted_row n u])"
    using Cons.prems(1) by (simp add: upsert_chunk_def)
  moreover have "upsert_chunks tenant (Suc n) us (rows @ [inserted_row n u])
      = Inr ((rows @ [inserted_row n u]) @ map (\<lambda>(m, u). inserted_row m u) (zip [Suc n..<Suc n + length us] us))"
    by (rule Cons.IH) (use Cons.prems in \<open>auto simp: inserted_row_def\<close>)
  moreover have "[n..<n + length (u # us)] = n # [Suc n..<Suc n + length us]" by (simp add: upt_conv_Cons del: upt_Suc)
  ultimately show ?case by simp
qed simp

lemma inserted_rows_facts:
  assumes "length ns = length us"
  shows "map ck_id (map (\<lambda>(m, u). inserted_row m u) (zip ns us)) = ns"
    and "map (\<lambda>k. (ck_ordinal k, ck_text k)) (map (\<lambda>(m, u). inserted_row m u) (zip ns us)) = zip (map cu_ordinal us) (map cu_text us)"
    and "k \<in> set (map (\<lambda>(m, u). inserted_row m u) (zip ns us)) \<Longrightarrow> \<exists>u\<in>set us. ck_document k = cu_document u \<and> ck_tenant k = cu_tenant u"
  using assms by (induction ns us rule: list_induct2) (auto simp: inserted_row_def)

text \<open>What writing the chunks of a document without any adds.\<close>

definition new_chunks :: "'v ingestion \<Rightarrow> uuid \<Rightarrow> uuid \<Rightarrow> raw_chunk list \<Rightarrow> 'v chunk_row list \<Rightarrow> bool" where
  "new_chunks g doc first raw new \<longleftrightarrow> map ck_id new = [first..<first + length raw]
     \<and> map (\<lambda>k. (ck_ordinal k, ck_text k)) new = numbered raw \<and> (\<forall>k\<in>set new. ck_document k = doc \<and> ck_tenant k = in_tenant g)"

lemma write_chunks_facts:
  assumes "write_chunks lib g doc d c = Inr (n, c')" and "\<forall>k\<in>set (cp_chunks c). ck_document k \<noteq> doc"
  shows "\<exists>raw new. chunk_document (ig_ast_top lib) (ld_doc_type d) (ld_content d) (in_chunk_size g) (in_overlap g) = Inr raw
     \<and> n = length raw \<and> new_chunks g doc (cp_next c) raw new
     \<and> c' = c\<lparr>cp_chunks := cp_chunks c @ new, cp_next := cp_next c + length raw\<rparr>"
proof -
  obtain raw where raw: "chunk_document (ig_ast_top lib) (ld_doc_type d) (ld_content d) (in_chunk_size g) (in_overlap g) = Inr raw"
    using assms(1) by (auto simp: write_chunks_def bind_result_Inr_iff)
  show ?thesis
  proof (cases "raw = []")
    case True
    then have "n = 0" "c' = c" using assms(1) raw by (simp_all add: write_chunks_def)
    then show ?thesis using raw True by (intro exI[of _ raw] exI[of _ "[]"]) (simp add: new_chunks_def numbered_def)
  next
    case False
    then obtain ctxs sts vs us rows where us: "document_upserts (in_tenant g) doc 0 raw ctxs sts vs = Inr us"
      and rows: "upsert_chunks (in_tenant g) (cp_next c) us (cp_chunks c) = Inr rows"
      and out: "n = length raw" "c' = c\<lparr>cp_chunks := rows, cp_next := cp_next c + length us\<rparr>"
      using assms(1) raw by (auto simp: write_chunks_def bind_result_Inr_iff)
    note u = document_upserts_facts[OF us]
    have ord: "map cu_ordinal us = map int [0..<length raw]" using u by simp
    then have "distinct (map cu_ordinal us)" by (simp add: distinct_map)
    then have "distinct (map (\<lambda>u. (cu_document u, cu_ordinal u)) us)" by (auto simp: distinct_map inj_on_def)
    then have "rows = cp_chunks c @ map (\<lambda>(m, u). inserted_row m u) (zip [cp_next c..<cp_next c + length us] us)"
      using rows upsert_chunks_fresh[of us "in_tenant g" "cp_chunks c" "cp_next c"] u assms(2) by auto
    moreover have "new_chunks g doc (cp_next c) raw (map (\<lambda>(m, u). inserted_row m u) (zip [cp_next c..<cp_next c + length us] us))"
      using inserted_rows_facts[of "[cp_next c..<cp_next c + length us]" us] u ord
      unfolding new_chunks_def numbered_def by fastforce
    ultimately show ?thesis using raw out u by auto
  qed
qed

section \<open>What a corpus holds for every tenant and path\<close>

definition corpus_ok :: "'v corpus \<Rightarrow> bool" where
  "corpus_ok c \<longleftrightarrow> distinct (map dr_id (cp_documents c)) \<and> distinct (map (\<lambda>r. (dr_tenant r, dr_source_path r)) (cp_documents c))
     \<and> (\<forall>r\<in>set (cp_documents c). dr_id r < cp_next c \<and> dr_indexing_mode r \<in> {''plain'', ''contextualized''})
     \<and> distinct (map ck_id (cp_chunks c)) \<and> (\<forall>k\<in>set (cp_chunks c). ck_id k < cp_next c)
     \<and> distinct (map (\<lambda>k. (ck_document k, ck_ordinal k)) (cp_chunks c))
     \<and> (\<forall>k\<in>set (cp_chunks c). \<exists>r\<in>set (cp_documents c). dr_id r = ck_document k \<and> dr_tenant r = ck_tenant k)"

record stored_document =
  sd_hash :: string
  sd_mode :: string
  sd_doc_type :: string
  sd_chunks :: "(int \<times> string) list"

definition stored_row :: "'v corpus \<Rightarrow> document_row \<Rightarrow> stored_document" where
  "stored_row c r = \<lparr>sd_hash = dr_content_hash r, sd_mode = dr_indexing_mode r, sd_doc_type = dr_doc_type r,
     sd_chunks = map (\<lambda>k. (ck_ordinal k, ck_text k)) (filter (\<lambda>k. ck_document k = dr_id r) (cp_chunks c))\<rparr>"

definition corpus_view :: "'v corpus \<Rightarrow> string \<times> string \<Rightarrow> stored_document option" where
  "corpus_view c key = map_option (stored_row c) (existing_document (fst key) (snd key) c)"

text \<open>Storing a document: nothing happens to one stored with the same content under the same mode.\<close>

definition up_to_date :: "'v ingestion \<Rightarrow> loaded_document \<Rightarrow> stored_document option \<Rightarrow> bool" where
  "up_to_date g d s \<longleftrightarrow> (case s of None \<Rightarrow> False | Some x \<Rightarrow> sd_hash x = ld_content_hash d \<and> sd_mode x = indexing_mode g)"

definition put_document ::
    "ingest_library \<Rightarrow> 'v ingestion \<Rightarrow> loaded_document \<Rightarrow> (string \<times> string \<Rightarrow> stored_document option) \<Rightarrow> string \<times> string \<Rightarrow> stored_document option" where
  "put_document lib g d m =
     (if up_to_date g d (m (in_tenant g, ld_source_path d)) then m
      else m((in_tenant g, ld_source_path d) := (case chunk_document (ig_ast_top lib) (ld_doc_type d) (ld_content d) (in_chunk_size g) (in_overlap g) of
        Inl e \<Rightarrow> None
      | Inr raw \<Rightarrow> Some \<lparr>sd_hash = ld_content_hash d, sd_mode = indexing_mode g, sd_doc_type = ld_doc_type d, sd_chunks = numbered raw\<rparr>)))"

lemma existing_iff:
  assumes "corpus_ok c"
  shows "existing_document t p c = Some r \<longleftrightarrow> r \<in> set (cp_documents c) \<and> dr_tenant r = t \<and> dr_source_path r = p"
proof
  assume "existing_document t p c = Some r"
  then show "r \<in> set (cp_documents c) \<and> dr_tenant r = t \<and> dr_source_path r = p"
    unfolding existing_document_def by (auto simp: find_Some_iff)
next
  assume r: "r \<in> set (cp_documents c) \<and> dr_tenant r = t \<and> dr_source_path r = p"
  then obtain x where x: "existing_document t p c = Some x"
    unfolding existing_document_def by (cases "find (\<lambda>r. dr_tenant r = t \<and> dr_source_path r = p) (cp_documents c)") (auto simp: find_None_iff)
  then have "x \<in> set (cp_documents c) \<and> dr_tenant x = t \<and> dr_source_path x = p"
    unfolding existing_document_def by (auto simp: find_Some_iff)
  then have "x = r" using r assms unfolding corpus_ok_def by (auto simp: distinct_map inj_on_def)
  then show "existing_document t p c = Some r" using x by simp
qed

lemma existing_cong:
  assumes "corpus_ok c" "corpus_ok c'"
    and "\<And>r. dr_tenant r = t \<Longrightarrow> dr_source_path r = p \<Longrightarrow> r \<in> set (cp_documents c) \<longleftrightarrow> r \<in> set (cp_documents c')"
  shows "existing_document t p c = existing_document t p c'"
proof -
  have "existing_document t p c = Some r \<longleftrightarrow> existing_document t p c' = Some r" for r
    using assms(3) unfolding existing_iff[OF assms(1)] existing_iff[OF assms(2)] by blast
  then show ?thesis by (cases "existing_document t p c'") (auto simp: not_Some_eq)
qed

lemma delete_document_ok: "corpus_ok c \<Longrightarrow> corpus_ok (delete_document i c)"
  unfolding corpus_ok_def delete_document_def by (fastforce simp: distinct_map_filter)

lemma delete_document_view:
  assumes "corpus_ok c" "existing_document t p c = Some r"
  shows "corpus_view (delete_document (dr_id r) c) = (corpus_view c)((t, p) := None)"
proof
  fix key :: "string \<times> string"
  let ?c = "delete_document (dr_id r) c"
  note ok = delete_document_ok[OF assms(1), of "dr_id r"]
  have r: "r \<in> set (cp_documents c)" "dr_tenant r = t" "dr_source_path r = p" using existing_iff[OF assms(1)] assms(2) by auto
  have same: "x = r" if "x \<in> set (cp_documents c)" "dr_id x = dr_id r" for x
    using assms(1) r(1) that unfolding corpus_ok_def by (auto simp: distinct_map inj_on_def)
  show "corpus_view ?c key = ((corpus_view c)((t, p) := None)) key"
  proof (cases "key = (t, p)")
    case True
    have "existing_document t p ?c \<noteq> Some x" for x
      using existing_iff[OF ok, of t p x] existing_iff[OF assms(1), of t p x] assms(2) by (auto simp: delete_document_def)
    then show ?thesis using True by (cases "existing_document t p ?c") (auto simp: corpus_view_def)
  next
    case False
    have e: "existing_document (fst key) (snd key) ?c = existing_document (fst key) (snd key) c"
    proof (rule existing_cong[OF ok assms(1)])
      fix x :: document_row assume x: "dr_tenant x = fst key" "dr_source_path x = snd key"
      then have "x \<noteq> r" using r False by (metis prod.collapse)
      then show "x \<in> set (cp_documents ?c) \<longleftrightarrow> x \<in> set (cp_documents c)" using same[of x] by (auto simp: delete_document_def)
    qed
    have "stored_row ?c x = stored_row c x" if "existing_document (fst key) (snd key) c = Some x" for x
    proof -
      have "dr_id x \<noteq> dr_id r" using that existing_iff[OF assms(1)] same r False by (metis prod.collapse)
      then have "(\<lambda>k. ck_document k \<noteq> dr_id r \<and> ck_document k = dr_id x) = (\<lambda>k :: 'a chunk_row. ck_document k = dr_id x)" by (auto simp: fun_eq_iff)
      then show ?thesis by (simp add: stored_row_def delete_document_def)
    qed
    then show ?thesis using False e by (cases "existing_document (fst key) (snd key) c") (auto simp: corpus_view_def)
  qed
qed

lemma new_chunks_facts:
  assumes "new_chunks g doc first raw new"
  shows "distinct (map ck_id new)" "k \<in> set new \<Longrightarrow> first \<le> ck_id k \<and> ck_id k < first + length raw \<and> ck_document k = doc \<and> ck_tenant k = in_tenant g"
    and "distinct (map (\<lambda>k. (ck_document k, ck_ordinal k)) new)"
    and "map (\<lambda>k. (ck_ordinal k, ck_text k)) new = numbered raw"
proof -
  have ids: "map ck_id new = [first..<first + length raw]" and texts: "map (\<lambda>k. (ck_ordinal k, ck_text k)) new = numbered raw"
    and own: "\<forall>k\<in>set new. ck_document k = doc \<and> ck_tenant k = in_tenant g"
    using assms by (simp_all add: new_chunks_def)
  show "distinct (map ck_id new)" unfolding ids by simp
  show "map (\<lambda>k. (ck_ordinal k, ck_text k)) new = numbered raw" by (rule texts)
  have "ck_id k \<in> set (map ck_id new)" if "k \<in> set new" for k using that by simp
  then show "first \<le> ck_id k \<and> ck_id k < first + length raw \<and> ck_document k = doc \<and> ck_tenant k = in_tenant g" if "k \<in> set new"
    using own that unfolding ids by auto
  have "map ck_ordinal new = map fst (map (\<lambda>k. (ck_ordinal k, ck_text k)) new)" by simp
  also have "\<dots> = map int [0..<length raw]" unfolding texts numbered_def by simp
  finally have "distinct (map ck_ordinal new)" by (simp add: distinct_map)
  then show "distinct (map (\<lambda>k. (ck_document k, ck_ordinal k)) new)" by (auto simp: distinct_map inj_on_def)
qed

lemma find_snoc: "find P (xs @ [y]) = (case find P xs of Some x \<Rightarrow> Some x | None \<Rightarrow> if P y then Some y else None)"
  by (induction xs) simp_all

text \<open>The corpus with a document and its chunks appended.\<close>

definition with_document :: "document_row \<Rightarrow> 'v chunk_row list \<Rightarrow> nat \<Rightarrow> 'v corpus \<Rightarrow> 'v corpus" where
  "with_document r new n c = c\<lparr>cp_documents := cp_documents c @ [r], cp_chunks := cp_chunks c @ new, cp_next := Suc (cp_next c) + n\<rparr>"

lemma with_document_ok:
  assumes "corpus_ok c" "existing_document (in_tenant g) (dr_source_path r) c = None"
    and "dr_id r = cp_next c" "dr_tenant r = in_tenant g" "dr_indexing_mode r = indexing_mode g"
    and "new_chunks g (cp_next c) (Suc (cp_next c)) raw new"
  shows "corpus_ok (with_document r new (length raw) c)"
proof -
  note n = new_chunks_facts[OF assms(6)]
  have key: "\<forall>x\<in>set (cp_documents c). \<not> (dr_tenant x = dr_tenant r \<and> dr_source_path x = dr_source_path r)"
    using assms(2,4) by (simp add: existing_document_def find_None_iff)
  have mode: "dr_indexing_mode r = ''plain'' \<or> dr_indexing_mode r = ''contextualized''" using assms(5) by (simp add: indexing_mode_def)
  have fresh: "\<forall>x\<in>set (cp_documents c). dr_id x < cp_next c" "\<forall>k\<in>set (cp_chunks c). ck_id k < cp_next c \<and> ck_document k < cp_next c"
    using assms(1) unfolding corpus_ok_def by fastforce+
  have "distinct (map ck_id (cp_chunks c @ new))"
    using assms(1) n(1,2) fresh unfolding corpus_ok_def by fastforce
  moreover have "distinct (map (\<lambda>k. (ck_document k, ck_ordinal k)) (cp_chunks c @ new))"
    using assms(1) n(2,3) fresh unfolding corpus_ok_def by fastforce
  moreover have "distinct (map dr_id (cp_documents c @ [r]))" "distinct (map (\<lambda>r. (dr_tenant r, dr_source_path r)) (cp_documents c @ [r]))"
    using assms(1,3) key fresh unfolding corpus_ok_def by force+
  moreover have "\<forall>x\<in>set (cp_documents c @ [r]). dr_id x < Suc (cp_next c) + length raw \<and> dr_indexing_mode x \<in> {''plain'', ''contextualized''}"
    using assms(1,3) mode unfolding corpus_ok_def by force
  moreover have "\<forall>k\<in>set (cp_chunks c @ new). ck_id k < Suc (cp_next c) + length raw"
    using fresh n(2) by fastforce
  moreover have "\<forall>k\<in>set (cp_chunks c @ new). \<exists>x\<in>set (cp_documents c @ [r]). dr_id x = ck_document k \<and> dr_tenant x = ck_tenant k"
    using assms(1,3,4) n(2) unfolding corpus_ok_def by fastforce
  ultimately show ?thesis unfolding corpus_ok_def with_document_def by simp
qed

lemma with_document_view:
  assumes "corpus_ok c" "existing_document (in_tenant g) (dr_source_path r) c = None"
    and "dr_id r = cp_next c" "dr_tenant r = in_tenant g" "dr_indexing_mode r = indexing_mode g"
    and "new_chunks g (cp_next c) (Suc (cp_next c)) raw new"
  shows "corpus_view (with_document r new (length raw) c) = (corpus_view c)((in_tenant g, dr_source_path r) :=
     Some \<lparr>sd_hash = dr_content_hash r, sd_mode = indexing_mode g, sd_doc_type = dr_doc_type r, sd_chunks = numbered raw\<rparr>)"
proof
  fix key :: "string \<times> string"
  let ?c = "with_document r new (length raw) c"
  note n = new_chunks_facts[OF assms(6)]
  have fresh: "x \<in> set (cp_documents c) \<Longrightarrow> dr_id x < cp_next c" "k \<in> set (cp_chunks c) \<Longrightarrow> ck_document k < cp_next c" for x k
    using assms(1) unfolding corpus_ok_def by fastforce+
  have ex: "existing_document t p ?c = (case existing_document t p c of Some x \<Rightarrow> Some x
      | None \<Rightarrow> if dr_tenant r = t \<and> dr_source_path r = p then Some r else None)" for t p
    by (simp add: existing_document_def with_document_def find_snoc split: option.split)
  have mine: "filter (\<lambda>k. ck_document k = cp_next c) (cp_chunks c @ new) = new"
  proof -
    have "filter (\<lambda>k. ck_document k = cp_next c) (cp_chunks c) = []" using fresh(2) by (fastforce simp: filter_empty_conv)
    moreover have "filter (\<lambda>k. ck_document k = cp_next c) new = new" using n(2) by (simp add: filter_id_conv)
    ultimately show ?thesis by simp
  qed
  have others: "filter (\<lambda>k. ck_document k = dr_id x) (cp_chunks c @ new) = filter (\<lambda>k. ck_document k = dr_id x) (cp_chunks c)"
    if "x \<in> set (cp_documents c)" for x
    using fresh(1)[OF that] n(2) by (fastforce simp: filter_empty_conv)
  show "corpus_view ?c key = ((corpus_view c)((in_tenant g, dr_source_path r) :=
     Some \<lparr>sd_hash = dr_content_hash r, sd_mode = indexing_mode g, sd_doc_type = dr_doc_type r, sd_chunks = numbered raw\<rparr>)) key"
  proof (cases "key = (in_tenant g, dr_source_path r)")
    case True
    have "stored_row ?c r = \<lparr>sd_hash = dr_content_hash r, sd_mode = indexing_mode g, sd_doc_type = dr_doc_type r, sd_chunks = numbered raw\<rparr>"
      using mine n(4) assms(3,5) by (simp add: stored_row_def with_document_def)
    then show ?thesis using True assms(2,4) by (simp add: corpus_view_def ex)
  next
    case False
    show ?thesis
    proof (cases "existing_document (fst key) (snd key) c")
      case None
      then show ?thesis using False assms(4) by (cases key) (auto simp: corpus_view_def ex)
    next
      case (Some x)
      then have "x \<in> set (cp_documents c)" using existing_iff[OF assms(1)] by blast
      then have "stored_row ?c x = stored_row c x" using others by (simp add: stored_row_def with_document_def)
      then show ?thesis using False Some by (simp add: corpus_view_def ex)
    qed
  qed
qed

section \<open>Ingesting keeps the view in step\<close>

lemma fingerprint_of_inject:
  assumes "m \<in> {''plain'', ''contextualized''}" "m' \<in> {''plain'', ''contextualized''}"
  shows "fingerprint_of h m = fingerprint_of h' m' \<longleftrightarrow> h = h' \<and> m = m'"
proof
  assume e: "fingerprint_of h m = fingerprint_of h' m'"
  have "List.last (fingerprint_of h m) = List.last m" "List.last (fingerprint_of h' m') = List.last m'"
    using assms by (auto simp: fingerprint_of_def)
  then have "List.last m = List.last m'" using e by simp
  then have "m = m'" using assms by auto
  then show "h = h' \<and> m = m'" using e by (simp add: fingerprint_of_def)
qed simp

lemma view_up_to_date:
  assumes "corpus_ok c"
  shows "up_to_date g d (corpus_view c (in_tenant g, ld_source_path d)) \<longleftrightarrow>
    \<not> should_reindex (map_option (\<lambda>r. fingerprint_of (dr_content_hash r) (dr_indexing_mode r)) (existing_document (in_tenant g) (ld_source_path d) c))
        (fingerprint_of (ld_content_hash d) (indexing_mode g))"
proof (cases "existing_document (in_tenant g) (ld_source_path d) c")
  case None
  then show ?thesis by (simp add: corpus_view_def up_to_date_def should_reindex_def)
next
  case (Some r)
  then have "r \<in> set (cp_documents c)" using existing_iff[OF assms] by blast
  then have "dr_indexing_mode r \<in> {''plain'', ''contextualized''}" using assms unfolding corpus_ok_def by blast
  moreover have "indexing_mode g \<in> {''plain'', ''contextualized''}" by (simp add: indexing_mode_def)
  ultimately show ?thesis using Some fingerprint_of_inject
    by (simp add: corpus_view_def up_to_date_def should_reindex_def stored_row_def)
qed

lemma replace_document:
  assumes "corpus_ok c" "existing_document (in_tenant g) (ld_source_path d) c = None"
    and "write_chunks lib g (cp_next c) d (insert_document g d c) = Inr (n, c')"
  shows "corpus_ok c' \<and> (\<exists>raw. chunk_document (ig_ast_top lib) (ld_doc_type d) (ld_content d) (in_chunk_size g) (in_overlap g) = Inr raw \<and> n = length raw
    \<and> corpus_view c' = (corpus_view c)((in_tenant g, ld_source_path d) :=
        Some \<lparr>sd_hash = ld_content_hash d, sd_mode = indexing_mode g, sd_doc_type = ld_doc_type d, sd_chunks = numbered raw\<rparr>))"
proof -
  have free: "\<forall>k\<in>set (cp_chunks (insert_document g d c)). ck_document k \<noteq> cp_next c"
    using assms(1) unfolding corpus_ok_def insert_document_def by fastforce
  obtain raw new where w: "chunk_document (ig_ast_top lib) (ld_doc_type d) (ld_content d) (in_chunk_size g) (in_overlap g) = Inr raw"
    "n = length raw" "new_chunks g (cp_next c) (Suc (cp_next c)) raw new"
    "c' = insert_document g d c\<lparr>cp_chunks := cp_chunks c @ new, cp_next := Suc (cp_next c) + length raw\<rparr>"
    using write_chunks_facts[OF assms(3) free] by (auto simp: insert_document_def)
  define r where "r = \<lparr>dr_id = cp_next c, dr_tenant = in_tenant g, dr_source_path = ld_source_path d,
    dr_content_hash = ld_content_hash d, dr_doc_type = ld_doc_type d, dr_indexing_mode = indexing_mode g\<rparr>"
  have c': "c' = with_document r new (length raw) c" using w(4) by (simp add: insert_document_def with_document_def r_def)
  have key: "existing_document (in_tenant g) (dr_source_path r) c = None" using assms(2) by (simp add: r_def)
  have fields: "dr_id r = cp_next c" "dr_tenant r = in_tenant g" "dr_indexing_mode r = indexing_mode g" by (simp_all add: r_def)
  show ?thesis using with_document_ok[OF assms(1) key fields w(3)] with_document_view[OF assms(1) key fields w(3)] w(1,2)
    by (simp add: c' r_def)
qed

lemma ingest_document_step:
  assumes "corpus_ok c" "ingest_document lib g d c = Inr (r, c')"
  shows "corpus_ok c' \<and> corpus_view c' = put_document lib g d (corpus_view c)
    \<and> (r = None \<longleftrightarrow> up_to_date g d (corpus_view c (in_tenant g, ld_source_path d)))
    \<and> up_to_date g d (corpus_view c' (in_tenant g, ld_source_path d))"
proof -
  let ?key = "(in_tenant g, ld_source_path d)"
  note upd = view_up_to_date[OF assms(1), of g d]
  show ?thesis
  proof (cases "up_to_date g d (corpus_view c ?key)")
    case True
    then have "r = None \<and> c' = c" using assms(2) upd
      by (auto simp: ingest_document_def Let_def should_reindex_def split: option.splits)
    then show ?thesis using True assms(1) by (simp add: put_document_def)
  next
    case False
    define c1 where "c1 = (case existing_document (in_tenant g) (ld_source_path d) c of None \<Rightarrow> c | Some x \<Rightarrow> delete_document (dr_id x) c)"
    obtain n where n: "write_chunks lib g (cp_next c1) d (insert_document g d c1) = Inr (n, c')" "r = Some n"
      using assms(2) False upd unfolding ingest_document_def Let_def c1_def
      by (auto simp: should_reindex_def bind_result_Inr_iff delete_document_def split: option.splits if_splits)
    have ok: "corpus_ok c1" using assms(1) delete_document_ok by (auto simp: c1_def split: option.split)
    have view: "corpus_view c1 = (corpus_view c)(?key := None)"
    proof (cases "existing_document (in_tenant g) (ld_source_path d) c")
      case None
      then have "corpus_view c ?key = None" by (simp add: corpus_view_def)
      then have "(corpus_view c)(?key := None) = corpus_view c" by (rule fun_upd_idem)
      then show ?thesis using None by (simp add: c1_def)
    next
      case (Some x)
      then show ?thesis using delete_document_view[OF assms(1) Some] by (simp add: c1_def)
    qed
    then have "corpus_view c1 ?key = None" by simp
    then have "existing_document (in_tenant g) (ld_source_path d) c1 = None" by (simp add: corpus_view_def)
    from replace_document[OF ok this n(1)] obtain raw where
      "corpus_ok c'" "chunk_document (ig_ast_top lib) (ld_doc_type d) (ld_content d) (in_chunk_size g) (in_overlap g) = Inr raw"
      "corpus_view c' = (corpus_view c1)(?key := Some \<lparr>sd_hash = ld_content_hash d, sd_mode = indexing_mode g, sd_doc_type = ld_doc_type d, sd_chunks = numbered raw\<rparr>)"
      by blast
    then show ?thesis using False n(2) view by (simp add: put_document_def up_to_date_def)
  qed
qed

definition stale :: "'v ingestion \<Rightarrow> 'v corpus \<Rightarrow> loaded_document \<Rightarrow> bool" where
  "stale g c d = (\<not> up_to_date g d (corpus_view c (in_tenant g, ld_source_path d)))"

lemma put_document_other: "key \<noteq> (in_tenant g, ld_source_path d) \<Longrightarrow> put_document lib g d m key = m key"
  by (simp add: put_document_def)

lemma fold_put_other:
  "key \<notin> (\<lambda>d. (in_tenant g, ld_source_path d)) ` set ds \<Longrightarrow> fold (put_document lib g) ds m key = m key"
  by (induction ds arbitrary: m) (simp_all add: put_document_other)

lemma up_to_date_skips: "corpus_ok c \<Longrightarrow> \<not> stale g c d \<Longrightarrow> ingest_document lib g d c = Inr (None, c)"
  using view_up_to_date[of c g d] by (auto simp: stale_def ingest_document_def Let_def should_reindex_def split: option.splits)

lemma all_up_to_date:
  "corpus_ok c \<Longrightarrow> \<forall>d\<in>set ds. \<not> stale g c d \<Longrightarrow> ingest_all lib g ds s c = (Inr (s\<lparr>is_skipped := is_skipped s + length ds\<rparr>), c)"
  by (induction ds arbitrary: s) (simp_all add: up_to_date_skips count_document_def)

lemma ingest_all_run:
  assumes "corpus_ok c" "distinct (map ld_source_path ds)" "ingest_all lib g ds s c = (r, c')"
  shows "corpus_ok c' \<and> (\<exists>n\<le>length ds. corpus_view c' = fold (put_document lib g) (take n ds) (corpus_view c) \<and> (\<forall>t. r = Inr t \<longrightarrow> n = length ds))
    \<and> (\<forall>t. r = Inr t \<longrightarrow> is_seen t = is_seen s \<and> is_ingested t = is_ingested s + length (filter (stale g c) ds)
         \<and> is_skipped t = is_skipped s + length (filter (\<lambda>d. \<not> stale g c d) ds) \<and> (\<forall>d\<in>set ds. \<not> stale g c' d))"
  using assms
proof (induction ds arbitrary: c s)
  case (Cons d ds)
  show ?case
  proof (cases "ingest_document lib g d c")
    case (Inl e)
    then show ?thesis using Cons.prems by (intro conjI exI[of _ "0 :: nat"]) auto
  next
    case (Inr p)
    obtain o1 c1 where p: "ingest_document lib g d c = Inr (o1, c1)" using Inr by (cases p) simp
    note step = ingest_document_step[OF Cons.prems(1) p]
    have run: "ingest_all lib g ds (count_document o1 s) c1 = (r, c')" using Cons.prems(3) p by simp
    have paths: "distinct (map ld_source_path ds)" "ld_source_path d \<notin> ld_source_path ` set ds" using Cons.prems(2) by simp_all
    note ih = Cons.IH[OF conjunct1[OF step] paths(1) run]
    have view1: "corpus_view c1 = put_document lib g d (corpus_view c)" using step by blast
    have same: "stale g c1 x = stale g c x" if "x \<in> set ds" for x
      using that paths(2) by (auto simp: stale_def view1 put_document_other image_iff)
    have filt: "filter (stale g c1) ds = filter (stale g c) ds" "filter (\<lambda>x. \<not> stale g c1 x) ds = filter (\<lambda>x. \<not> stale g c x) ds"
      using same by (auto intro!: filter_cong)
    obtain n where n: "n \<le> length ds" "corpus_view c' = fold (put_document lib g) (take n ds) (corpus_view c1)" "\<forall>t. r = Inr t \<longrightarrow> n = length ds"
      using ih by blast
    have "(in_tenant g, ld_source_path d) \<notin> (\<lambda>d. (in_tenant g, ld_source_path d)) ` set (take n ds)"
      using paths(2) by (auto dest: in_set_takeD)
    then have "corpus_view c' (in_tenant g, ld_source_path d) = corpus_view c1 (in_tenant g, ld_source_path d)"
      unfolding n(2) by (rule fold_put_other)
    then have "stale g c' d = stale g c1 d" by (simp only: stale_def)
    then have later: "\<not> stale g c' d" using step unfolding stale_def by blast
    have count: "o1 = None \<longleftrightarrow> \<not> stale g c d" using step by (simp add: stale_def)
    have "is_seen t = is_seen s \<and> is_ingested t = is_ingested s + length (filter (stale g c) (d # ds))
        \<and> is_skipped t = is_skipped s + length (filter (\<lambda>d. \<not> stale g c d) (d # ds)) \<and> (\<forall>x\<in>set (d # ds). \<not> stale g c' x)" if "r = Inr t" for t
    proof -
      have t: "is_seen t = is_seen (count_document o1 s)" "is_ingested t = is_ingested (count_document o1 s) + length (filter (stale g c) ds)"
          "is_skipped t = is_skipped (count_document o1 s) + length (filter (\<lambda>x. \<not> stale g c x) ds)" "\<forall>x\<in>set ds. \<not> stale g c' x"
        using ih that unfolding filt by blast+
      show ?thesis
      proof (cases o1)
        case None
        then show ?thesis using t later count by (simp add: count_document_def)
      next
        case (Some n)
        then show ?thesis using t later count by (simp add: count_document_def)
      qed
    qed
    moreover have "Suc n \<le> length (d # ds) \<and> corpus_view c' = fold (put_document lib g) (take (Suc n) (d # ds)) (corpus_view c)
        \<and> (\<forall>t. r = Inr t \<longrightarrow> Suc n = length (d # ds))" using n view1 by simp
    ultimately show ?thesis using ih by blast
  qed
qed auto

section \<open>Properties\<close>

text \<open>
  C25: Ingesting documents with distinct paths refines storing them, one after another, in a map from tenant
  and path to the content hash, the indexing mode, the kind and the chunks of a document: a document stored with
  the same hash and mode is left alone, any other is replaced with exactly the chunks of its text. The documents
  of other tenants and of other paths keep their rows and chunks, and the tables stay consistent; a run that
  fails has stored a prefix of the documents. A run that succeeds counts every document once, leaves none stale,
  and a second run over the same documents skips all of them and changes nothing.
\<close>

theorem ingest_synchronizes_corpus:
  assumes "corpus_ok c" and "distinct (map ld_source_path ds)" and "ingest lib g ds c = (r, c')"
  shows "corpus_ok c'
    \<and> (\<exists>n\<le>length ds. corpus_view c' = fold (put_document lib g) (take n ds) (corpus_view c) \<and> (\<forall>s. r = Inr s \<longrightarrow> n = length ds))
    \<and> (\<forall>tenant path. tenant \<noteq> in_tenant g \<or> path \<notin> ld_source_path ` set ds \<longrightarrow> corpus_view c' (tenant, path) = corpus_view c (tenant, path))
    \<and> (\<forall>s. r = Inr s \<longrightarrow> is_seen s = length ds \<and> is_ingested s = length (filter (stale g c) ds) \<and> is_ingested s + is_skipped s = is_seen s
        \<and> (\<forall>d\<in>set ds. \<not> stale g c' d)
        \<and> ingest lib g ds c' = (Inr \<lparr>is_seen = length ds, is_ingested = 0, is_skipped = length ds, is_chunks = 0\<rparr>, c'))"
proof (cases "validate_tenant (JStr (in_tenant g)) = in_tenant g")
  case False
  then have "c' = c" "\<And>s. r \<noteq> Inr s" using assms(3) by (auto simp: ingest_def)
  then show ?thesis using assms(1) by (intro conjI exI[of _ "0 :: nat"]) auto
next
  case True
  then have "ingest_all lib g ds \<lparr>is_seen = length ds, is_ingested = 0, is_skipped = 0, is_chunks = 0\<rparr> c = (r, c')"
    using assms(3) by (simp add: ingest_def)
  note run = ingest_all_run[OF assms(1,2) this]
  obtain n where n: "n \<le> length ds" "corpus_view c' = fold (put_document lib g) (take n ds) (corpus_view c)" "\<forall>s. r = Inr s \<longrightarrow> n = length ds"
    using run by blast
  have "corpus_view c' (tenant, path) = corpus_view c (tenant, path)" if "tenant \<noteq> in_tenant g \<or> path \<notin> ld_source_path ` set ds" for tenant path
    unfolding n(2) by (rule fold_put_other) (use that in \<open>auto dest: in_set_takeD\<close>)
  moreover have "ingest lib g ds c' = (Inr \<lparr>is_seen = length ds, is_ingested = 0, is_skipped = length ds, is_chunks = 0\<rparr>, c')" if "r = Inr s" for s
    unfolding ingest_def using all_up_to_date[OF conjunct1[OF run]] run that True by simp
  ultimately show ?thesis using run n sum_length_filter_compl[of "stale g c" ds] by simp
qed

section \<open>Witness\<close>

text \<open>A document with a new text, stored before under the same path and as another tenant's.\<close>

definition identity_library :: ingest_library where
  "identity_library = \<lparr>ig_sha256 = (\<lambda>s. s), ig_ast_top = (\<lambda>_. None)\<rparr>"

definition plain_ingestion :: "nat ingestion" where
  "plain_ingestion = \<lparr>in_tenant = ''a'', in_generate = None, in_embed = (\<lambda>texts. Inr (map length texts)), in_chunk_size = 10, in_overlap = 2\<rparr>"

definition old_corpus :: "nat corpus" where
  "old_corpus = \<lparr>cp_documents = [\<lparr>dr_id = 1, dr_tenant = ''a'', dr_source_path = ''p'', dr_content_hash = ''old'', dr_doc_type = ''text'', dr_indexing_mode = ''plain''\<rparr>,
       \<lparr>dr_id = 2, dr_tenant = ''b'', dr_source_path = ''p'', dr_content_hash = ''other'', dr_doc_type = ''text'', dr_indexing_mode = ''plain''\<rparr>],
     cp_chunks = [], cp_next = 3\<rparr>"

definition new_document :: loaded_document where
  "new_document = load_document identity_library ''p'' ''text'' ''hello''"

theorem ingest_synchronizes_corpus_witness:
  "\<exists>s c'. ingest identity_library plain_ingestion [new_document] old_corpus = (Inr s, c') \<and> corpus_ok c' \<and> is_seen s = 1
     \<and> is_ingested s + is_skipped s = 1 \<and> is_chunks s = 1 \<and> corpus_view c' (''b'', ''p'') = corpus_view old_corpus (''b'', ''p'')
     \<and> ingest identity_library plain_ingestion [new_document] c' = (Inr \<lparr>is_seen = 1, is_ingested = 0, is_skipped = 1, is_chunks = 0\<rparr>, c')"
proof -
  have ok: "corpus_ok old_corpus" by (simp add: corpus_ok_def old_corpus_def)
  have paths: "distinct (map ld_source_path [new_document])" by simp
  have "(case ingest identity_library plain_ingestion [new_document] old_corpus of (Inr s, c') \<Rightarrow> is_chunks s = 1 | _ \<Rightarrow> False)" by code_simp
  then obtain s c' where run: "ingest identity_library plain_ingestion [new_document] old_corpus = (Inr s, c')" "is_chunks s = 1"
    by (auto split: prod.splits sum.splits)
  note sync = ingest_synchronizes_corpus[OF ok paths run(1)]
  have "in_tenant plain_ingestion \<noteq> ''b''" by (simp add: plain_ingestion_def)
  then have "corpus_view c' (''b'', ''p'') = corpus_view old_corpus (''b'', ''p'')" using sync by metis
  moreover have "corpus_ok c' \<and> is_seen s = 1 \<and> is_ingested s + is_skipped s = 1
      \<and> ingest identity_library plain_ingestion [new_document] c' = (Inr \<lparr>is_seen = 1, is_ingested = 0, is_skipped = 1, is_chunks = 0\<rparr>, c')"
    using sync run(1) by simp
  ultimately show ?thesis using run by blast
qed

end
