(* ===== verification/Spec2Isabelle.thy ===== *)
theory Spec2Isabelle imports Store History Turns Packer Http_Context Pipeline Rag Ranking Prompt Budget Routing Costs Provider_Contract Chunking Notion_Write Usage_Audit Event_Log Spend_Guard Heldout_Access Fact_Store Web_Read Notion_Read Vector_Store Corpus begin

text \<open>
  Verification library of the llm-chat-platform service.
\<close>

end
